(* ===== verification/Prelude.thy ===== *)
theory Prelude
  imports Main "HOL-Library.Word" "HOL-Library.Char_ord" "HOL-Library.List_Lexorder" "HOL-Library.AList"
begin

text \<open>
  Shared vocabulary of the development: the machine types, the outcome of a fallible
  procedure (a value, a typed error, or a panic), procedures as state transformers with
  their combinators, the frame predicate \<open>keeps\<close> with its rule collection, and generic
  facts on lists and on Rust's ordered map that every component uses.
\<close>

section \<open>Machine types and byte strings\<close>

type_synonym byte = "8 word"
type_synonym u32 = "32 word"
type_synonym u64 = "64 word"

text \<open>
  A Rust \<open>String\<close> or \<open>&str\<close> is its UTF-8 byte sequence; a HOL \<open>char\<close> is one byte, so
  \<open>length\<close> is Rust's \<open>len()\<close>. Binary data (\<open>&[u8]\<close>, \<open>Vec<u8>\<close>) is a list of 8-bit words.
  \<open>str_bytes\<close> is \<open>as_bytes\<close>, \<open>bytes_str\<close> its inverse.
\<close>

definition char_byte :: "char \<Rightarrow> byte" where
  "char_byte c = word_of_nat (of_char c)"

definition byte_char :: "byte \<Rightarrow> char" where
  "byte_char b = char_of (unat b)"

definition str_bytes :: "string \<Rightarrow> byte list" where
  "str_bytes s = map char_byte s"

definition bytes_str :: "byte list \<Rightarrow> string" where
  "bytes_str bs = map byte_char bs"

lemma byte_char_char_byte [simp]: "byte_char (char_byte c) = c"
proof -
  have "of_char c < (256::nat)" by simp
  then show ?thesis by (simp add: byte_char_def char_byte_def unat_of_nat)
qed

lemma char_byte_byte_char [simp]: "char_byte (byte_char b) = b"
proof -
  have "unat b < 2 ^ LENGTH(8)" by (rule unsigned_less)
  then have "unat b < 256" by simp
  then show ?thesis by (simp add: byte_char_def char_byte_def)
qed

lemma bytes_str_str_bytes [simp]: "bytes_str (str_bytes s) = s"
  by (simp add: bytes_str_def str_bytes_def comp_def)

lemma str_bytes_bytes_str [simp]: "str_bytes (bytes_str bs) = bs"
  by (simp add: bytes_str_def str_bytes_def comp_def)

lemma length_str_bytes [simp]: "length (str_bytes s) = length s"
  by (simp add: str_bytes_def)

lemma str_bytes_inject [simp]: "str_bytes s = str_bytes t \<longleftrightarrow> s = t"
  by (metis bytes_str_str_bytes)

lemma str_bytes_append [simp]: "str_bytes (s @ t) = str_bytes s @ str_bytes t"
  by (simp add: str_bytes_def)

lemma str_bytes_Nil [simp]: "str_bytes [] = []"
  by (simp add: str_bytes_def)

section \<open>Outcomes and procedures\<close>

text \<open>
  A procedure runs on a state and ends with a value (\<open>Ok\<close>), a typed error (\<open>Err\<close>) or
  a panic; the state it leaves behind is explicit in every case.
\<close>

datatype ('e, 'a) outcome = Val 'a | Fail 'e | Panic

type_synonym ('s, 'e, 'a) proc = "'s \<Rightarrow> ('e, 'a) outcome \<times> 's"

definition retP :: "'a \<Rightarrow> ('s, 'e, 'a) proc" where
  "retP x = (\<lambda>s. (Val x, s))"

definition throwP :: "'e \<Rightarrow> ('s, 'e, 'a) proc" where
  "throwP e = (\<lambda>s. (Fail e, s))"

definition panicP :: "('s, 'e, 'a) proc" where
  "panicP = (\<lambda>s. (Panic, s))"

definition bindP :: "('s, 'e, 'a) proc \<Rightarrow> ('a \<Rightarrow> ('s, 'e, 'b) proc) \<Rightarrow> ('s, 'e, 'b) proc" where
  "bindP m f = (\<lambda>s. case m s of
     (Val x, s') \<Rightarrow> f x s'
   | (Fail e, s') \<Rightarrow> (Fail e, s')
   | (Panic, s') \<Rightarrow> (Panic, s'))"

text \<open>\<open>map_err\<close> of Rust's \<open>Result\<close>.\<close>

definition mapErrP :: "('e \<Rightarrow> 'f) \<Rightarrow> ('s, 'e, 'a) proc \<Rightarrow> ('s, 'f, 'a) proc" where
  "mapErrP g m = (\<lambda>s. case m s of
     (Val x, s') \<Rightarrow> (Val x, s')
   | (Fail e, s') \<Rightarrow> (Fail (g e), s')
   | (Panic, s') \<Rightarrow> (Panic, s'))"

text \<open>The \<open>?\<close> operator on a pure \<open>Result\<close>, and \<open>ok_or\<close> on an \<open>Option\<close>.\<close>

definition liftP :: "'e + 'a \<Rightarrow> ('s, 'e, 'a) proc" where
  "liftP r = (case r of Inl e \<Rightarrow> throwP e | Inr x \<Rightarrow> retP x)"

definition okOrP :: "'e \<Rightarrow> 'a option \<Rightarrow> ('s, 'e, 'a) proc" where
  "okOrP e r = (case r of None \<Rightarrow> throwP e | Some x \<Rightarrow> retP x)"

definition getP :: "('s \<Rightarrow> 'a) \<Rightarrow> ('s, 'e, 'a) proc" where
  "getP f = (\<lambda>s. (Val (f s), s))"

lemmas proc_defs = retP_def throwP_def panicP_def bindP_def mapErrP_def liftP_def okOrP_def getP_def

lemma bindP_Val [simp]: "bindP (retP x) f = f x"
  by (simp add: proc_defs)

lemma bindP_throw [simp]: "bindP (throwP e) f = throwP e"
  by (simp add: proc_defs)

lemma liftP_simps [simp]: "liftP (Inl e) = throwP e" "liftP (Inr x) = retP x"
  by (simp_all add: liftP_def)

lemma okOrP_simps [simp]: "okOrP e None = throwP e" "okOrP e (Some x) = retP x"
  by (simp_all add: okOrP_def)

lemma mapErrP_simps [simp]: "mapErrP g (retP x) = retP x" "mapErrP g (throwP e) = throwP (g e)"
  by (simp_all add: proc_defs)

lemma retP_app [simp]: "retP x s = (Val x, s)"
  by (simp add: retP_def)

lemma throwP_app [simp]: "throwP e s = (Fail e, s)"
  by (simp add: throwP_def)

lemma panicP_app [simp]: "panicP s = (Panic, s)"
  by (simp add: panicP_def)

lemma getP_app [simp]: "getP f s = (Val (f s), s)"
  by (simp add: getP_def)

text \<open>Inversion of a sequence that returned a value.\<close>

lemma bindP_ValE:
  assumes "bindP m f s = (Val y, s')"
  obtains x s1 where "m s = (Val x, s1)" "f x s1 = (Val y, s')"
  using assms by (auto simp: bindP_def split: prod.splits outcome.splits)

lemma bindP_Val_iff:
  "bindP m f s = (Val y, s') \<longleftrightarrow> (\<exists>x s1. m s = (Val x, s1) \<and> f x s1 = (Val y, s'))"
  by (auto simp: bindP_def split: prod.splits outcome.splits)

lemma mapErrP_Val_iff [simp]: "mapErrP g m s = (Val y, s') \<longleftrightarrow> m s = (Val y, s')"
  by (auto simp: mapErrP_def split: prod.splits outcome.splits)

lemma liftP_Val_iff [simp]: "liftP r s = (Val y, s') \<longleftrightarrow> r = Inr y \<and> s' = s"
  by (cases r) auto

lemma okOrP_Val_iff [simp]: "okOrP e r s = (Val y, s') \<longleftrightarrow> r = Some y \<and> s' = s"
  by (cases r) auto

lemma guard_Val_iff [simp]: "(if b then throwP e else m) s = (Val y, s') \<longleftrightarrow> \<not> b \<and> m s = (Val y, s')"
  by simp

lemma bindP_step: "m s = (Val x, s1) \<Longrightarrow> bindP m f s = f x s1"
  by (simp add: bindP_def)

lemma bindP_fail_step: "m s = (Fail e, s1) \<Longrightarrow> bindP m f s = (Fail e, s1)"
  by (simp add: bindP_def)

lemma mapErrP_step: "m s = (Val x, s1) \<Longrightarrow> mapErrP g m s = (Val x, s1)"
  by (simp add: mapErrP_def)

lemma snd_mapErrP [simp]: "snd (mapErrP g m s) = snd (m s)"
  by (auto simp: mapErrP_def split: prod.splits outcome.splits)

section \<open>Frames and invariants of procedures\<close>

text \<open>
  \<open>preserves I m\<close>: however \<open>m\<close> ends (value, error or panic), \<open>I\<close> still holds.
  \<open>keeps f m\<close>: \<open>m\<close> never changes the part \<open>f\<close> of the state. The collections
  \<open>pres\<close> and \<open>frame\<close> hold one rule per combinator and one fact per operation, so
  that a handler's frame condition is proved by following its code.
\<close>

definition preserves :: "('s \<Rightarrow> bool) \<Rightarrow> ('s, 'e, 'a) proc \<Rightarrow> bool" where
  "preserves I m \<longleftrightarrow> (\<forall>s. I s \<longrightarrow> I (snd (m s)))"

definition keeps :: "('s \<Rightarrow> 'b) \<Rightarrow> ('s, 'e, 'a) proc \<Rightarrow> bool" where
  "keeps f m \<longleftrightarrow> (\<forall>s. f (snd (m s)) = f s)"

named_theorems pres
named_theorems frame

lemma preservesI [intro?]: "(\<And>s. I s \<Longrightarrow> I (snd (m s))) \<Longrightarrow> preserves I m"
  by (simp add: preserves_def)

lemma preservesD: "preserves I m \<Longrightarrow> I s \<Longrightarrow> I (snd (m s))"
  by (simp add: preserves_def)

lemma keepsD: "keeps f m \<Longrightarrow> f (snd (m s)) = f s"
  by (simp add: keeps_def)

lemma keepsD': "keeps f m \<Longrightarrow> m s = (r, s') \<Longrightarrow> f s' = f s"
  using keepsD [of f m s] by simp

lemma keeps_preserves: "keeps f m \<Longrightarrow> preserves (\<lambda>s. P (f s)) m"
  by (simp add: preserves_def keeps_def)

lemma preserves_retP [pres]: "preserves I (retP x)"
  by (simp add: preserves_def)

lemma preserves_throwP [pres]: "preserves I (throwP e)"
  by (simp add: preserves_def)

lemma preserves_panicP [pres]: "preserves I panicP"
  by (simp add: preserves_def)

lemma preserves_getP [pres]: "preserves I (getP f)"
  by (simp add: preserves_def)

lemma preserves_bindP [pres]:
  assumes "preserves I m" and "\<And>x. preserves I (f x)"
  shows "preserves I (bindP m f)"
proof
  fix s assume "I s"
  with assms(1) have "I (snd (m s))" by (rule preservesD)
  with assms(2) show "I (snd (bindP m f s))"
    by (auto simp: bindP_def preserves_def split: prod.splits outcome.splits)
qed

lemma preserves_mapErrP [pres]: "preserves I m \<Longrightarrow> preserves I (mapErrP g m)"
  by (simp add: preserves_def)

lemma preserves_liftP [pres]: "preserves I (liftP r)"
  by (cases r) (simp_all add: preserves_def)

lemma preserves_okOrP [pres]: "preserves I (okOrP e r)"
  by (cases r) (simp_all add: preserves_def)

lemma preserves_if [pres]: "(b \<Longrightarrow> preserves I m) \<Longrightarrow> (\<not> b \<Longrightarrow> preserves I n) \<Longrightarrow> preserves I (if b then m else n)"
  by simp

lemma keeps_iff_preserves: "keeps f m \<longleftrightarrow> (\<forall>v. preserves (\<lambda>s. f s = v) m)"
  by (auto simp: keeps_def preserves_def)

lemma keeps_retP [frame]: "keeps f (retP x)"
  by (simp add: keeps_def)

lemma keeps_throwP [frame]: "keeps f (throwP e)"
  by (simp add: keeps_def)

lemma keeps_panicP [frame]: "keeps f panicP"
  by (simp add: keeps_def)

lemma keeps_getP [frame]: "keeps f (getP g)"
  by (simp add: keeps_def)

lemma keeps_bindP [frame]:
  "keeps f m \<Longrightarrow> (\<And>x. keeps f (g x)) \<Longrightarrow> keeps f (bindP m g)"
  by (simp add: keeps_iff_preserves preserves_bindP)

lemma keeps_mapErrP [frame]: "keeps f m \<Longrightarrow> keeps f (mapErrP g m)"
  by (simp add: keeps_def)

lemma keeps_liftP [frame]: "keeps f (liftP r)"
  by (cases r) (simp_all add: keeps_def)

lemma keeps_okOrP [frame]: "keeps f (okOrP e r)"
  by (cases r) (simp_all add: keeps_def)

lemma keeps_if [frame]: "(b \<Longrightarrow> keeps f m) \<Longrightarrow> (\<not> b \<Longrightarrow> keeps f n) \<Longrightarrow> keeps f (if b then m else n)"
  by simp

lemma keeps_case_option [frame]:
  "(x = None \<Longrightarrow> keeps f m) \<Longrightarrow> (\<And>y. x = Some y \<Longrightarrow> keeps f (n y)) \<Longrightarrow>
   keeps f (case x of None \<Rightarrow> m | Some y \<Rightarrow> n y)"
  by (cases x) auto

lemma keeps_case_sum [frame]:
  "(\<And>e. x = Inl e \<Longrightarrow> keeps f (m e)) \<Longrightarrow> (\<And>y. x = Inr y \<Longrightarrow> keeps f (n y)) \<Longrightarrow>
   keeps f (case x of Inl e \<Rightarrow> m e | Inr y \<Rightarrow> n y)"
  by (cases x) auto

lemma keeps_case_prod [frame]:
  "(\<And>a b. x = (a, b) \<Longrightarrow> keeps f (m a b)) \<Longrightarrow> keeps f (case x of (a, b) \<Rightarrow> m a b)"
  by (cases x) auto

lemma preserves_case_option [pres]:
  "(x = None \<Longrightarrow> preserves I m) \<Longrightarrow> (\<And>y. x = Some y \<Longrightarrow> preserves I (n y)) \<Longrightarrow>
   preserves I (case x of None \<Rightarrow> m | Some y \<Rightarrow> n y)"
  by (cases x) auto

lemma preserves_case_sum [pres]:
  "(\<And>e. x = Inl e \<Longrightarrow> preserves I (m e)) \<Longrightarrow> (\<And>y. x = Inr y \<Longrightarrow> preserves I (n y)) \<Longrightarrow>
   preserves I (case x of Inl e \<Rightarrow> m e | Inr y \<Rightarrow> n y)"
  by (cases x) auto

lemma preserves_case_prod [pres]:
  "(\<And>a b. x = (a, b) \<Longrightarrow> preserves I (m a b)) \<Longrightarrow> preserves I (case x of (a, b) \<Rightarrow> m a b)"
  by (cases x) auto

section \<open>Ordered maps\<close>

text \<open>
  Rust's \<open>BTreeMap<String, V>\<close>: an association list kept sorted by key without
  duplicates, so that iteration order is the list order.
\<close>

fun bt_insert :: "'k::linorder \<Rightarrow> 'v \<Rightarrow> ('k \<times> 'v) list \<Rightarrow> ('k \<times> 'v) list" where
  "bt_insert k v [] = [(k, v)]"
| "bt_insert k v ((k', v') # m) =
     (if k < k' then (k, v) # (k', v') # m
      else if k = k' then (k, v) # m
      else (k', v') # bt_insert k v m)"

definition bt_inv :: "('k::linorder \<times> 'v) list \<Rightarrow> bool" where
  "bt_inv m \<longleftrightarrow> sorted_wrt (<) (map fst m)"

lemma set_keys_bt_insert: "set (map fst (bt_insert k v m)) = insert k (set (map fst m))"
  by (induction k v m rule: bt_insert.induct) auto

lemma bt_inv_Nil [simp]: "bt_inv []"
  by (simp add: bt_inv_def)

lemma bt_inv_Cons: "bt_inv ((k, v) # m) \<longleftrightarrow> (\<forall>k' \<in> fst ` set m. k < k') \<and> bt_inv m"
  by (auto simp: bt_inv_def)

lemma bt_inv_insert: "bt_inv m \<Longrightarrow> bt_inv (bt_insert k v m)"
proof (induction k v m rule: bt_insert.induct)
  case (2 k v k' v' m)
  have "fst ` set (bt_insert k v m) = insert k (fst ` set m)"
    using set_keys_bt_insert [of k v m] by simp
  with 2 show ?case by (auto simp: bt_inv_Cons not_less_iff_gr_or_eq intro: less_trans)
qed (simp add: bt_inv_Cons)

lemma map_of_bt_insert: "bt_inv m \<Longrightarrow> map_of (bt_insert k v m) = (map_of m)(k \<mapsto> v)"
proof (induction k v m rule: bt_insert.induct)
  case (1 k v)
  then show ?case by simp
next
  case (2 k v k' v' m)
  then show ?case by (auto simp: bt_inv_Cons fun_eq_iff)
qed

lemma bt_inv_distinct: "bt_inv m \<Longrightarrow> distinct (map fst m)"
  by (simp add: bt_inv_def strict_sorted_iff)

lemma bt_inv_unique: "bt_inv m \<Longrightarrow> bt_inv n \<Longrightarrow> map_of m = map_of n \<Longrightarrow> m = n"
proof (rule map_sorted_distinct_set_unique [of fst])
  assume m: "bt_inv m" and n: "bt_inv n" and eq: "map_of m = map_of n"
  from m n show "inj_on fst (set m \<union> set n)"
    using eq bt_inv_distinct [OF m] bt_inv_distinct [OF n]
    by (auto simp: inj_on_def) (metis eq map_of_eq_Some_iff option.inject)+
  show "sorted (map fst m)" "distinct (map fst m)" "sorted (map fst n)" "distinct (map fst n)"
    using m n by (simp_all add: bt_inv_def strict_sorted_iff)
  show "set m = set n"
    using eq map_of_inject_set [of m n] bt_inv_distinct [OF m] bt_inv_distinct [OF n] by simp
qed

section \<open>List facts shared by the components\<close>

lemma map_of_filter_other: "k' \<noteq> k \<Longrightarrow> map_of (filter (\<lambda>(k0, v). k0 \<noteq> k) m) k' = map_of m k'"
  by (induction m) auto

lemma find_Some_in: "find P xs = Some x \<Longrightarrow> P x \<and> x \<in> set xs"
  by (auto simp: find_Some_iff in_set_conv_nth)

lemma find_None_all: "find P xs = None \<longleftrightarrow> (\<forall>x \<in> set xs. \<not> P x)"
  by (auto simp: find_None_iff)

lemma find_unique:
  assumes "distinct (map f xs)" and "x \<in> set xs" and "f x = k"
  shows "find (\<lambda>y. f y = k) xs = Some x"
  using assms by (induction xs) auto

lemma find_append: "find P (xs @ ys) = (case find P xs of None \<Rightarrow> find P ys | Some x \<Rightarrow> Some x)"
  by (induction xs) auto

lemma find_filter_implied: "(\<And>x. P x \<Longrightarrow> Q x) \<Longrightarrow> find P (filter Q xs) = find P xs"
  by (induction xs) auto

lemma find_map_same:
  "(\<And>x. P (g x) \<longleftrightarrow> P x) \<Longrightarrow> find P (map g xs) = map_option g (find P xs)"
  by (induction xs) auto

lemma distinct_map_filter': "distinct (map f xs) \<Longrightarrow> distinct (map f (filter P xs))"
  by (rule distinct_map_filter)

end
