(* ===== verification/Bytes.thy ===== *)
theory Bytes
  imports Prelude
begin

text \<open>
  Byte-level encodings used by the program: little-endian integers (\<open>to_le_bytes\<close> and
  \<open>from_le_bytes\<close>), the length-prefixed framing shared by the server's and the client's
  associated data, and UTF-8 validity (\<open>String::from_utf8\<close>). The locales \<open>codec\<close> and
  \<open>framing\<close> state what the components need of an encoding.
\<close>

section \<open>Little-endian integers\<close>

fun le_bytes :: "nat \<Rightarrow> nat \<Rightarrow> byte list" where
  "le_bytes 0 n = []"
| "le_bytes (Suc k) n = word_of_nat (n mod 256) # le_bytes k (n div 256)"

fun le_value :: "byte list \<Rightarrow> nat" where
  "le_value [] = 0"
| "le_value (b # bs) = unat b + 256 * le_value bs"

lemma length_le_bytes [simp]: "length (le_bytes k n) = k"
  by (induction k n rule: le_bytes.induct) auto

lemma le_value_le_bytes: "le_value (le_bytes k n) = n mod 256 ^ k"
proof (induction k n rule: le_bytes.induct)
  case (2 k n)
  have "le_value (le_bytes (Suc k) n) = n mod 256 + 256 * (n div 256 mod 256 ^ k)"
    using 2 by (simp add: unat_of_nat)
  also have "\<dots> = n mod 256 ^ Suc k"
    by (simp add: mod_mult2_eq add.commute)
  finally show ?case .
qed simp

lemma le_value_less: "le_value bs < 256 ^ length bs"
proof (induction bs)
  case (Cons b bs)
  have "unat b < 2 ^ LENGTH(8)" by (rule unsigned_less)
  then have "unat b < 256" by simp
  with Cons show ?case by (simp add: algebra_simps)
qed simp

lemma le_bytes_le_value: "le_bytes (length bs) (le_value bs) = bs"
proof (induction bs)
  case (Cons b bs)
  have "unat b < 2 ^ LENGTH(8)" by (rule unsigned_less)
  then have b: "unat b < 256" by simp
  with Cons show ?case by (simp add: mod_mult_self1 [of "unat b" 256])
qed simp

lemma le_bytes_inject: "le_bytes k m = le_bytes k n \<longleftrightarrow> m mod 256 ^ k = n mod 256 ^ k"
proof
  assume "le_bytes k m = le_bytes k n"
  then show "m mod 256 ^ k = n mod 256 ^ k" by (metis le_value_le_bytes)
next
  have eq: "le_bytes k x = le_bytes k (x mod 256 ^ k)" for x
    by (metis le_bytes_le_value le_value_le_bytes length_le_bytes)
  assume "m mod 256 ^ k = n mod 256 ^ k"
  then show "le_bytes k m = le_bytes k n" by (metis eq)
qed

text \<open>\<open>u32::to_le_bytes\<close>, \<open>u64::to_le_bytes\<close> and their inverses.\<close>

definition u32_le :: "u32 \<Rightarrow> byte list" where
  "u32_le w = le_bytes 4 (unat w)"

definition u32_from_le :: "byte list \<Rightarrow> u32" where
  "u32_from_le bs = word_of_nat (le_value bs)"

definition u64_le :: "u64 \<Rightarrow> byte list" where
  "u64_le w = le_bytes 8 (unat w)"

lemma length_u32_le [simp]: "length (u32_le w) = 4"
  by (simp add: u32_le_def)

lemma length_u64_le [simp]: "length (u64_le w) = 8"
  by (simp add: u64_le_def)

lemma u32_from_le_u32_le [simp]: "u32_from_le (u32_le w) = w"
proof -
  have "unat w < 2 ^ LENGTH(32)" by (rule unsigned_less)
  then have "unat w mod 256 ^ 4 = unat w" by simp
  then show ?thesis by (simp add: u32_from_le_def u32_le_def le_value_le_bytes)
qed

lemma u32_le_u32_from_le: "length bs = 4 \<Longrightarrow> u32_le (u32_from_le bs) = bs"
proof -
  assume len: "length bs = 4"
  then have "le_value bs < 2 ^ 32" using le_value_less [of bs] by simp
  then have "unat (word_of_nat (le_value bs) :: u32) = le_value bs"
    by (simp add: unat_of_nat)
  then show ?thesis using le_bytes_le_value [of bs] len
    by (simp add: u32_from_le_def u32_le_def)
qed

lemma u32_le_inject [simp]: "u32_le v = u32_le w \<longleftrightarrow> v = w"
  by (metis u32_from_le_u32_le)

lemma u64_le_inject [simp]: "u64_le v = u64_le w \<longleftrightarrow> v = w"
proof -
  have "unat x mod 256 ^ 8 = unat x" for x :: u64
  proof -
    have "unat x < 2 ^ LENGTH(64)" by (rule unsigned_less)
    then show ?thesis by simp
  qed
  then have "u64_le v = u64_le w \<longleftrightarrow> unat v = unat w" by (simp add: u64_le_def le_bytes_inject)
  then show ?thesis by (simp add: word_unat_eq_iff)
qed

text \<open>A fixed-width codec: what is written can be read back, and only that.\<close>

locale codec =
  fixes enc :: "'a \<Rightarrow> 'b list" and dec :: "'b list \<Rightarrow> 'e + 'a" and width :: nat
  assumes dec_enc: "dec (enc x) = Inr x"
    and dec_width: "dec bs = Inr x \<Longrightarrow> length bs = width \<and> enc x = bs"
begin

lemma enc_width: "length (enc x) = width"
  using dec_width [OF dec_enc] by simp

lemma dec_iff: "dec bs = Inr x \<longleftrightarrow> bs = enc x"
  using dec_enc dec_width by blast

lemma enc_eq_iff: "enc x = enc y \<longleftrightarrow> x = y"
  by (metis dec_enc sum.inject(2))

lemma dec_err_iff: "(\<exists>e. dec bs = Inl e) \<longleftrightarrow> bs \<notin> range enc"
proof (cases "dec bs")
  case (Inl e)
  then show ?thesis using dec_enc by force
next
  case (Inr x)
  then show ?thesis using dec_width by force
qed

end

section \<open>Length-prefixed framing\<close>

text \<open>
  \<open>(s.len() as u32).to_le_bytes()\<close> followed by the bytes: the cast truncates lengths
  modulo \<open>2 ^ 32\<close>.
\<close>

definition len_prefixed :: "byte list \<Rightarrow> byte list" where
  "len_prefixed bs = u32_le (word_of_nat (length bs)) @ bs"

lemma length_len_prefixed [simp]: "length (len_prefixed bs) = 4 + length bs"
  by (simp add: len_prefixed_def)

lemma word32_of_nat_inject: "m < 2 ^ 32 \<Longrightarrow> n < 2 ^ 32 \<Longrightarrow> (word_of_nat m :: u32) = word_of_nat n \<longleftrightarrow> m = n"
  by (auto simp: word_of_nat_eq_iff take_bit_nat_eq_self)

text \<open>
  A framing splits unambiguously: two framed blocks followed by anything are equal only
  when the blocks and the rests are. \<open>ok\<close> is the length bound under which this holds.
\<close>

locale framing =
  fixes frame1 :: "'b list \<Rightarrow> 'c list" and ok :: "'b list \<Rightarrow> bool"
  assumes frame_split:
    "ok x \<Longrightarrow> ok y \<Longrightarrow> frame1 x @ r = frame1 y @ s \<Longrightarrow> x = y \<and> r = s"
begin

lemma frame_append_iff: "ok x \<Longrightarrow> ok y \<Longrightarrow> frame1 x @ r = frame1 y @ s \<longleftrightarrow> x = y \<and> r = s"
  using frame_split by blast

lemma frame_inject: "ok x \<Longrightarrow> ok y \<Longrightarrow> frame1 x = frame1 y \<longleftrightarrow> x = y"
  using frame_split [of x y "[]" "[]"] by auto

lemma frame_pair_inject:
  "ok a \<Longrightarrow> ok b \<Longrightarrow> ok c \<Longrightarrow> ok d \<Longrightarrow>
   frame1 a @ frame1 b = frame1 c @ frame1 d \<longleftrightarrow> a = c \<and> b = d"
  by (simp add: frame_append_iff frame_inject)

lemma frame_list_inject:
  "length xs = length ys \<Longrightarrow> \<forall>x \<in> set (xs @ ys). ok x \<Longrightarrow>
   concat (map frame1 xs) = concat (map frame1 ys) \<longleftrightarrow> xs = ys"
proof (induction xs arbitrary: ys)
  case (Cons x xs)
  then show ?case by (cases ys) (auto simp: frame_append_iff)
qed simp

end

definition short_block :: "byte list \<Rightarrow> bool" where
  "short_block bs \<longleftrightarrow> length bs < 2 ^ 32"

interpretation lenp: framing len_prefixed short_block
proof unfold_locales
  fix x y r s :: "byte list"
  assume ok: "short_block x" "short_block y" and eq: "len_prefixed x @ r = len_prefixed y @ s"
  from eq have "u32_le (word_of_nat (length x)) = u32_le (word_of_nat (length y)) \<and> x @ r = y @ s"
    by (simp add: len_prefixed_def)
  with ok have "length x = length y" and "x @ r = y @ s"
    by (simp_all add: short_block_def word32_of_nat_inject)
  then show "x = y \<and> r = s" by simp
qed

section \<open>UTF-8\<close>

text \<open>
  Well-formed byte sequences of the Unicode standard (Table 3-7), which is what
  \<open>String::from_utf8\<close> accepts.
\<close>

definition utf8_cont :: "byte \<Rightarrow> bool" where
  "utf8_cont b \<longleftrightarrow> 0x80 \<le> b \<and> b \<le> 0xBF"

definition utf8_second3 :: "byte \<Rightarrow> byte \<Rightarrow> bool" where
  "utf8_second3 a b \<longleftrightarrow>
     (if a = 0xE0 then 0xA0 \<le> b \<and> b \<le> 0xBF else if a = 0xED then 0x80 \<le> b \<and> b \<le> 0x9F else utf8_cont b)"

definition utf8_second4 :: "byte \<Rightarrow> byte \<Rightarrow> bool" where
  "utf8_second4 a b \<longleftrightarrow>
     (if a = 0xF0 then 0x90 \<le> b \<and> b \<le> 0xBF else if a = 0xF4 then 0x80 \<le> b \<and> b \<le> 0x8F else utf8_cont b)"

text \<open>The width of the sequence a first byte opens; 0 for a byte that opens none.\<close>

definition utf8_width :: "byte \<Rightarrow> nat" where
  "utf8_width a =
     (if a < 0x80 then 1 else if 0xC2 \<le> a \<and> a \<le> 0xDF then 2
      else if 0xE0 \<le> a \<and> a \<le> 0xEF then 3 else if 0xF0 \<le> a \<and> a \<le> 0xF4 then 4 else 0)"

text \<open>The trailing bytes that may follow a first byte.\<close>

definition utf8_tail :: "byte \<Rightarrow> byte list \<Rightarrow> bool" where
  "utf8_tail a t \<longleftrightarrow> length t + 1 = utf8_width a \<and> list_all utf8_cont t \<and>
     (length t = 2 \<longrightarrow> utf8_second3 a (t ! 0)) \<and> (length t = 3 \<longrightarrow> utf8_second4 a (t ! 0))"

function utf8_valid :: "byte list \<Rightarrow> bool" where
  "utf8_valid [] = True"
| "utf8_valid (a # r) =
     (utf8_tail a (take (utf8_width a - 1) r) \<and> utf8_valid (drop (utf8_width a - 1) r))"
  by pat_completeness auto
termination
  by (relation "measure length") auto

definition from_utf8 :: "byte list \<Rightarrow> string option" where
  "from_utf8 bs = (if utf8_valid bs then Some (bytes_str bs) else None)"

text \<open>The type invariant of a Rust string.\<close>

definition is_str :: "string \<Rightarrow> bool" where
  "is_str s \<longleftrightarrow> utf8_valid (str_bytes s)"

lemma from_utf8_str_bytes [simp]: "from_utf8 (str_bytes s) = (if is_str s then Some s else None)"
  by (simp add: from_utf8_def is_str_def)

lemma from_utf8_Some: "from_utf8 bs = Some s \<longleftrightarrow> bs = str_bytes s \<and> is_str s"
  by (auto simp: from_utf8_def is_str_def split: if_splits)

definition ascii_str :: "string \<Rightarrow> bool" where
  "ascii_str s \<longleftrightarrow> (\<forall>c \<in> set s. of_char c < (128::nat))"

lemma utf8_valid_ascii: "\<forall>b \<in> set bs. b < 0x80 \<Longrightarrow> utf8_valid bs"
proof (induction bs)
  case (Cons b bs)
  then have "utf8_width b = 1" by (simp add: utf8_width_def)
  with Cons show ?case by (simp add: utf8_tail_def)
qed simp

lemma char_byte_less: "of_char c < (128::nat) \<Longrightarrow> char_byte c < 0x80"
proof -
  assume "of_char c < (128::nat)"
  then have "unat (char_byte c) < unat (0x80 :: byte)"
    by (simp add: char_byte_def unat_of_nat)
  then show ?thesis by (simp only: word_less_nat_alt)
qed

lemma ascii_is_str: "ascii_str s \<Longrightarrow> is_str s"
  by (auto simp: ascii_str_def is_str_def str_bytes_def char_byte_less intro!: utf8_valid_ascii)

section \<open>ASCII classes\<close>

definition is_ascii_alnum :: "char \<Rightarrow> bool" where
  "is_ascii_alnum c \<longleftrightarrow>
     (let n = of_char c :: nat in 48 \<le> n \<and> n \<le> 57 \<or> 65 \<le> n \<and> n \<le> 90 \<or> 97 \<le> n \<and> n \<le> 122)"

lemma is_ascii_alnum_ascii: "is_ascii_alnum c \<Longrightarrow> of_char c < (128::nat)"
  by (auto simp: is_ascii_alnum_def Let_def)

text \<open>
  The naming rules of the program share one shape: non-empty, at most \<open>limit\<close> bytes, every
  byte alphanumeric or one of \<open>extra\<close>. The locale gives what every such rule guarantees to
  its clients (frames, log lines, URLs, dotenv lines).
\<close>

locale name_rule =
  fixes valid :: "string \<Rightarrow> bool" and limit :: nat and extra :: "char set"
  assumes valid_iff: "valid s \<longleftrightarrow> s \<noteq> [] \<and> length s \<le> limit \<and> (\<forall>c \<in> set s. is_ascii_alnum c \<or> c \<in> extra)"
    and extra_ascii: "c \<in> extra \<Longrightarrow> of_char c < (128::nat)"
    and limit_small: "limit < 2 ^ 32"
begin

lemma valid_nonempty: "valid s \<Longrightarrow> s \<noteq> []"
  by (simp add: valid_iff)

lemma valid_length: "valid s \<Longrightarrow> length s \<le> limit"
  by (simp add: valid_iff)

lemma valid_ascii: "valid s \<Longrightarrow> ascii_str s"
  using extra_ascii is_ascii_alnum_ascii by (auto simp: valid_iff ascii_str_def)

lemma valid_is_str: "valid s \<Longrightarrow> is_str s"
  by (simp add: valid_ascii ascii_is_str)

lemma valid_avoids: "valid s \<Longrightarrow> \<not> is_ascii_alnum c \<Longrightarrow> c \<notin> extra \<Longrightarrow> c \<notin> set s"
  by (auto simp: valid_iff)

lemma valid_short: "valid s \<Longrightarrow> short_block (str_bytes s)"
  using limit_small by (simp add: valid_iff short_block_def)

end

end
