(* ===== verification/Crypto.thy ===== *)
theory Crypto
  imports Bytes
begin

text \<open>
  The crate \<open>secrets-crypto\<close> (\<open>crates/secrets-crypto/src/lib.rs\<close>): key derivation, the
  associated data of a record, authenticated encryption with a fresh nonce, token hashing
  and token generation. The third-party primitives are the fields of \<open>lib\<close>; what the code
  relies on of them is stated by the predicates \<open>aead_ok\<close>, \<open>argon2_ok\<close>, \<open>ct_ok\<close>, \<open>sha_ok\<close>,
  \<open>b64_ok\<close> and \<open>time_ok\<close>. The operating system's random bytes are an explicit list that every
  draw shortens; a draw the list cannot serve is the panic of \<open>expect("OS RNG failure")\<close>.
\<close>

section \<open>Third-party primitives\<close>

text \<open>
  In order: XChaCha20-Poly1305 (key, nonce, AAD, message), \<open>argon2::Params::new\<close> and
  \<open>hash_password_into\<close> (passphrase, salt, costs, output length), SHA-256, \<open>subtle\<close>'s slice
  comparison, URL-safe unpadded base64, and of the \<open>time\<close> crate RFC 3339 formatting, its
  parser, and adding days to a date (\<open>None\<close> where \<open>OffsetDateTime + Duration\<close> panics).
  Instants are integer nanoseconds since the Unix epoch.
\<close>

record lib =
  aead_encrypt :: "byte list \<Rightarrow> byte list \<Rightarrow> byte list \<Rightarrow> byte list \<Rightarrow> byte list option"
  aead_decrypt :: "byte list \<Rightarrow> byte list \<Rightarrow> byte list \<Rightarrow> byte list \<Rightarrow> byte list option"
  argon2_params :: "u32 \<Rightarrow> u32 \<Rightarrow> u32 \<Rightarrow> nat \<Rightarrow> bool"
  argon2_hash :: "byte list \<Rightarrow> byte list \<Rightarrow> u32 \<Rightarrow> u32 \<Rightarrow> u32 \<Rightarrow> nat \<Rightarrow> byte list option"
  sha256 :: "byte list \<Rightarrow> byte list"
  ct_slices :: "byte list \<Rightarrow> byte list \<Rightarrow> bool"
  b64url_encode :: "byte list \<Rightarrow> string"
  b64url_decode :: "string \<Rightarrow> byte list option"
  rfc3339_format :: "int \<Rightarrow> string option"
  rfc3339_parse :: "string \<Rightarrow> int option"
  date_add_days :: "int \<Rightarrow> nat \<Rightarrow> int option"

definition NONCE_LEN :: nat where
  "NONCE_LEN = 24"

definition KEY_LEN :: nat where
  "KEY_LEN = 32"

text \<open>
  Documented behaviour of the primitives: decryption inverts encryption under the same key,
  nonce and AAD, and messages below 4 GiB are not refused; Argon2 fills the whole output
  buffer; \<open>subtle\<close> decides equality of slices of equal length; SHA-256 yields 32 bytes;
  base64 (of the URL-safe alphabet) and RFC 3339
  texts are read back as the value written; a day has 86400 seconds.
\<close>

definition aead_ok :: "lib \<Rightarrow> bool" where
  "aead_ok L \<longleftrightarrow> (\<forall>k n a p. length k = 32 \<longrightarrow> length n = 24 \<longrightarrow>
     (\<forall>c. aead_encrypt L k n a p = Some c \<longrightarrow> aead_decrypt L k n a c = Some p) \<and>
     (length p < 2 ^ 32 \<longrightarrow> aead_encrypt L k n a p \<noteq> None))"

definition argon2_ok :: "lib \<Rightarrow> bool" where
  "argon2_ok L \<longleftrightarrow> (\<forall>p s m t l n k. argon2_hash L p s m t l n = Some k \<longrightarrow> length k = n)"

definition ct_ok :: "lib \<Rightarrow> bool" where
  "ct_ok L \<longleftrightarrow> (\<forall>a b. length a = length b \<longrightarrow> ct_slices L a b = (a = b))"

definition sha_ok :: "lib \<Rightarrow> bool" where
  "sha_ok L \<longleftrightarrow> (\<forall>m. length (sha256 L m) = 32)"

definition b64_ok :: "lib \<Rightarrow> bool" where
  "b64_ok L \<longleftrightarrow> (\<forall>bs. b64url_decode L (b64url_encode L bs) = Some bs \<and>
     (\<forall>c \<in> set (b64url_encode L bs). is_ascii_alnum c \<or> c = CHR ''-'' \<or> c = CHR ''_''))"

definition time_ok :: "lib \<Rightarrow> bool" where
  "time_ok L \<longleftrightarrow> (\<forall>t s. rfc3339_format L t = Some s \<longrightarrow> rfc3339_parse L s = Some t) \<and>
     (\<forall>t n t'. date_add_days L t n = Some t' \<longrightarrow> t' = t + int n * 86400 * 10 ^ 9)"

section \<open>Errors, parameters and keys\<close>

datatype crypto_error = Kdf | Params | Encrypt | Decrypt | NonceLen

record kdf_params =
  m_cost_kib :: u32
  t_cost :: u32
  p_cost :: u32

definition kdf_strong :: kdf_params where
  "kdf_strong = \<lparr>m_cost_kib = 256 * 1024, t_cost = 4, p_cost = 1\<rparr>"

datatype master_key = MasterKey (expose: "byte list")

definition key_ok :: "master_key \<Rightarrow> bool" where
  "key_ok k \<longleftrightarrow> length (expose k) = KEY_LEN"

definition debug_master_key :: "master_key \<Rightarrow> string" where
  "debug_master_key k = ''MasterKey(<redacted>)''"

definition derive_key :: "lib \<Rightarrow> string \<Rightarrow> byte list \<Rightarrow> kdf_params \<Rightarrow> crypto_error + master_key" where
  "derive_key L passphrase salt params =
     (if \<not> argon2_params L (m_cost_kib params) (t_cost params) (p_cost params) KEY_LEN then Inl Params
      else case argon2_hash L (str_bytes passphrase) salt
                  (m_cost_kib params) (t_cost params) (p_cost params) KEY_LEN of
        None \<Rightarrow> Inl Kdf
      | Some out \<Rightarrow> Inr (MasterKey out))"

lemma derive_key_ok: "argon2_ok L \<Longrightarrow> derive_key L p s params = Inr k \<Longrightarrow> key_ok k"
  by (auto simp: derive_key_def argon2_ok_def key_ok_def split: if_splits option.splits)

section \<open>Random bytes\<close>

record rng =
  entropy :: "byte list"

text \<open>\<open>SysRng.try_fill_bytes(&mut buf).expect(..)\<close> for a buffer of \<open>n\<close> bytes.\<close>

definition fill_bytes :: "nat \<Rightarrow> ('m rng_scheme, 'e, byte list) proc" where
  "fill_bytes n = (\<lambda>w. if length (entropy w) < n then (Panic, w)
     else (Val (take n (entropy w)), w\<lparr>entropy := drop n (entropy w)\<rparr>))"

lemma fill_bytes_Val: "fill_bytes n w = (Val bs, w') \<longleftrightarrow>
    n \<le> length (entropy w) \<and> bs = take n (entropy w) \<and> w' = w\<lparr>entropy := drop n (entropy w)\<rparr>"
  by (auto simp: fill_bytes_def not_less split: if_splits)

lemma keeps_fill_bytes: "(\<And>w e. f (w\<lparr>entropy := e\<rparr>) = f w) \<Longrightarrow> keeps f (fill_bytes n)"
  by (simp add: keeps_def fill_bytes_def)

section \<open>Authenticated encryption\<close>

definition aad_bytes :: "string \<Rightarrow> string \<Rightarrow> byte list" where
  "aad_bytes project key = len_prefixed (str_bytes project) @ len_prefixed (str_bytes key)"

definition encrypt ::
    "lib \<Rightarrow> master_key \<Rightarrow> byte list \<Rightarrow> byte list \<Rightarrow>
     ('m rng_scheme, crypto_error, byte list \<times> byte list) proc" where
  "encrypt L key plaintext aad =
     (if length (expose key) \<noteq> KEY_LEN then throwP Encrypt else
      bindP (fill_bytes NONCE_LEN) (\<lambda>nonce.
      if length nonce \<noteq> NONCE_LEN then throwP Encrypt else
      bindP (okOrP Encrypt (aead_encrypt L (expose key) nonce aad plaintext)) (\<lambda>ciphertext.
      retP (nonce, ciphertext))))"

definition decrypt ::
    "lib \<Rightarrow> master_key \<Rightarrow> byte list \<Rightarrow> byte list \<Rightarrow> byte list \<Rightarrow> crypto_error + byte list" where
  "decrypt L key nonce ciphertext aad =
     (if length nonce \<noteq> NONCE_LEN then Inl NonceLen
      else if length (expose key) \<noteq> KEY_LEN then Inl Decrypt
      else case aead_decrypt L (expose key) nonce aad ciphertext of
        None \<Rightarrow> Inl Decrypt
      | Some pt \<Rightarrow> Inr pt)"

definition generate_salt :: "('m rng_scheme, 'e, byte list) proc" where
  "generate_salt = fill_bytes 16"

section \<open>Tokens\<close>

definition hash_token :: "lib \<Rightarrow> string \<Rightarrow> byte list" where
  "hash_token L token = sha256 L (str_bytes token)"

definition ct_eq :: "lib \<Rightarrow> byte list \<Rightarrow> byte list \<Rightarrow> bool" where
  "ct_eq L a b = (if length a \<noteq> length b then False else ct_slices L a b)"

definition generate_token :: "lib \<Rightarrow> ('m rng_scheme, 'e, string) proc" where
  "generate_token L = bindP (fill_bytes 32) (\<lambda>raw. retP (b64url_encode L raw))"

lemma ct_eq_iff: "ct_ok L \<Longrightarrow> ct_eq L a b \<longleftrightarrow> a = b"
  by (auto simp: ct_ok_def ct_eq_def)

section \<open>Facts about encryption\<close>

lemma encrypt_Val_iff:
  "encrypt L key pt aad w = (Val (nonce, ct), w') \<longleftrightarrow>
     key_ok key \<and> 24 \<le> length (entropy w) \<and> nonce = take 24 (entropy w) \<and>
     w' = w\<lparr>entropy := drop 24 (entropy w)\<rparr> \<and> aead_encrypt L (expose key) nonce aad pt = Some ct"
  by (auto simp: encrypt_def key_ok_def NONCE_LEN_def bindP_Val_iff fill_bytes_Val split: if_splits)

lemma encrypt_succeeds:
  assumes "aead_ok L" and "key_ok key" and "24 \<le> length (entropy w)" and "length pt < 2 ^ 32"
  obtains ct where "encrypt L key pt aad w = (Val (take 24 (entropy w), ct), w\<lparr>entropy := drop 24 (entropy w)\<rparr>)"
proof -
  from assms have "aead_encrypt L (expose key) (take 24 (entropy w)) aad pt \<noteq> None"
    by (simp add: aead_ok_def key_ok_def KEY_LEN_def)
  then obtain ct where "aead_encrypt L (expose key) (take 24 (entropy w)) aad pt = Some ct" by blast
  with assms that show ?thesis by (simp add: encrypt_Val_iff)
qed

lemma decrypt_Inr_iff:
  "decrypt L key nonce ct aad = Inr pt \<longleftrightarrow>
     length nonce = 24 \<and> key_ok key \<and> aead_decrypt L (expose key) nonce aad ct = Some pt"
  by (auto simp: decrypt_def key_ok_def NONCE_LEN_def split: option.splits)

lemma decrypt_encrypt:
  "aead_ok L \<Longrightarrow> encrypt L key pt aad w = (Val (nonce, ct), w') \<Longrightarrow> decrypt L key nonce ct aad = Inr pt"
  by (auto simp: encrypt_Val_iff decrypt_Inr_iff aead_ok_def key_ok_def KEY_LEN_def)

lemma keeps_encrypt:
  "(\<And>w e. f (w\<lparr>entropy := e\<rparr>) = f w) \<Longrightarrow> keeps f (encrypt L key pt aad)"
  unfolding encrypt_def by (intro frame keeps_fill_bytes) auto

lemma encrypt_rng_only: "snd (encrypt L key pt aad w) = w\<lparr>entropy := entropy (snd (encrypt L key pt aad w))\<rparr>"
  by (auto simp: encrypt_def fill_bytes_def proc_defs split: prod.splits outcome.splits option.splits)

text \<open>
  The interface every component that stores ciphertexts relies on: what was sealed can be
  unsealed under the same key and associated data, and unsealing is a function. \<open>good\<close> is
  the condition on the primitives under which the provider promises it.
\<close>

locale sealing =
  fixes good :: "'l \<Rightarrow> bool"
    and seal :: "'l \<Rightarrow> 'k \<Rightarrow> byte list \<Rightarrow> byte list \<Rightarrow> ('s, 'e, byte list \<times> byte list) proc"
    and unseal :: "'l \<Rightarrow> 'k \<Rightarrow> byte list \<Rightarrow> byte list \<Rightarrow> byte list \<Rightarrow> 'e + byte list"
  assumes unseal_seal:
    "good l \<Longrightarrow> seal l k pt a s = (Val (n, c), s') \<Longrightarrow> unseal l k n c a = Inr pt"
begin

text \<open>Moving a ciphertext from one key to another keeps what can be read.\<close>

lemma reseal:
  assumes "good l" and "unseal l k n c a = Inr pt" and "seal l k' pt a s = (Val (n', c'), s')"
  shows "unseal l k' n' c' a = unseal l k n c a"
  using assms by (simp add: unseal_seal [OF assms(1,3)])

text \<open>
  If a sealed message opens under other associated data, the primitive accepted an
  associated data it was never given for that ciphertext.
\<close>

lemma swapped_is_forgery:
  assumes "good l" and "seal l k pt a s = (Val (n, c), s')" and "a' \<noteq> a"
    and "unseal l k n c a' = Inr pt'"
  shows "\<exists>a1 a2 p1 p2. a1 \<noteq> a2 \<and> unseal l k n c a1 = Inr p1 \<and> unseal l k n c a2 = Inr p2"
  using unseal_seal [OF assms(1,2)] assms(3,4) by blast

end

interpretation box: sealing aead_ok encrypt decrypt
  by unfold_locales (rule decrypt_encrypt)

section \<open>Properties\<close>

lemma aad_bytes_inject:
  assumes "length p < 2 ^ 32" and "length k < 2 ^ 32" and "length p' < 2 ^ 32" and "length k' < 2 ^ 32"
  shows "aad_bytes p k = aad_bytes p' k' \<longleftrightarrow> p = p' \<and> k = k'"
proof -
  have "short_block (str_bytes p)" "short_block (str_bytes k)" "short_block (str_bytes p')" "short_block (str_bytes k')"
    using assms by (simp_all add: short_block_def)
  then show ?thesis by (simp add: aad_bytes_def lenp.frame_pair_inject)
qed

end
