(* ===== verification/Database.thy ===== *)
theory Database
  imports Crypto
begin

text \<open>
  The SQLite database of the server (\<open>crates/secrets-server/src/db.rs\<close>): the tables of the
  schema as lists of row records in rowid order, the connection on which statements run,
  and transactions. Each statement is atomic, may fail for reasons outside the program
  (busy, full disk, I/O error), and the failures to come are an explicit list in the state,
  so theorems quantify over every pattern of failures. Reading the clock is a step of the
  state too. The locales \<open>kv_table\<close> and \<open>kv_store\<close> are the contracts of keyed tables.
\<close>

section \<open>Tables\<close>

record project_row =
  pr_id :: int
  pr_name :: string
  pr_created_at :: string

record secret_row =
  sr_id :: int
  sr_project_id :: int
  sr_key :: string
  sr_nonce :: "byte list"
  sr_ciphertext :: "byte list"
  sr_version :: int
  sr_updated_at :: string

record token_row =
  tk_id :: int
  tk_name :: string
  tk_hash :: "byte list"
  tk_scope :: "string option"
  tk_created_at :: string
  tk_revoked :: int
  tk_expires_at :: "string option"

text \<open>
  \<open>db_tables\<close> and \<open>db_token_columns\<close> are the schema: the tables that exist and the columns
  of \<open>tokens\<close>, the only table \<open>migrate\<close> alters.
\<close>

record database =
  db_tables :: "string list"
  db_token_columns :: "string list"
  db_meta :: "(string \<times> byte list) list"
  db_projects :: "project_row list"
  db_secrets :: "secret_row list"
  db_tokens :: "token_row list"

definition empty_db :: database where
  "empty_db = \<lparr>db_tables = [], db_token_columns = [], db_meta = [], db_projects = [],
     db_secrets = [], db_tokens = []\<rparr>"

section \<open>Statements\<close>

text \<open>
  A failed statement is an engine failure, a violated constraint, or a \<open>query_row\<close> that
  found no row.
\<close>

datatype sql_error = SqlFailure | SqlConstraint | SqlNoRows

text \<open>The state of a process that uses the database: \<open>wio\<close> tells, statement by statement,
  which ones the engine will fail (the empty list: none any more).\<close>

record world = rng +
  wdb :: database
  wio :: "bool list"
  wtick :: nat
  wclock :: "nat \<Rightarrow> int"

definition sql :: "(database \<Rightarrow> sql_error + 'a \<times> database) \<Rightarrow> ('m world_scheme, sql_error, 'a) proc" where
  "sql stmt = (\<lambda>w.
     let w' = w\<lparr>wio := tl (wio w)\<rparr> in
     if wio w \<noteq> [] \<and> hd (wio w) then (Fail SqlFailure, w')
     else case stmt (wdb w) of
       Inl e \<Rightarrow> (Fail e, w')
     | Inr (x, d) \<Rightarrow> (Val x, w'\<lparr>wdb := d\<rparr>))"

definition query :: "(database \<Rightarrow> 'a) \<Rightarrow> ('m world_scheme, sql_error, 'a) proc" where
  "query f = sql (\<lambda>d. Inr (f d, d))"

definition now_utc :: "('m world_scheme, 'e, int) proc" where
  "now_utc = (\<lambda>w. (Val (wclock w (wtick w)), w\<lparr>wtick := Suc (wtick w)\<rparr>))"

text \<open>
  \<open>unchecked_transaction\<close>, a body on the transaction, and \<open>commit\<close>: dropping the
  transaction before a successful commit rolls the tables back.
\<close>

definition with_tx ::
    "(sql_error \<Rightarrow> 'e) \<Rightarrow> ('m world_scheme, 'e, 'a) proc \<Rightarrow> ('m world_scheme, 'e, 'a) proc" where
  "with_tx lift body = (\<lambda>w0. case mapErrP lift (query (\<lambda>_. ())) w0 of
     (Val u, w1) \<Rightarrow> (case body w1 of
         (Val x, w2) \<Rightarrow> (case mapErrP lift (query (\<lambda>_. ())) w2 of
             (Val u, w3) \<Rightarrow> (Val x, w3)
           | (Fail e, w3) \<Rightarrow> (Fail e, w3\<lparr>wdb := wdb w1\<rparr>)
           | (Panic, w3) \<Rightarrow> (Panic, w3\<lparr>wdb := wdb w1\<rparr>))
       | (Fail e, w2) \<Rightarrow> (Fail e, w2\<lparr>wdb := wdb w1\<rparr>)
       | (Panic, w2) \<Rightarrow> (Panic, w2\<lparr>wdb := wdb w1\<rparr>))
   | (Fail e, w1) \<Rightarrow> (Fail e, w1)
   | (Panic, w1) \<Rightarrow> (Panic, w1))"

text \<open>\<open>INTEGER PRIMARY KEY\<close>: the largest rowid in use plus one.\<close>

definition next_rowid :: "int list \<Rightarrow> int" where
  "next_rowid ids = foldr max ids 0 + 1"

lemma next_rowid_greater: "i \<in> set ids \<Longrightarrow> i < next_rowid ids"
proof -
  assume "i \<in> set ids"
  then have "i \<le> foldr max ids 0" by (induction ids) auto
  then show ?thesis by (simp add: next_rowid_def)
qed

lemma next_rowid_fresh: "next_rowid ids \<notin> set ids"
  using next_rowid_greater by blast

lemma next_rowid_pos: "0 < next_rowid ids"
proof -
  have "0 \<le> foldr max ids (0::int)" by (induction ids) auto
  then show ?thesis by (simp add: next_rowid_def)
qed

section \<open>Facts about statements and transactions\<close>

lemma sql_ok: "wio w = [] \<Longrightarrow> stmt (wdb w) = Inr (x, d) \<Longrightarrow> sql stmt w = (Val x, w\<lparr>wdb := d\<rparr>)"
  by (simp add: sql_def)

lemma sql_ValE:
  assumes "sql stmt w = (Val x, w')"
  obtains d where "stmt (wdb w) = Inr (x, d)" and "w' = w\<lparr>wio := tl (wio w), wdb := d\<rparr>"
  using assms by (auto simp: sql_def Let_def split: if_splits sum.splits)

lemma sql_noerr: "sql stmt w = (r, w') \<Longrightarrow> r \<noteq> Panic"
  by (auto simp: sql_def Let_def split: if_splits sum.splits)

lemma query_ValE:
  assumes "query f w = (Val x, w')"
  obtains "x = f (wdb w)" and "w' = w\<lparr>wio := tl (wio w)\<rparr>"
  using assms by (auto simp: query_def elim!: sql_ValE)

lemma query_ok [simp]: "wio w = [] \<Longrightarrow> query f w = (Val (f (wdb w)), w)"
  by (simp add: query_def sql_def)

lemma sql_wdb: "wdb (snd (sql stmt w)) = wdb w \<or> (\<exists>x d. stmt (wdb w) = Inr (x, d) \<and> wdb (snd (sql stmt w)) = d)"
  by (auto simp: sql_def Let_def split: sum.splits)

lemma sql_preserves:
  "(\<And>d x d'. P d \<Longrightarrow> stmt d = Inr (x, d') \<Longrightarrow> P d') \<Longrightarrow> preserves (\<lambda>w. P (wdb w)) (sql stmt)"
  by (rule preservesI) (metis sql_wdb)

lemma keeps_sql:
  "(\<And>w i. f (w\<lparr>wio := i\<rparr>) = f w) \<Longrightarrow> (\<And>w d. f (w\<lparr>wdb := d\<rparr>) = f w) \<Longrightarrow> keeps f (sql stmt)"
  by (auto simp: keeps_def sql_def Let_def split: sum.splits)

lemma keeps_query: "(\<And>w i. f (w\<lparr>wio := i\<rparr>) = f w) \<Longrightarrow> keeps f (query g)"
  by (simp add: keeps_def query_def sql_def Let_def)

lemma keeps_now_utc: "(\<And>w t. f (w\<lparr>wtick := t\<rparr>) = f w) \<Longrightarrow> keeps f now_utc"
  by (simp add: keeps_def now_utc_def)

lemma now_utc_Val_iff: "now_utc w = (Val t, w') \<longleftrightarrow> t = wclock w (wtick w) \<and> w' = w\<lparr>wtick := Suc (wtick w)\<rparr>"
  by (auto simp: now_utc_def)

lemmas db_frame = keeps_fill_bytes keeps_encrypt keeps_sql keeps_query keeps_now_utc

text \<open>A connection on which no statement fails any more stays so.\<close>

lemma sql_quiet: "wio w = [] \<Longrightarrow> wio (snd (sql stmt w)) = []"
  by (simp add: sql_def Let_def split: sum.splits)

lemma quiet_sql: "preserves (\<lambda>w. wio w = []) (sql stmt)"
  by (simp add: preserves_def sql_quiet)

text \<open>All or nothing: unless the transaction returns a value, the tables are as before.\<close>

lemma with_tx_rollback:
  assumes "with_tx lift body w = (r, w')" and "\<And>x. r \<noteq> Val x"
  shows "wdb w' = wdb w"
proof -
  obtain r1 w1 where q: "mapErrP lift (query (\<lambda>_. ())) w = (r1, w1)" by (cases "mapErrP lift (query (\<lambda>_. ())) w")
  then have "wdb w1 = wdb w"
    by (auto simp: mapErrP_def query_def sql_def Let_def split: prod.splits outcome.splits if_splits)
  with assms q show ?thesis
    by (auto simp: with_tx_def split: prod.splits outcome.splits)
qed

lemma with_tx_ValE:
  assumes "with_tx lift body w = (Val x, w')"
  obtains w2 where "body (w\<lparr>wio := tl (wio w)\<rparr>) = (Val x, w2)" and "w' = w2\<lparr>wio := tl (wio w2)\<rparr>"
proof -
  from assms obtain u w1 w2 where begin_tx: "mapErrP lift (query (\<lambda>_. ())) w = (Val u, w1)"
    and body: "body w1 = (Val x, w2)" and commit: "mapErrP lift (query (\<lambda>_. ())) w2 = (Val (), w')"
    by (auto simp: with_tx_def split: prod.splits outcome.splits)
  from begin_tx have "w1 = w\<lparr>wio := tl (wio w)\<rparr>" by (auto elim: query_ValE)
  moreover from commit have "w' = w2\<lparr>wio := tl (wio w2)\<rparr>" by (auto elim: query_ValE)
  ultimately show thesis using that body by blast
qed

lemma with_tx_quiet:
  assumes "wio w = []" and "body w = (Val x, w2)" and "wio w2 = []"
  shows "with_tx lift body w = (Val x, w2)"
  using assms by (simp add: with_tx_def mapErrP_def)

section \<open>Contracts of keyed tables\<close>

text \<open>
  What a client needs of a table addressed by a key: a write is seen by the next read of
  that key and by no other read. \<open>inv\<close> is the representation invariant.
\<close>

locale kv_table =
  fixes look :: "'t \<Rightarrow> 'k \<Rightarrow> 'v option" and put :: "'k \<Rightarrow> 'v \<Rightarrow> 't \<Rightarrow> 't" and inv :: "'t \<Rightarrow> bool"
  assumes look_put: "inv t \<Longrightarrow> look (put k v t) = (look t)(k \<mapsto> v)"
    and inv_put: "inv t \<Longrightarrow> inv (put k v t)"
begin

lemma look_put_same: "inv t \<Longrightarrow> look (put k v t) k = Some v"
  by (simp add: look_put)

lemma look_put_other: "inv t \<Longrightarrow> k' \<noteq> k \<Longrightarrow> look (put k v t) k' = look t k'"
  by (simp add: look_put)

text \<open>A batch of writes.\<close>

lemma inv_puts: "inv t \<Longrightarrow> inv (fold (\<lambda>(k, v). put k v) kvs t)"
  by (induction kvs arbitrary: t) (auto simp: inv_put)

lemma look_puts: "inv t \<Longrightarrow> look (fold (\<lambda>(k, v). put k v) kvs t) = look t ++ map_of (rev kvs)"
proof (induction kvs arbitrary: t)
  case (Cons kv kvs)
  obtain k v where kv: "kv = (k, v)" by (cases kv)
  from Cons.prems have "look (fold (\<lambda>(k, v). put k v) kvs (put k v t)) = look (put k v t) ++ map_of (rev kvs)"
    by (intro Cons.IH inv_put)
  with Cons.prems kv show ?case
    by (auto simp: look_put map_add_def fun_eq_iff map_of_append split: option.splits)
qed simp

lemma look_puts_distinct:
  "inv t \<Longrightarrow> distinct (map fst kvs) \<Longrightarrow> (k, v) \<in> set kvs \<Longrightarrow>
   look (fold (\<lambda>(k, v). put k v) kvs t) k = Some v"
proof -
  assume t: "inv t" and d: "distinct (map fst kvs)" and kv: "(k, v) \<in> set kvs"
  from d have "distinct (map fst (rev kvs))" by (simp add: rev_map [symmetric])
  with kv have "map_of (rev kvs) k = Some v" by simp
  with t show ?thesis by (simp add: look_puts)
qed

lemma look_puts_other:
  "inv t \<Longrightarrow> k \<notin> fst ` set kvs \<Longrightarrow> look (fold (\<lambda>(k, v). put k v) kvs t) k = look t k"
  by (simp add: look_puts map_add_def map_of_eq_None_iff split: option.splits)
    (metis (no_types, lifting) list.set_map map_of_eq_None_iff option.distinct(1) set_rev)

end

locale kv_store = kv_table +
  fixes del :: "'k \<Rightarrow> 't \<Rightarrow> 't"
  assumes look_del: "inv t \<Longrightarrow> look (del k t) = (look t)(k := None)"
    and inv_del: "inv t \<Longrightarrow> inv (del k t)"
begin

lemma look_put_del: "inv t \<Longrightarrow> look (put k v (del k t)) = look (put k v t)"
  by (simp add: look_put look_del inv_del)

lemma look_del_put: "inv t \<Longrightarrow> look (del k (put k v t)) = look (del k t)"
  by (simp add: look_put look_del inv_put)

end

text \<open>The ordered map of the standard library and the \<open>meta\<close> table meet the contract.\<close>

interpretation btree: kv_table "\<lambda>m. map_of m" bt_insert bt_inv
  by unfold_locales (simp_all add: map_of_bt_insert bt_inv_insert)

interpretation meta: kv_table "\<lambda>m. map_of m" AList.update "\<lambda>_. True"
  by unfold_locales (simp_all add: update_conv')

section \<open>Schema migration\<close>

definition token_columns :: "string list" where
  "token_columns = [''id'', ''name'', ''token_hash'', ''project_scope'', ''created_at'', ''revoked'', ''expires_at'']"

text \<open>\<open>CREATE TABLE IF NOT EXISTS\<close>: an existing table keeps its columns.\<close>

definition create_table :: "string \<Rightarrow> database \<Rightarrow> database" where
  "create_table t d =
     (if t \<in> set (db_tables d) then d
      else d\<lparr>db_tables := db_tables d @ [t],
             db_token_columns := (if t = ''tokens'' then token_columns else db_token_columns d)\<rparr>)"

definition column_exists :: "string \<Rightarrow> ('m world_scheme, sql_error, bool) proc" where
  "column_exists column = query (\<lambda>d. column \<in> set (db_token_columns d))"

definition add_token_column :: "string \<Rightarrow> database \<Rightarrow> database" where
  "add_token_column c d = d\<lparr>db_token_columns := db_token_columns d @ [c]\<rparr>"

definition migrate :: "('m world_scheme, sql_error, unit) proc" where
  "migrate =
     bindP (sql (\<lambda>d. Inr ((), create_table ''meta'' d))) (\<lambda>_.
     bindP (sql (\<lambda>d. Inr ((), create_table ''projects'' d))) (\<lambda>_.
     bindP (sql (\<lambda>d. Inr ((), create_table ''secrets'' d))) (\<lambda>_.
     bindP (sql (\<lambda>d. Inr ((), create_table ''tokens'' d))) (\<lambda>_.
     bindP (column_exists ''expires_at'') (\<lambda>present.
     if \<not> present then sql (\<lambda>d. Inr ((), add_token_column ''expires_at'' d))
     else retP ())))))"

text \<open>\<open>db::open\<close> after \<open>Connection::open\<close>: the pragmas, then the migration.\<close>

definition open_db :: "('m world_scheme, sql_error, unit) proc" where
  "open_db = bindP (query (\<lambda>_. ())) (\<lambda>_. migrate)"

definition migrated :: "database \<Rightarrow> bool" where
  "migrated d \<longleftrightarrow> set [''meta'', ''projects'', ''secrets'', ''tokens''] \<subseteq> set (db_tables d) \<and>
     ''expires_at'' \<in> set (db_token_columns d)"

definition db_rows :: "database \<Rightarrow> (string \<times> byte list) list \<times> project_row list \<times> secret_row list \<times> token_row list" where
  "db_rows d = (db_meta d, db_projects d, db_secrets d, db_tokens d)"

lemma create_table_rows [simp]: "db_rows (create_table t d) = db_rows d"
  by (simp add: create_table_def db_rows_def)

lemma add_token_column_rows [simp]: "db_rows (add_token_column c d) = db_rows d"
  by (simp add: add_token_column_def db_rows_def)

lemma migrate_keeps_rows: "preserves (\<lambda>w. db_rows (wdb w) = R) migrate"
  unfolding migrate_def column_exists_def query_def
  by (intro pres sql_preserves) auto

end
