(* ===== verification/Repo.thy ===== *)
theory Repo
  imports Database
begin

text \<open>
  The data-access layer (\<open>crates/secrets-server/src/repo.rs\<close>): one definition per function,
  each SQL statement written as the change it makes to the tables. The invariant \<open>db_wf\<close>
  collects the schema's constraints; every statement keeps it.
\<close>

section \<open>Timestamps\<close>

definition now_rfc3339 :: "lib \<Rightarrow> ('m world_scheme, 'e, string) proc" where
  "now_rfc3339 L = bindP now_utc (\<lambda>t.
     case rfc3339_format L t of None \<Rightarrow> panicP | Some s \<Rightarrow> retP s)"

section \<open>The meta table\<close>

definition get_meta :: "string \<Rightarrow> ('m world_scheme, sql_error, byte list option) proc" where
  "get_meta key = query (\<lambda>d. map_of (db_meta d) key)"

definition set_meta :: "string \<Rightarrow> byte list \<Rightarrow> ('m world_scheme, sql_error, unit) proc" where
  "set_meta key value = sql (\<lambda>d. Inr ((), d\<lparr>db_meta := AList.update key value (db_meta d)\<rparr>))"

section \<open>Projects\<close>

record project =
  p_name :: string
  p_created_at :: string

definition insert_project :: "string \<Rightarrow> string \<Rightarrow> database \<Rightarrow> sql_error + unit \<times> database" where
  "insert_project name ts d =
     (if name \<in> pr_name ` set (db_projects d) then Inl SqlConstraint
      else Inr ((), d\<lparr>db_projects := db_projects d @
        [\<lparr>pr_id = next_rowid (map pr_id (db_projects d)), pr_name = name, pr_created_at = ts\<rparr>]\<rparr>))"

definition create_project_row :: "lib \<Rightarrow> string \<Rightarrow> ('m world_scheme, sql_error, unit) proc" where
  "create_project_row L name = bindP (now_rfc3339 L) (\<lambda>ts. sql (insert_project name ts))"

definition list_projects_rows :: "('m world_scheme, sql_error, project list) proc" where
  "list_projects_rows = query (\<lambda>d. map (\<lambda>r. \<lparr>p_name = pr_name r, p_created_at = pr_created_at r\<rparr>)
     (sort_key pr_name (db_projects d)))"

definition find_project :: "database \<Rightarrow> string \<Rightarrow> int option" where
  "find_project d name = map_option pr_id (find (\<lambda>r. pr_name r = name) (db_projects d))"

definition project_id :: "string \<Rightarrow> ('m world_scheme, sql_error, int option) proc" where
  "project_id name = query (\<lambda>d. find_project d name)"

section \<open>Secrets\<close>

record sealed_row =
  row_key :: string
  row_nonce :: "byte list"
  row_ciphertext :: "byte list"

definition row_at :: "int \<Rightarrow> string \<Rightarrow> secret_row \<Rightarrow> bool" where
  "row_at pid key r \<longleftrightarrow> (sr_project_id r, sr_key r) = (pid, key)"

definition find_secret :: "database \<Rightarrow> int \<Rightarrow> string \<Rightarrow> secret_row option" where
  "find_secret d pid key = find (row_at pid key) (db_secrets d)"

text \<open>\<open>INSERT .. ON CONFLICT(project_id, key) DO UPDATE\<close>.\<close>

definition upsert_rows ::
    "int \<Rightarrow> string \<Rightarrow> byte list \<Rightarrow> byte list \<Rightarrow> string \<Rightarrow> secret_row list \<Rightarrow> secret_row list" where
  "upsert_rows pid key nonce ct ts rows =
     (if find (row_at pid key) rows = None then
        rows @ [\<lparr>sr_id = next_rowid (map sr_id rows), sr_project_id = pid, sr_key = key,
                 sr_nonce = nonce, sr_ciphertext = ct, sr_version = 1, sr_updated_at = ts\<rparr>]
      else map (\<lambda>r. if row_at pid key r
                    then r\<lparr>sr_nonce := nonce, sr_ciphertext := ct, sr_version := sr_version r + 1,
                           sr_updated_at := ts\<rparr>
                    else r) rows)"

definition upsert_stmt ::
    "int \<Rightarrow> string \<Rightarrow> byte list \<Rightarrow> byte list \<Rightarrow> string \<Rightarrow> database \<Rightarrow> sql_error + unit \<times> database" where
  "upsert_stmt pid key nonce ct ts d =
     (if pid \<notin> pr_id ` set (db_projects d) then Inl SqlConstraint
      else Inr ((), d\<lparr>db_secrets := upsert_rows pid key nonce ct ts (db_secrets d)\<rparr>))"

definition upsert_secret ::
    "lib \<Rightarrow> int \<Rightarrow> string \<Rightarrow> byte list \<Rightarrow> byte list \<Rightarrow> ('m world_scheme, sql_error, int) proc" where
  "upsert_secret L pid key nonce ct =
     bindP (now_rfc3339 L) (\<lambda>ts.
     bindP (sql (upsert_stmt pid key nonce ct ts)) (\<lambda>_.
     sql (\<lambda>d. case find_secret d pid key of
            None \<Rightarrow> Inl SqlNoRows
          | Some r \<Rightarrow> Inr (sr_version r, d))))"

definition secret_rows_of :: "database \<Rightarrow> int \<Rightarrow> sealed_row list" where
  "secret_rows_of d pid =
     map (\<lambda>r. \<lparr>row_key = sr_key r, row_nonce = sr_nonce r, row_ciphertext = sr_ciphertext r\<rparr>)
       (sort_key sr_key (filter (\<lambda>r. sr_project_id r = pid) (db_secrets d)))"

definition list_secret_rows :: "int \<Rightarrow> ('m world_scheme, sql_error, sealed_row list) proc" where
  "list_secret_rows pid = query (\<lambda>d. secret_rows_of d pid)"

definition delete_rows :: "int \<Rightarrow> string \<Rightarrow> secret_row list \<Rightarrow> secret_row list" where
  "delete_rows pid key rows = filter (\<lambda>r. \<not> row_at pid key r) rows"

definition delete_secret_row :: "int \<Rightarrow> string \<Rightarrow> ('m world_scheme, sql_error, bool) proc" where
  "delete_secret_row pid key =
     bindP (sql (\<lambda>d. Inr (length (filter (row_at pid key) (db_secrets d)),
                           d\<lparr>db_secrets := delete_rows pid key (db_secrets d)\<rparr>))) (\<lambda>affected.
     retP (0 < affected))"

section \<open>Tokens\<close>

record token_info =
  ti_name :: string
  ti_scope :: "string option"
  ti_created_at :: string
  ti_revoked :: bool
  ti_expires_at :: "string option"

record authed_token =
  at_name :: string
  at_scope :: "string option"

definition new_token_row ::
    "string \<Rightarrow> byte list \<Rightarrow> string option \<Rightarrow> string option \<Rightarrow> string \<Rightarrow> token_row list \<Rightarrow> token_row" where
  "new_token_row name hash scope expires ts rows =
     \<lparr>tk_id = next_rowid (map tk_id rows), tk_name = name, tk_hash = hash, tk_scope = scope,
      tk_created_at = ts, tk_revoked = 0, tk_expires_at = expires\<rparr>"

definition insert_token ::
    "lib \<Rightarrow> string \<Rightarrow> byte list \<Rightarrow> string option \<Rightarrow> string option \<Rightarrow> ('m world_scheme, sql_error, unit) proc" where
  "insert_token L name hash scope expires =
     bindP (now_rfc3339 L) (\<lambda>ts.
     sql (\<lambda>d. Inr ((), d\<lparr>db_tokens := db_tokens d @ [new_token_row name hash scope expires ts (db_tokens d)]\<rparr>)))"

definition list_tokens_rows :: "('m world_scheme, sql_error, token_info list) proc" where
  "list_tokens_rows = query (\<lambda>d. map (\<lambda>r.
     \<lparr>ti_name = tk_name r, ti_scope = tk_scope r, ti_created_at = tk_created_at r,
      ti_revoked = (tk_revoked r \<noteq> 0), ti_expires_at = tk_expires_at r\<rparr>)
     (sort_key tk_created_at (db_tokens d)))"

definition active :: "token_row \<Rightarrow> bool" where
  "active r \<longleftrightarrow> tk_revoked r = 0"

definition revoke_rows :: "string \<Rightarrow> token_row list \<Rightarrow> token_row list" where
  "revoke_rows name rows = map (\<lambda>r. if tk_name r = name \<and> active r then r\<lparr>tk_revoked := 1\<rparr> else r) rows"

definition revoke_token_rows :: "string \<Rightarrow> ('m world_scheme, sql_error, nat) proc" where
  "revoke_token_rows name =
     sql (\<lambda>d. Inr (length (filter (\<lambda>r. tk_name r = name \<and> active r) (db_tokens d)),
                    d\<lparr>db_tokens := revoke_rows name (db_tokens d)\<rparr>))"

text \<open>A token without expiry never expires; a timestamp that does not parse counts as expired.\<close>

definition unexpired :: "lib \<Rightarrow> int \<Rightarrow> string option \<Rightarrow> bool" where
  "unexpired L now expires = (case expires of
     None \<Rightarrow> True
   | Some s \<Rightarrow> (case rfc3339_parse L s of Some t \<Rightarrow> now < t | None \<Rightarrow> False))"

text \<open>The loop of \<open>authenticate\<close>: no early return, the last match wins.\<close>

fun auth_scan :: "lib \<Rightarrow> int \<Rightarrow> byte list \<Rightarrow> token_row list \<Rightarrow> authed_token option \<Rightarrow> authed_token option" where
  "auth_scan L now presented [] found = found"
| "auth_scan L now presented (r # rows) found =
     (if \<not> unexpired L now (tk_expires_at r) then auth_scan L now presented rows found
      else auth_scan L now presented rows
        (if ct_eq L (tk_hash r) presented then Some \<lparr>at_name = tk_name r, at_scope = tk_scope r\<rparr> else found))"

definition authenticate :: "lib \<Rightarrow> byte list \<Rightarrow> ('m world_scheme, sql_error, authed_token option) proc" where
  "authenticate L presented =
     bindP (query (\<lambda>d. filter active (db_tokens d))) (\<lambda>rows.
     bindP now_utc (\<lambda>now.
     retP (auth_scan L now presented rows None)))"

section \<open>The constraints of the schema\<close>

definition projects_wf :: "project_row list \<Rightarrow> bool" where
  "projects_wf ps \<longleftrightarrow> distinct (map pr_id ps) \<and> distinct (map pr_name ps)"

definition secrets_wf :: "secret_row list \<Rightarrow> bool" where
  "secrets_wf rs \<longleftrightarrow> distinct (map sr_id rs) \<and> distinct (map (\<lambda>r. (sr_project_id r, sr_key r)) rs) \<and>
     (\<forall>r \<in> set rs. 1 \<le> sr_version r)"

definition db_wf :: "database \<Rightarrow> bool" where
  "db_wf d \<longleftrightarrow> projects_wf (db_projects d) \<and> secrets_wf (db_secrets d) \<and>
     sr_project_id ` set (db_secrets d) \<subseteq> pr_id ` set (db_projects d) \<and>
     distinct (map tk_id (db_tokens d))"

lemma row_at_upd [simp]:
  "row_at pid key (r\<lparr>sr_nonce := n, sr_ciphertext := c, sr_version := v, sr_updated_at := t\<rparr>) = row_at pid key r"
  "row_at pid key (r\<lparr>sr_nonce := n, sr_ciphertext := c\<rparr>) = row_at pid key r"
  by (simp_all add: row_at_def)

lemma map_same: "(\<And>r. r \<in> set rows \<Longrightarrow> f (g r) = f r) \<Longrightarrow> map f (map g rows) = map f rows"
  by simp

lemma upsert_rows_keys:
  "map (\<lambda>r. (sr_project_id r, sr_key r)) (upsert_rows pid key n c ts rows) =
   (if find (row_at pid key) rows = None then map (\<lambda>r. (sr_project_id r, sr_key r)) rows @ [(pid, key)]
    else map (\<lambda>r. (sr_project_id r, sr_key r)) rows)"
  by (auto simp: upsert_rows_def)

lemma upsert_rows_ids:
  "map sr_id (upsert_rows pid key n c ts rows) =
   (if find (row_at pid key) rows = None then map sr_id rows @ [next_rowid (map sr_id rows)] else map sr_id rows)"
  by (auto simp: upsert_rows_def)

lemma upsert_rows_project_ids:
  "sr_project_id ` set (upsert_rows pid key n c ts rows) \<subseteq> insert pid (sr_project_id ` set rows)"
  by (auto simp: upsert_rows_def)

lemma secrets_wf_upsert: "secrets_wf rows \<Longrightarrow> secrets_wf (upsert_rows pid key n c ts rows)"
proof -
  assume wf: "secrets_wf rows"
  have "find (row_at pid key) rows = None \<Longrightarrow> (pid, key) \<notin> (\<lambda>r. (sr_project_id r, sr_key r)) ` set rows"
    by (auto simp: find_None_all row_at_def)
  moreover have "\<forall>r \<in> set (upsert_rows pid key n c ts rows). 1 \<le> sr_version r"
    using wf by (auto simp: upsert_rows_def secrets_wf_def)
  ultimately show ?thesis
    using wf next_rowid_fresh [of "map sr_id rows"]
    by (auto simp: secrets_wf_def upsert_rows_keys upsert_rows_ids)
qed

lemma secrets_wf_delete: "secrets_wf rows \<Longrightarrow> secrets_wf (delete_rows pid key rows)"
  by (auto simp: secrets_wf_def delete_rows_def distinct_map_filter)

lemma db_wf_insert_project: "db_wf d \<Longrightarrow> insert_project name ts d = Inr (x, d') \<Longrightarrow> db_wf d'"
  using next_rowid_fresh [of "map pr_id (db_projects d)"]
  by (auto simp: insert_project_def db_wf_def projects_wf_def split: if_splits) blast

lemma db_wf_upsert: "db_wf d \<Longrightarrow> upsert_stmt pid key n c ts d = Inr (x, d') \<Longrightarrow> db_wf d'"
  using upsert_rows_project_ids [of pid key n c ts "db_secrets d"]
  by (auto simp: upsert_stmt_def db_wf_def secrets_wf_upsert split: if_splits) blast

lemma db_wf_delete: "db_wf d \<Longrightarrow> db_wf (d\<lparr>db_secrets := delete_rows pid key (db_secrets d)\<rparr>)"
  by (auto simp: db_wf_def secrets_wf_delete) (auto simp: delete_rows_def)

lemma db_wf_insert_token:
  "db_wf d \<Longrightarrow> db_wf (d\<lparr>db_tokens := db_tokens d @ [new_token_row name h s e ts (db_tokens d)]\<rparr>)"
  using next_rowid_fresh [of "map tk_id (db_tokens d)"]
  by (auto simp: db_wf_def new_token_row_def)

lemma revoke_rows_ids: "map tk_id (revoke_rows name rows) = map tk_id rows"
  by (simp add: revoke_rows_def)

lemma db_wf_revoke: "db_wf d \<Longrightarrow> db_wf (d\<lparr>db_tokens := revoke_rows name (db_tokens d)\<rparr>)"
  by (simp add: db_wf_def revoke_rows_ids)

section \<open>Reading the tables back\<close>

lemma find_secret_row_at: "find_secret d pid key = Some r \<Longrightarrow> row_at pid key r \<and> r \<in> set (db_secrets d)"
  by (simp add: find_secret_def find_Some_in)

lemma find_row_of_mem:
  "secrets_wf rows \<Longrightarrow> r \<in> set rows \<Longrightarrow> find (row_at (sr_project_id r) (sr_key r)) rows = Some r"
proof -
  assume wf: "secrets_wf rows" and r: "r \<in> set rows"
  have "row_at (sr_project_id r) (sr_key r) = (\<lambda>y. (sr_project_id y, sr_key y) = (sr_project_id r, sr_key r))"
    by (simp add: row_at_def fun_eq_iff)
  moreover have "find (\<lambda>y. (sr_project_id y, sr_key y) = (sr_project_id r, sr_key r)) rows = Some r"
    using wf r by (intro find_unique) (auto simp: secrets_wf_def)
  ultimately show ?thesis by simp
qed

text \<open>
  The secrets table seen as a map from (project id, key) to the stored ciphertext: the
  statements of \<open>upsert_secret\<close> and \<open>delete_secret\<close> are map update and deletion.
\<close>

definition cipher_at :: "secret_row list \<Rightarrow> int \<times> string \<Rightarrow> (byte list \<times> byte list) option" where
  "cipher_at rows = (\<lambda>(pid, key). map_option (\<lambda>r. (sr_nonce r, sr_ciphertext r)) (find (row_at pid key) rows))"

definition put_cipher :: "int \<times> string \<Rightarrow> byte list \<times> byte list \<Rightarrow> secret_row list \<Rightarrow> secret_row list" where
  "put_cipher = (\<lambda>(pid, key) (n, c) rows. upsert_rows pid key n c [] rows)"

lemma find_upsert_same:
  "find (row_at pid key) (upsert_rows pid key n c ts rows) =
   Some (case find (row_at pid key) rows of
     None \<Rightarrow> \<lparr>sr_id = next_rowid (map sr_id rows), sr_project_id = pid, sr_key = key, sr_nonce = n,
             sr_ciphertext = c, sr_version = 1, sr_updated_at = ts\<rparr>
   | Some r \<Rightarrow> r\<lparr>sr_nonce := n, sr_ciphertext := c, sr_version := sr_version r + 1, sr_updated_at := ts\<rparr>)"
proof (cases "find (row_at pid key) rows")
  case None
  then show ?thesis by (simp add: upsert_rows_def find_append row_at_def)
next
  case (Some r)
  let ?g = "\<lambda>r. if row_at pid key r then r\<lparr>sr_nonce := n, sr_ciphertext := c, sr_version := sr_version r + 1, sr_updated_at := ts\<rparr> else r"
  have "find (row_at pid key) (map ?g rows) = map_option ?g (find (row_at pid key) rows)"
    by (rule find_map_same) simp
  moreover have "row_at pid key r" using Some by (simp add: find_Some_in)
  ultimately show ?thesis using Some by (simp add: upsert_rows_def)
qed

lemma find_upsert_other:
  assumes "(pid', key') \<noteq> (pid, key)"
  shows "find (row_at pid' key') (upsert_rows pid key n c ts rows) = find (row_at pid' key') rows"
proof (cases "find (row_at pid key) rows")
  case None
  then show ?thesis using assms by (auto simp: upsert_rows_def find_append row_at_def split: option.splits)
next
  case (Some r)
  let ?g = "\<lambda>r. if row_at pid key r then r\<lparr>sr_nonce := n, sr_ciphertext := c, sr_version := sr_version r + 1, sr_updated_at := ts\<rparr> else r"
  have "find (row_at pid' key') (map ?g rows) = map_option ?g (find (row_at pid' key') rows)"
    by (rule find_map_same) simp
  moreover have "find (row_at pid' key') rows = Some s \<Longrightarrow> ?g s = s" for s
    using assms find_Some_in [of "row_at pid' key'" rows s] by (auto simp: row_at_def)
  ultimately show ?thesis using Some
    by (cases "find (row_at pid' key') rows") (simp_all add: upsert_rows_def)
qed

lemma find_delete_same: "find (row_at pid key) (delete_rows pid key rows) = None"
  by (simp add: find_None_all delete_rows_def)

lemma find_delete_other:
  "(pid', key') \<noteq> (pid, key) \<Longrightarrow> find (row_at pid' key') (delete_rows pid key rows) = find (row_at pid' key') rows"
  unfolding delete_rows_def by (rule find_filter_implied) (auto simp: row_at_def)

definition del_cipher :: "int \<times> string \<Rightarrow> secret_row list \<Rightarrow> secret_row list" where
  "del_cipher = (\<lambda>(pid, key) rows. delete_rows pid key rows)"

interpretation ciphers: kv_store cipher_at put_cipher secrets_wf del_cipher
proof unfold_locales
  fix t :: "secret_row list" and k :: "int \<times> string" and v :: "byte list \<times> byte list"
  obtain pid key where k: "k = (pid, key)" by (cases k)
  obtain n c where v: "v = (n, c)" by (cases v)
  have same: "cipher_at (upsert_rows pid key n c [] t) (pid, key) = Some (n, c)"
    by (simp add: cipher_at_def find_upsert_same split: option.splits)
  have other: "cipher_at (upsert_rows pid key n c [] t) x = cipher_at t x" if "x \<noteq> (pid, key)" for x
    using that by (cases x) (simp add: cipher_at_def find_upsert_other)
  show "cipher_at (put_cipher k v t) = (cipher_at t)(k \<mapsto> v)"
    using same other by (auto simp: put_cipher_def k v fun_eq_iff)
  show "cipher_at (del_cipher k t) = (cipher_at t)(k := None)"
    by (auto simp: k del_cipher_def cipher_at_def fun_eq_iff find_delete_same find_delete_other)
  assume "secrets_wf t"
  then show "secrets_wf (put_cipher k v t)" and "secrets_wf (del_cipher k t)"
    by (simp_all add: put_cipher_def del_cipher_def k v secrets_wf_upsert secrets_wf_delete)
qed

end
