(* ===== verification/CryptoState.thy ===== *)
theory CryptoState
  imports Repo
begin

text \<open>
  Master-key initialisation, verification and rekeying
  (\<open>crates/secrets-server/src/crypto_state.rs\<close>). \<open>anyhow\<close> errors are a datatype with one
  constructor per failure the code distinguishes; their wording is not modelled. The lemmas
  give what a successful verification guarantees, that a fresh database verifies under its
  own passphrase, and that rekeying is a transaction which moves every secret to the new key.
\<close>

section \<open>Constants and errors\<close>

definition SENTINEL :: "byte list" where
  "SENTINEL = str_bytes ''secrets-manager-verifier-v1''"

definition K_SALT :: string where "K_SALT = ''kdf_salt''"
definition K_M :: string where "K_M = ''kdf_m_cost_kib''"
definition K_T :: string where "K_T = ''kdf_t_cost''"
definition K_P :: string where "K_P = ''kdf_p_cost''"
definition K_VNONCE :: string where "K_VNONCE = ''verifier_nonce''"
definition K_VCT :: string where "K_VCT = ''verifier_ct''"

lemmas meta_keys = K_SALT_def K_M_def K_T_def K_P_def K_VNONCE_def K_VCT_def

datatype anyhow_error =
    EDatabase sql_error
  | ECrypto crypto_error
  | EKdfRange u32 u32 u32
  | ECorruptedKdfParameter
  | ESamePassphrase
  | EUninitialized
  | ERekeyDecrypt
  | EVerification
  | EMissingMeta string
  | EMessage string

section \<open>Operations\<close>

definition KDF_M_COST_KIB_MIN :: u32 where
  "KDF_M_COST_KIB_MIN = 8"

definition KDF_M_COST_KIB_MAX :: u32 where
  "KDF_M_COST_KIB_MAX = 1024 * 1024"

definition KDF_T_COST_MIN :: u32 where
  "KDF_T_COST_MIN = 1"

definition KDF_T_COST_MAX :: u32 where
  "KDF_T_COST_MAX = 32"

definition KDF_P_COST_MIN :: u32 where
  "KDF_P_COST_MIN = 1"

definition KDF_P_COST_MAX :: u32 where
  "KDF_P_COST_MAX = 8"

definition validate_kdf_params :: "kdf_params \<Rightarrow> anyhow_error + unit" where
  "validate_kdf_params ps =
     (if (KDF_M_COST_KIB_MIN \<le> m_cost_kib ps \<and> m_cost_kib ps \<le> KDF_M_COST_KIB_MAX) \<and>
         (KDF_T_COST_MIN \<le> t_cost ps \<and> t_cost ps \<le> KDF_T_COST_MAX) \<and>
         (KDF_P_COST_MIN \<le> p_cost ps \<and> p_cost ps \<le> KDF_P_COST_MAX)
      then Inr () else Inl (EKdfRange (m_cost_kib ps) (t_cost ps) (p_cost ps)))"

lemmas kdf_range = validate_kdf_params_def KDF_M_COST_KIB_MIN_def KDF_M_COST_KIB_MAX_def KDF_T_COST_MIN_def
  KDF_T_COST_MAX_def KDF_P_COST_MIN_def KDF_P_COST_MAX_def

definition verifier_aad :: "byte list" where
  "verifier_aad = aad_bytes (CHR 0x00 # ''meta'') (CHR 0x00 # ''verifier'')"

definition u32_to_le :: "u32 \<Rightarrow> byte list" where
  "u32_to_le v = u32_le v"

definition le_to_u32 :: "byte list \<Rightarrow> anyhow_error + u32" where
  "le_to_u32 bs = (if length bs = 4 then Inr (u32_from_le bs) else Inl ECorruptedKdfParameter)"

definition get_required :: "string \<Rightarrow> ('m world_scheme, anyhow_error, byte list) proc" where
  "get_required key = bindP (mapErrP EDatabase (get_meta key)) (\<lambda>v. okOrP (EMissingMeta key) v)"

definition verify :: "lib \<Rightarrow> string \<Rightarrow> byte list \<Rightarrow> ('m world_scheme, anyhow_error, master_key) proc" where
  "verify L passphrase salt =
     bindP (bindP (get_required K_M) (\<lambda>b. liftP (le_to_u32 b))) (\<lambda>m.
     bindP (bindP (get_required K_T) (\<lambda>b. liftP (le_to_u32 b))) (\<lambda>t.
     bindP (bindP (get_required K_P) (\<lambda>b. liftP (le_to_u32 b))) (\<lambda>p.
     let params = \<lparr>m_cost_kib = m, t_cost = t, p_cost = p\<rparr> in
     bindP (liftP (validate_kdf_params params)) (\<lambda>_.
     bindP (mapErrP ECrypto (liftP (derive_key L passphrase salt params))) (\<lambda>key.
     bindP (get_required K_VNONCE) (\<lambda>nonce.
     bindP (get_required K_VCT) (\<lambda>ct.
     bindP (mapErrP (\<lambda>_. EVerification) (liftP (decrypt L key nonce ct verifier_aad))) (\<lambda>_.
     retP key))))))))"

text \<open>The six writes that make up the stored crypto metadata.\<close>

definition store_metadata ::
    "byte list \<Rightarrow> kdf_params \<Rightarrow> byte list \<Rightarrow> byte list \<Rightarrow> ('m world_scheme, sql_error, unit) proc" where
  "store_metadata salt params nonce ct =
     bindP (set_meta K_SALT salt) (\<lambda>_.
     bindP (set_meta K_M (u32_to_le (m_cost_kib params))) (\<lambda>_.
     bindP (set_meta K_T (u32_to_le (t_cost params))) (\<lambda>_.
     bindP (set_meta K_P (u32_to_le (p_cost params))) (\<lambda>_.
     bindP (set_meta K_VNONCE nonce) (\<lambda>_.
     set_meta K_VCT ct)))))"

definition initialize_with_params ::
    "lib \<Rightarrow> string \<Rightarrow> kdf_params \<Rightarrow> ('m world_scheme, anyhow_error, master_key) proc" where
  "initialize_with_params L passphrase params =
     bindP generate_salt (\<lambda>salt.
     bindP (mapErrP ECrypto (liftP (derive_key L passphrase salt params))) (\<lambda>key.
     bindP (mapErrP ECrypto (encrypt L key SENTINEL verifier_aad)) (\<lambda>(nonce, ct).
     bindP (with_tx EDatabase (mapErrP EDatabase (store_metadata salt params nonce ct))) (\<lambda>_.
     retP key))))"

definition initialize :: "lib \<Rightarrow> string \<Rightarrow> ('m world_scheme, anyhow_error, master_key) proc" where
  "initialize L passphrase = initialize_with_params L passphrase kdf_strong"

definition init_or_verify :: "lib \<Rightarrow> string \<Rightarrow> ('m world_scheme, anyhow_error, master_key) proc" where
  "init_or_verify L passphrase =
     bindP (mapErrP EDatabase (get_meta K_SALT)) (\<lambda>s. case s of
       Some salt \<Rightarrow> verify L passphrase salt
     | None \<Rightarrow> initialize L passphrase)"

section \<open>Rekeying\<close>

record rekey_item =
  ri_id :: int
  ri_project :: string
  ri_key :: string
  ri_nonce :: "byte list"
  ri_ciphertext :: "byte list"

text \<open>\<open>secrets JOIN projects ON projects.id = secrets.project_id ORDER BY secrets.id\<close>.\<close>

definition project_of_row :: "database \<Rightarrow> secret_row \<Rightarrow> string option" where
  "project_of_row d r = map_option pr_name (find (\<lambda>p. pr_id p = sr_project_id r) (db_projects d))"

definition rekey_items :: "database \<Rightarrow> rekey_item list" where
  "rekey_items d = concat (map (\<lambda>r. case project_of_row d r of
      None \<Rightarrow> []
    | Some p \<Rightarrow> [\<lparr>ri_id = sr_id r, ri_project = p, ri_key = sr_key r, ri_nonce = sr_nonce r,
                  ri_ciphertext = sr_ciphertext r\<rparr>]) (sort_key sr_id (db_secrets d)))"

text \<open>\<open>UPDATE secrets SET nonce = ?1, ciphertext = ?2 WHERE id = ?3\<close>.\<close>

definition update_cipher :: "int \<Rightarrow> byte list \<Rightarrow> byte list \<Rightarrow> database \<Rightarrow> database" where
  "update_cipher i n c d = d\<lparr>db_secrets :=
     map (\<lambda>r. if sr_id r = i then r\<lparr>sr_nonce := n, sr_ciphertext := c\<rparr> else r) (db_secrets d)\<rparr>"

fun rekey_rows ::
    "lib \<Rightarrow> master_key \<Rightarrow> master_key \<Rightarrow> rekey_item list \<Rightarrow> ('m world_scheme, anyhow_error, unit) proc" where
  "rekey_rows L old_key new_key [] = retP ()"
| "rekey_rows L old_key new_key (row # rows) =
     (let aad = aad_bytes (ri_project row) (ri_key row) in
      bindP (mapErrP (\<lambda>_. ERekeyDecrypt) (liftP (decrypt L old_key (ri_nonce row) (ri_ciphertext row) aad))) (\<lambda>plaintext.
      bindP (mapErrP ECrypto (encrypt L new_key plaintext aad)) (\<lambda>(new_nonce, new_ct).
      bindP (mapErrP EDatabase (sql (\<lambda>d. Inr ((), update_cipher (ri_id row) new_nonce new_ct d)))) (\<lambda>_.
      rekey_rows L old_key new_key rows))))"

definition rekey_tx ::
    "lib \<Rightarrow> master_key \<Rightarrow> master_key \<Rightarrow> byte list \<Rightarrow> kdf_params \<Rightarrow> ('m world_scheme, anyhow_error, nat) proc" where
  "rekey_tx L old_key new_key new_salt new_params =
     bindP (mapErrP EDatabase (query rekey_items)) (\<lambda>rows.
     bindP (rekey_rows L old_key new_key rows) (\<lambda>_.
     bindP (mapErrP ECrypto (encrypt L new_key SENTINEL verifier_aad)) (\<lambda>(nonce, ct).
     bindP (mapErrP EDatabase (store_metadata new_salt new_params nonce ct)) (\<lambda>_.
     retP (length rows)))))"

definition rekey_with_params ::
    "lib \<Rightarrow> string \<Rightarrow> string \<Rightarrow> kdf_params \<Rightarrow> ('m world_scheme, anyhow_error, nat) proc" where
  "rekey_with_params L current new new_params =
     (if current = new then throwP ESamePassphrase else
      bindP (bindP (mapErrP EDatabase (get_meta K_SALT)) (\<lambda>s. case s of
               Some salt \<Rightarrow> verify L current salt
             | None \<Rightarrow> throwP EUninitialized)) (\<lambda>old_key.
      bindP generate_salt (\<lambda>new_salt.
      bindP (mapErrP ECrypto (liftP (derive_key L new new_salt new_params))) (\<lambda>new_key.
      with_tx EDatabase (rekey_tx L old_key new_key new_salt new_params)))))"

definition rekey :: "lib \<Rightarrow> string \<Rightarrow> string \<Rightarrow> ('m world_scheme, anyhow_error, nat) proc" where
  "rekey L current new = rekey_with_params L current new kdf_strong"

section \<open>The stored parameters\<close>

interpretation kdf_param: codec u32_to_le le_to_u32 4
  by unfold_locales (auto simp: u32_to_le_def le_to_u32_def u32_le_u32_from_le split: if_splits)

lemma kdf_strong_valid [simp]: "validate_kdf_params kdf_strong = Inr ()"
  by (simp add: kdf_range kdf_strong_def word_le_nat_alt)

text \<open>What the metadata must say for a key to verify.\<close>

definition meta_params :: "database \<Rightarrow> kdf_params option" where
  "meta_params d =
     (case (map_of (db_meta d) K_M, map_of (db_meta d) K_T, map_of (db_meta d) K_P) of
        (Some m, Some t, Some p) \<Rightarrow>
          (case (le_to_u32 m, le_to_u32 t, le_to_u32 p) of
             (Inr m, Inr t, Inr p) \<Rightarrow> Some \<lparr>m_cost_kib = m, t_cost = t, p_cost = p\<rparr>
           | _ \<Rightarrow> None)
      | _ \<Rightarrow> None)"

definition opens_verifier :: "lib \<Rightarrow> master_key \<Rightarrow> database \<Rightarrow> bool" where
  "opens_verifier L key d \<longleftrightarrow> (\<exists>n c pt. map_of (db_meta d) K_VNONCE = Some n \<and>
     map_of (db_meta d) K_VCT = Some c \<and> decrypt L key n c verifier_aad = Inr pt)"

text \<open>The key a passphrase denotes in a database: derived from the stored salt and costs,
  the costs within bounds, and able to open the stored verifier.\<close>

definition verified_key :: "lib \<Rightarrow> string \<Rightarrow> database \<Rightarrow> master_key \<Rightarrow> bool" where
  "verified_key L passphrase d key \<longleftrightarrow> (\<exists>salt ps. map_of (db_meta d) K_SALT = Some salt \<and>
     meta_params d = Some ps \<and> validate_kdf_params ps = Inr () \<and>
     derive_key L passphrase salt ps = Inr key \<and> opens_verifier L key d)"

lemma get_meta_Val_iff:
  "get_meta k w = (Val v, w') \<longleftrightarrow>
     v = map_of (db_meta (wdb w)) k \<and> w' = w\<lparr>wio := tl (wio w)\<rparr> \<and> \<not> (wio w \<noteq> [] \<and> hd (wio w))"
  by (auto simp: get_meta_def query_def sql_def Let_def)

lemma get_required_ValE:
  assumes "get_required k w = (Val v, w')"
  obtains "map_of (db_meta (wdb w)) k = Some v" and "wdb w' = wdb w"
  using assms by (auto simp: get_required_def bindP_Val_iff get_meta_Val_iff)

lemma get_required_ok:
  "wio w = [] \<Longrightarrow> map_of (db_meta (wdb w)) k = Some v \<Longrightarrow> get_required k w = (Val v, w)"
  by (simp add: get_required_def bindP_def mapErrP_def get_meta_def)

lemma get_required_missing:
  "wio w = [] \<Longrightarrow> map_of (db_meta (wdb w)) k = None \<Longrightarrow> get_required k w = (Fail (EMissingMeta k), w)"
  by (simp add: get_required_def bindP_def mapErrP_def get_meta_def okOrP_def)

lemma keeps_get_meta: "(\<And>w i. f (w\<lparr>wio := i\<rparr>) = f w) \<Longrightarrow> keeps f (get_meta k)"
  by (simp add: get_meta_def keeps_query)

lemma keeps_verify: "(\<And>w i. f (w\<lparr>wio := i\<rparr>) = f w) \<Longrightarrow> keeps f (verify L p s)"
  unfolding verify_def get_required_def Let_def by (intro frame keeps_get_meta) auto

lemma verify_ValD:
  assumes "verify L p salt w = (Val key, w')" and "map_of (db_meta (wdb w)) K_SALT = Some salt"
  shows "verified_key L p (wdb w) key \<and> wdb w' = wdb w"
  using assms
  by (auto simp: verify_def bindP_Val_iff Let_def verified_key_def meta_params_def opens_verifier_def
      elim!: get_required_ValE)

lemma verify_ok:
  assumes "wio w = []" and "map_of (db_meta (wdb w)) K_SALT = Some salt" and "verified_key L p (wdb w) key"
  shows "verify L p salt w = (Val key, w)"
proof -
  from assms(2,3) obtain ps where ps: "meta_params (wdb w) = Some ps" "validate_kdf_params ps = Inr ()"
    "derive_key L p salt ps = Inr key" and op: "opens_verifier L key (wdb w)"
    by (auto simp: verified_key_def)
  from ps(1) obtain m t q where mtq: "map_of (db_meta (wdb w)) K_M = Some m" "map_of (db_meta (wdb w)) K_T = Some t"
      "map_of (db_meta (wdb w)) K_P = Some q" "le_to_u32 m = Inr (m_cost_kib ps)"
      "le_to_u32 t = Inr (t_cost ps)" "le_to_u32 q = Inr (p_cost ps)"
    by (auto simp: meta_params_def split: option.splits sum.splits)
  from op obtain n c pt where nc: "map_of (db_meta (wdb w)) K_VNONCE = Some n"
      "map_of (db_meta (wdb w)) K_VCT = Some c" "decrypt L key n c verifier_aad = Inr pt"
    by (auto simp: opens_verifier_def)
  obtain a b e where "ps = \<lparr>m_cost_kib = a, t_cost = b, p_cost = e\<rparr>" by (cases ps)
  with ps mtq nc assms(1) show ?thesis
    by (simp add: verify_def bindP_def get_required_ok mapErrP_def Let_def)
qed

section \<open>Writing the metadata\<close>

definition metadata_entries :: "byte list \<Rightarrow> kdf_params \<Rightarrow> byte list \<Rightarrow> byte list \<Rightarrow> (string \<times> byte list) list" where
  "metadata_entries salt ps n c =
     [(K_SALT, salt), (K_M, u32_to_le (m_cost_kib ps)), (K_T, u32_to_le (t_cost ps)),
      (K_P, u32_to_le (p_cost ps)), (K_VNONCE, n), (K_VCT, c)]"

lemma distinct_metadata_entries: "distinct (map fst (metadata_entries salt ps n c))"
  by (simp add: metadata_entries_def meta_keys)

lemma set_meta_ValE:
  assumes "set_meta k v w = (Val u, w')"
  obtains "w' = w\<lparr>wio := tl (wio w), wdb := (wdb w)\<lparr>db_meta := AList.update k v (db_meta (wdb w))\<rparr>\<rparr>"
  using assms by (auto simp: set_meta_def elim!: sql_ValE)

lemma store_metadata_ValE:
  assumes "store_metadata salt ps n c w = (Val u, w')"
  obtains "wdb w' = (wdb w)\<lparr>db_meta := fold (\<lambda>(k, v). AList.update k v) (metadata_entries salt ps n c) (db_meta (wdb w))\<rparr>"
  using assms by (auto simp: store_metadata_def metadata_entries_def bindP_Val_iff elim!: set_meta_ValE)

lemma store_metadata_ok:
  assumes "wio w = []"
  shows "store_metadata salt ps n c w = (Val (),
    w\<lparr>wdb := (wdb w)\<lparr>db_meta := fold (\<lambda>(k, v). AList.update k v) (metadata_entries salt ps n c) (db_meta (wdb w))\<rparr>\<rparr>)"
  using assms by (simp add: store_metadata_def metadata_entries_def set_meta_def bindP_def sql_def)

lemma look_metadata:
  assumes "d' = d\<lparr>db_meta := fold (\<lambda>(k, v). AList.update k v) (metadata_entries salt ps n c) (db_meta d)\<rparr>"
  shows "map_of (db_meta d') K_SALT = Some salt" and "meta_params d' = Some ps"
    and "map_of (db_meta d') K_VNONCE = Some n" and "map_of (db_meta d') K_VCT = Some c"
proof -
  have look: "(k, v) \<in> set (metadata_entries salt ps n c) \<Longrightarrow> map_of (db_meta d') k = Some v" for k v
    unfolding assms by (simp add: meta.look_puts_distinct distinct_metadata_entries)
  show "map_of (db_meta d') K_SALT = Some salt" "map_of (db_meta d') K_VNONCE = Some n"
    "map_of (db_meta d') K_VCT = Some c"
    by (rule look, simp add: metadata_entries_def)+
  have "map_of (db_meta d') K_M = Some (u32_to_le (m_cost_kib ps))"
    "map_of (db_meta d') K_T = Some (u32_to_le (t_cost ps))"
    "map_of (db_meta d') K_P = Some (u32_to_le (p_cost ps))"
    by (rule look, simp add: metadata_entries_def)+
  then show "meta_params d' = Some ps" by (simp add: meta_params_def kdf_param.dec_enc)
qed

lemma stored_key_verifies:
  assumes "aead_ok L" and "validate_kdf_params ps = Inr ()" and "derive_key L p salt ps = Inr key"
    and "encrypt L key SENTINEL verifier_aad (w0 :: 'm rng_scheme) = (Val (n, c), w1)"
    and "d' = d\<lparr>db_meta := fold (\<lambda>(k, v). AList.update k v) (metadata_entries salt ps n c) (db_meta d)\<rparr>"
  shows "verified_key L p d' key"
  using look_metadata [OF assms(5)] assms(2,3) box.unseal_seal [OF assms(1,4)]
  by (auto simp: verified_key_def opens_verifier_def)

lemma initialize_ValD:
  assumes "aead_ok L" and "validate_kdf_params ps = Inr ()"
    and "initialize_with_params L p ps w = (Val key, w')"
  shows "verified_key L p (wdb w') key"
proof -
  from assms(3) obtain salt w1 n c w2 u w3 where
      key: "derive_key L p salt ps = Inr key" and enc: "encrypt L key SENTINEL verifier_aad w1 = (Val (n, c), w2)"
    and tx: "with_tx EDatabase (mapErrP EDatabase (store_metadata salt ps n c)) w2 = (Val u, w3)" and w': "w' = w3"
    by (auto simp: initialize_with_params_def bindP_Val_iff split: prod.splits)
  from tx obtain w4 where st: "mapErrP EDatabase (store_metadata salt ps n c) (w2\<lparr>wio := tl (wio w2)\<rparr>) = (Val u, w4)"
    and w3: "w3 = w4\<lparr>wio := tl (wio w4)\<rparr>" by (rule with_tx_ValE)
  from st have "wdb w4 = (wdb w2)\<lparr>db_meta := fold (\<lambda>(k, v). AList.update k v) (metadata_entries salt ps n c) (db_meta (wdb w2))\<rparr>"
    by (auto elim: store_metadata_ValE)
  with w' w3 show ?thesis using stored_key_verifies [OF assms(1,2) key enc] by simp
qed

section \<open>The key the server starts with\<close>

lemma init_or_verify_ValD:
  assumes "aead_ok L" and "init_or_verify L p w = (Val key, w')"
  shows "verified_key L p (wdb w') key"
proof -
  from assms(2) obtain s w1 where g: "get_meta K_SALT w = (Val s, w1)"
    and c: "(case s of Some salt \<Rightarrow> verify L p salt | None \<Rightarrow> initialize L p) w1 = (Val key, w')"
    by (auto simp: init_or_verify_def bindP_Val_iff)
  show ?thesis
  proof (cases s)
    case None
    with c show ?thesis using initialize_ValD [OF assms(1) kdf_strong_valid] by (simp add: initialize_def)
  next
    case (Some salt)
    with g have "wdb w1 = wdb w" "map_of (db_meta (wdb w1)) K_SALT = Some salt" by (auto simp: get_meta_Val_iff)
    moreover from c Some have "verify L p salt w1 = (Val key, w')" by simp
    ultimately show ?thesis using verify_ValD by force
  qed
qed

lemma init_or_verify_known:
  assumes "wio w = []" and "verified_key L p (wdb w) key"
  shows "init_or_verify L p w = (Val key, w)"
proof -
  from assms(2) obtain salt where "map_of (db_meta (wdb w)) K_SALT = Some salt" by (auto simp: verified_key_def)
  with verify_ok [OF assms(1) this assms(2)] assms(1) show ?thesis
    by (simp add: init_or_verify_def bindP_def get_meta_def mapErrP_def)
qed

end
