(* ===== verification/Server.thy ===== *)
theory Server
  imports CryptoState
begin

text \<open>
  What the server's modules share: the application errors and their responses
  (\<open>crates/secrets-server/src/error.rs\<close>), the shared state behind \<open>AppState\<close>
  (\<open>app.rs\<close>: the database behind a mutex, the audit log), the audit record
  (\<open>audit.rs\<close>), and requests and responses. What the web framework does to a request (header
  text, percent-decoding, JSON parsing) is the third-party record \<open>web\<close>.
\<close>

section \<open>Errors and responses\<close>

datatype json = JNull | JBool bool | JInt int | JStr string | JArr "json list" | JObj "(string \<times> json) list"

text \<open>A body is the program's JSON or a text of the web framework.\<close>

datatype body = JsonBody json | TextBody string

record response =
  rs_status :: nat
  rs_body :: "body option"

datatype app_error =
    Unauthorized
  | Forbidden
  | NotFound
  | BadRequest string
  | Conflict string
  | PayloadTooLarge
  | Internal string

fun error_status :: "app_error \<Rightarrow> nat \<times> string" where
  "error_status Unauthorized = (401, ''unauthorized'')"
| "error_status Forbidden = (403, ''forbidden'')"
| "error_status NotFound = (404, ''not found'')"
| "error_status (BadRequest m) = (400, m)"
| "error_status (Conflict m) = (409, m)"
| "error_status PayloadTooLarge = (413, ''payload too large'')"
| "error_status (Internal tag) = (500, ''internal error'')"

definition error_response :: "app_error \<Rightarrow> response" where
  "error_response e = (let (status, msg) = error_status e in
     \<lparr>rs_status = status, rs_body = Some (JsonBody (JObj [(''error'', JStr msg)]))\<rparr>)"

text \<open>\<open>impl From<rusqlite::Error> for AppError\<close>.\<close>

definition from_sql :: "sql_error \<Rightarrow> app_error" where
  "from_sql e = Internal ''database''"

section \<open>Requests\<close>

datatype http_method = GET | HEAD | POST | PUT | DELETE | OtherMethod string

record request =
  rq_method :: http_method
  rq_path :: string
  rq_auth :: "byte list option"
  rq_content_type :: "byte list option"
  rq_body :: "byte list"

record create_token_body =
  ct_name :: string
  ct_project :: "string option"
  ct_ttl_days :: "u32 option"
  ct_no_expiry :: bool

text \<open>
  The framework: \<open>HeaderValue::to_str\<close>, percent-decoding of a captured path segment (\<open>None\<close>
  when the result is not UTF-8), the text with which it rejects such a segment, which names the
  parameter of the route template and nothing else, whether a \<open>Content-Type\<close> is JSON, and \<open>serde_json\<close> on the
  three request bodies.
\<close>

record web =
  header_str :: "byte list \<Rightarrow> string option"
  path_decode :: "string \<Rightarrow> string option"
  path_rejection :: "string \<Rightarrow> string"
  json_type :: "byte list option \<Rightarrow> bool"
  parse_create_project :: "byte list \<Rightarrow> string option"
  parse_set_secret :: "byte list \<Rightarrow> string option"
  parse_create_token :: "byte list \<Rightarrow> create_token_body option"

text \<open>The values serde builds are Rust strings.\<close>

definition web_ok :: "web \<Rightarrow> bool" where
  "web_ok W \<longleftrightarrow> (\<forall>b v. parse_set_secret W b = Some v \<longrightarrow> is_str v \<and> length v \<le> length b)"

section \<open>Shared state\<close>

record audit_entry =
  ae_ts :: string
  ae_token :: "string option"
  ae_method :: string
  ae_path :: string
  ae_project :: "string option"
  ae_status :: nat

text \<open>
  \<open>poisoned\<close> is the poison flag of the database mutex; \<open>audit_io\<close> tells which writes to
  the audit file will fail.
\<close>

record server = world +
  poisoned :: bool
  audit_log :: "audit_entry list"
  audit_io :: "bool list"

text \<open>
  \<open>state.db.lock().map_err(..)?\<close> and the code that runs under the guard: a poisoned mutex
  is an internal error, and a panic under the guard poisons it.
\<close>

definition with_db ::
    "string \<Rightarrow> ('m server_scheme, app_error, 'a) proc \<Rightarrow> ('m server_scheme, app_error, 'a) proc" where
  "with_db tag body = (\<lambda>w. if poisoned w then (Fail (Internal tag), w)
     else case body w of
       (Val x, w') \<Rightarrow> (Val x, w')
     | (Fail e, w') \<Rightarrow> (Fail e, w')
     | (Panic, w') \<Rightarrow> (Panic, w'\<lparr>poisoned := True\<rparr>))"

lemma with_db_Val_iff: "with_db tag body w = (Val x, w') \<longleftrightarrow> \<not> poisoned w \<and> body w = (Val x, w')"
  by (auto simp: with_db_def split: prod.splits outcome.splits)

lemma with_db_open: "\<not> poisoned w \<Longrightarrow> body w = (Val x, w') \<Longrightarrow> with_db tag body w = (Val x, w')"
  by (simp add: with_db_def)

lemma with_db_fail: "\<not> poisoned w \<Longrightarrow> body w = (Fail e, w') \<Longrightarrow> with_db tag body w = (Fail e, w')"
  by (simp add: with_db_def)

lemma with_db_poisoned: "poisoned w \<Longrightarrow> with_db tag body w = (Fail (Internal tag), w)"
  by (simp add: with_db_def)

lemma keeps_with_db:
  assumes "\<And>w b. f (w\<lparr>poisoned := b\<rparr>) = f w" and "keeps f body"
  shows "keeps f (with_db tag body)"
proof -
  have "f (snd (with_db tag body w)) = f w" for w
    using assms(1) keepsD [OF assms(2), of w]
    by (auto simp: with_db_def split: prod.splits outcome.splits)
  then show ?thesis by (simp add: keeps_def)
qed

lemma preserves_with_db:
  assumes "\<And>w b. I (w\<lparr>poisoned := b\<rparr>) = I w" and "preserves I body"
  shows "preserves I (with_db tag body)"
proof
  fix w assume "I w"
  with assms(2) have "I (snd (body w))" by (rule preservesD)
  with assms(1) \<open>I w\<close> show "I (snd (with_db tag body w))"
    by (auto simp: with_db_def split: prod.splits outcome.splits)
qed

end
