(* ===== verification/Auth.thy ===== *)
theory Auth
  imports Server
begin

text \<open>
  Bearer-token authentication and scope enforcement (\<open>crates/secrets-server/src/auth.rs\<close>),
  with the characterisation of the token scan of \<open>repo::authenticate\<close>: who is let in, and
  that revocation shuts a name out.
\<close>

section \<open>Operations\<close>

definition strip_prefix :: "string \<Rightarrow> string \<Rightarrow> string option" where
  "strip_prefix p s = (if take (length p) s = p then Some (drop (length p) s) else None)"

definition extract_bearer :: "web \<Rightarrow> byte list option \<Rightarrow> string option" where
  "extract_bearer W header = (case header of
     None \<Rightarrow> None
   | Some v \<Rightarrow> (case header_str W v of
       None \<Rightarrow> None
     | Some value \<Rightarrow> (case strip_prefix ''Bearer '' value of
         None \<Rightarrow> None
       | Some token \<Rightarrow> if token = [] then None else Some token)))"

text \<open>\<open>resolve_token_name\<close> never fails: every error of the chain is \<open>None\<close>.\<close>

definition optional :: "('s, 'e, 'a option) proc \<Rightarrow> ('s, 'f, 'a option) proc" where
  "optional m = (\<lambda>s. case m s of
     (Val x, s') \<Rightarrow> (Val x, s')
   | (Fail e, s') \<Rightarrow> (Val None, s')
   | (Panic, s') \<Rightarrow> (Panic, s'))"

definition resolve_token_name ::
    "lib \<Rightarrow> web \<Rightarrow> byte list option \<Rightarrow> ('m server_scheme, app_error, string option) proc" where
  "resolve_token_name L W header = (case extract_bearer W header of
     None \<Rightarrow> retP None
   | Some token \<Rightarrow> optional (with_db ''db lock''
       (bindP (mapErrP from_sql (authenticate L (hash_token L token))) (\<lambda>r. retP (map_option at_name r)))))"

definition from_request_parts ::
    "lib \<Rightarrow> web \<Rightarrow> byte list option \<Rightarrow> ('m server_scheme, app_error, authed_token) proc" where
  "from_request_parts L W header =
     bindP (okOrP Unauthorized (extract_bearer W header)) (\<lambda>token.
     with_db ''db lock poisoned''
       (bindP (mapErrP from_sql (authenticate L (hash_token L token))) (\<lambda>r. okOrP Unauthorized r)))"

definition ensure_scope :: "authed_token \<Rightarrow> string \<Rightarrow> app_error + unit" where
  "ensure_scope token project = (case at_scope token of
     Some s \<Rightarrow> if s \<noteq> project then Inl Forbidden else Inr ()
   | None \<Rightarrow> Inr ())"

definition ensure_admin :: "authed_token \<Rightarrow> app_error + unit" where
  "ensure_admin token = (if at_scope token \<noteq> None then Inl Forbidden else Inr ())"

lemma ensure_scope_Inr [simp]: "ensure_scope t p = Inr u \<longleftrightarrow> at_scope t = None \<or> at_scope t = Some p"
  by (auto simp: ensure_scope_def split: option.splits)

lemma ensure_admin_Inr [simp]: "ensure_admin t = Inr u \<longleftrightarrow> at_scope t = None"
  by (auto simp: ensure_admin_def)

section \<open>The token scan\<close>

definition identity_of :: "token_row \<Rightarrow> authed_token" where
  "identity_of r = \<lparr>at_name = tk_name r, at_scope = tk_scope r\<rparr>"

text \<open>A row the presented hash matches at the given instant.\<close>

definition admits :: "lib \<Rightarrow> int \<Rightarrow> byte list \<Rightarrow> token_row \<Rightarrow> bool" where
  "admits L now presented r \<longleftrightarrow> active r \<and> unexpired L now (tk_expires_at r) \<and> tk_hash r = presented"

definition last_opt :: "'a list \<Rightarrow> 'a option" where
  "last_opt xs = (if xs = [] then None else Some (last xs))"

lemma last_opt_Cons: "last_opt (x # xs) = (case last_opt xs of None \<Rightarrow> Some x | Some y \<Rightarrow> Some y)"
  by (simp add: last_opt_def)

lemma auth_scan_eq:
  assumes "ct_ok L"
  shows "auth_scan L now h rows found =
    (case last_opt (filter (\<lambda>r. unexpired L now (tk_expires_at r) \<and> tk_hash r = h) rows) of
       None \<Rightarrow> found | Some r \<Rightarrow> Some (identity_of r))"
proof (induction rows arbitrary: found)
  case (Cons r rows)
  then show ?case by (simp add: ct_eq_iff [OF assms] last_opt_Cons identity_of_def split: option.splits)
qed (simp add: last_opt_def)

text \<open>What \<open>authenticate\<close> answers on given rows at a given instant.\<close>

definition who :: "lib \<Rightarrow> int \<Rightarrow> byte list \<Rightarrow> token_row list \<Rightarrow> authed_token option" where
  "who L now h rows = map_option identity_of (last_opt (filter (admits L now h) rows))"

lemma authenticate_Val_iff:
  assumes "ct_ok L"
  shows "authenticate L h w = (Val r, w') \<longleftrightarrow>
    \<not> (wio w \<noteq> [] \<and> hd (wio w)) \<and> r = who L (wclock w (wtick w)) h (db_tokens (wdb w)) \<and>
    w' = w\<lparr>wio := tl (wio w), wtick := Suc (wtick w)\<rparr>"
proof -
  have "filter (\<lambda>r. unexpired L n (tk_expires_at r) \<and> tk_hash r = h) (filter active rows) = filter (admits L n h) rows" for n rows
    unfolding filter_filter by (rule filter_cong) (auto simp: admits_def)
  then show ?thesis
    by (auto simp: authenticate_def bindP_def query_def sql_def Let_def now_utc_def who_def
        auth_scan_eq [OF assms] map_option_case split: option.splits)
qed

lemma keeps_authenticate:
  "(\<And>w i. f (w\<lparr>wio := i\<rparr>) = f w) \<Longrightarrow> (\<And>w t. f (w\<lparr>wtick := t\<rparr>) = f w) \<Longrightarrow> keeps f (authenticate L h)"
  unfolding authenticate_def by (intro frame keeps_query keeps_now_utc) auto

lemma keeps_optional: "keeps f m \<Longrightarrow> keeps f (optional m)"
  unfolding keeps_def by (auto simp: optional_def split: prod.splits outcome.splits) (metis snd_conv)+

lemma keeps_from_request_parts:
  "(\<And>w i. f (w\<lparr>wio := i\<rparr>) = f w) \<Longrightarrow> (\<And>w t. f (w\<lparr>wtick := t\<rparr>) = f w) \<Longrightarrow>
   (\<And>w b. f (w\<lparr>poisoned := b\<rparr>) = f w) \<Longrightarrow> keeps f (from_request_parts L W h)"
  unfolding from_request_parts_def by (intro frame keeps_authenticate keeps_with_db) auto

lemma keeps_resolve_token_name:
  "(\<And>w i. f (w\<lparr>wio := i\<rparr>) = f w) \<Longrightarrow> (\<And>w t. f (w\<lparr>wtick := t\<rparr>) = f w) \<Longrightarrow>
   (\<And>w b. f (w\<lparr>poisoned := b\<rparr>) = f w) \<Longrightarrow> keeps f (resolve_token_name L W h)"
  unfolding resolve_token_name_def by (intro frame keeps_authenticate keeps_with_db keeps_optional) auto

lemma who_SomeD:
  assumes "who L now h rows = Some a"
  shows "\<exists>r \<in> set rows. admits L now h r \<and> a = identity_of r"
proof -
  from assms have ne: "filter (admits L now h) rows \<noteq> []" and a: "a = identity_of (last (filter (admits L now h) rows))"
    by (auto simp: who_def last_opt_def split: if_splits)
  from last_in_set [OF ne] a show ?thesis by auto
qed

lemma who_None_iff: "who L now h rows = None \<longleftrightarrow> (\<forall>r \<in> set rows. \<not> admits L now h r)"
  by (auto simp: who_def last_opt_def filter_empty_conv)

lemma who_append: "who L now h (rows @ [r]) = (if admits L now h r then Some (identity_of r) else who L now h rows)"
  by (simp add: who_def last_opt_def)

text \<open>Revoking a name leaves exactly the rows of the other names able to admit anyone.\<close>

lemma admits_revoked: "filter (admits L now h) (revoke_rows name rows) = filter (\<lambda>r. admits L now h r \<and> tk_name r \<noteq> name) rows"
  by (induction rows) (auto simp: revoke_rows_def admits_def active_def)

lemma who_revoke_rows: "who L now h (revoke_rows name rows) = who L now h (filter (\<lambda>r. tk_name r \<noteq> name) rows)"
  by (simp add: who_def admits_revoked conj_commute)

end
