(* ===== verification/Paths.thy ===== *)
theory Paths
  imports Prelude
begin

text \<open>
  Paths as byte strings with \<open>/\<close> as the separator: the functions of \<open>std::path\<close> and
  \<open>str::split\<close> that the server and the client use.
\<close>

text \<open>\<open>str::split('/')\<close>: at least one piece, possibly empty ones.\<close>

fun split_slash :: "string \<Rightarrow> string list" where
  "split_slash [] = [[]]"
| "split_slash (c # s) =
     (if c = CHR ''/'' then [] # split_slash s
      else case split_slash s of [] \<Rightarrow> [[c]] | h # t \<Rightarrow> (c # h) # t)"

text \<open>\<open>Path::join\<close> with a relative name.\<close>

definition path_join :: "string \<Rightarrow> string \<Rightarrow> string" where
  "path_join d name = (if d = [] then name else if last d = CHR ''/'' then d @ name else d @ ''/'' @ name)"

text \<open>The components of a path, last first, without trailing separators and dots.\<close>

fun trim_tail :: "string list \<Rightarrow> string list" where
  "trim_tail [] = []"
| "trim_tail [x] = [x]"
| "trim_tail (x # y # r) = (if x = [] \<or> x = ''.'' then trim_tail (y # r) else x # y # r)"

definition split_path :: "string \<Rightarrow> string list" where
  "split_path p = trim_tail (rev (split_slash p))"

text \<open>\<open>Path::file_name\<close> and \<open>Path::with_file_name\<close>; the text of a parent from its components.\<close>

definition file_name :: "string \<Rightarrow> string option" where
  "file_name p = (case split_path p of [] \<Rightarrow> None | x # r \<Rightarrow> if x \<in> {[], ''.'', ''..''} then None else Some x)"

fun join_slash :: "string list \<Rightarrow> string" where
  "join_slash [] = []"
| "join_slash [s] = s"
| "join_slash (s # t # r) = s @ ''/'' @ join_slash (t # r)"

definition parent_text :: "string \<Rightarrow> string" where
  "parent_text p = (let r = trim_tail (tl (split_path p)) in
     if r = [[]] then ''/'' else join_slash (rev r))"

definition with_file_name :: "string \<Rightarrow> string \<Rightarrow> string" where
  "with_file_name p name = (if file_name p = None then path_join p name else path_join (parent_text p) name)"

text \<open>\<open>Path::parent\<close>: nothing for the empty path and the root.\<close>

definition path_parent :: "string \<Rightarrow> string option" where
  "path_parent p = (if split_path p = [[]] then None else Some (parent_text p))"

section \<open>Facts\<close>

lemma split_slash_nonempty [simp]: "split_slash s \<noteq> []"
  by (induction s) (auto split: list.splits)

lemma split_slash_plain: "CHR ''/'' \<notin> set s \<Longrightarrow> split_slash s = [s]"
  by (induction s) auto

lemma split_slash_snoc: "CHR ''/'' \<notin> set n \<Longrightarrow> split_slash (a @ CHR ''/'' # n) = split_slash a @ [n]"
  by (induction a) (auto simp: split_slash_plain split: list.splits)

lemma split_slash_pieces: "p \<in> set (split_slash s) \<Longrightarrow> CHR ''/'' \<notin> set p"
  by (induction s arbitrary: p) (auto split: list.splits if_splits)

lemma trim_tail_subset: "set (trim_tail xs) \<subseteq> set xs"
  by (induction xs rule: trim_tail.induct) auto

lemma trim_tail_keep: "x \<noteq> [] \<Longrightarrow> x \<noteq> ''.'' \<Longrightarrow> trim_tail (x # xs) = x # xs"
  by (cases xs) simp_all

text \<open>A plain name: what \<open>with_file_name\<close> puts is what \<open>file_name\<close> finds.\<close>

definition plain_name :: "string \<Rightarrow> bool" where
  "plain_name n \<longleftrightarrow> CHR ''/'' \<notin> set n \<and> n \<notin> {[], ''.'', ''..''}"

lemma file_name_plain: "file_name p = Some n \<Longrightarrow> plain_name n"
proof -
  assume f: "file_name p = Some n"
  then obtain r where "split_path p = n # r" and n: "n \<notin> {[], ''.'', ''..''}"
    by (auto simp: file_name_def split: list.splits if_splits)
  then have "n \<in> set (split_slash p)" using trim_tail_subset [of "rev (split_slash p)"] by (auto simp: split_path_def)
  with n split_slash_pieces show ?thesis by (simp add: plain_name_def)
qed

lemma split_path_join: "plain_name n \<Longrightarrow> \<exists>r. split_path (path_join d n) = n # r"
proof -
  assume n: "plain_name n"
  then have s: "CHR ''/'' \<notin> set n" "n \<noteq> []" "n \<noteq> ''.''" by (simp_all add: plain_name_def)
  consider "d = []" | "d \<noteq> []" "last d = CHR ''/''" | "d \<noteq> []" "last d \<noteq> CHR ''/''" by blast
  then show ?thesis
  proof cases
    case 2
    then have "path_join d n = butlast d @ CHR ''/'' # n" by (simp add: path_join_def) (metis append_butlast_last_id append_Cons append_Nil append_assoc)
    with s show ?thesis by (simp add: split_path_def split_slash_snoc trim_tail_keep)
  next
    case 3
    then have "path_join d n = d @ CHR ''/'' # n" by (simp add: path_join_def)
    with s show ?thesis by (simp add: split_path_def split_slash_snoc trim_tail_keep)
  qed (use s in \<open>simp add: path_join_def split_path_def split_slash_plain\<close>)
qed

lemma file_name_join: "plain_name n \<Longrightarrow> file_name (path_join d n) = Some n"
  using split_path_join [of n d] by (auto simp: file_name_def plain_name_def)

lemma file_name_with: "plain_name n \<Longrightarrow> file_name (with_file_name p n) = Some n"
  by (simp add: with_file_name_def file_name_join)

text \<open>A path that has a file name is longer than its parent.\<close>

definition pieces_length :: "string list \<Rightarrow> nat" where
  "pieces_length xs = sum_list (map (\<lambda>x. Suc (length x)) xs)"

lemma pieces_length_simps [simp]:
  "pieces_length [] = 0" "pieces_length (x # xs) = Suc (length x) + pieces_length xs"
  "pieces_length (rev xs) = pieces_length xs"
  by (simp_all add: pieces_length_def rev_map [symmetric] sum_list_rev)

lemma length_join_slash: "xs \<noteq> [] \<Longrightarrow> Suc (length (join_slash xs)) = pieces_length xs"
  by (induction xs rule: join_slash.induct) simp_all

lemma pieces_split_slash: "pieces_length (split_slash s) = Suc (length s)"
  by (induction s) (auto split: list.splits)

lemma pieces_trim_tail: "pieces_length (trim_tail xs) \<le> pieces_length xs"
  by (induction xs rule: trim_tail.induct) auto

lemma parent_shorter:
  assumes "file_name p = Some n"
  shows "length (parent_text p) < length p"
proof -
  from assms obtain r where r: "split_path p = n # r" and n: "n \<noteq> []"
    by (auto simp: file_name_def split: list.splits if_splits)
  have "pieces_length (n # r) \<le> Suc (length p)"
    using pieces_trim_tail [of "rev (split_slash p)"] r by (simp add: split_path_def pieces_split_slash)
  then have len: "length n + pieces_length (trim_tail r) \<le> length p"
    using pieces_trim_tail [of r] by simp
  show ?thesis
  proof (cases "trim_tail r = [[]]")
    case True
    with len n r show ?thesis by (cases n) (simp_all add: parent_text_def)
  next
    case False
    then have "parent_text p = join_slash (rev (trim_tail r))" using r by (simp add: parent_text_def)
    then show ?thesis
      using len n length_join_slash [of "rev (trim_tail r)"] by (cases "trim_tail r = []"; cases n) auto
  qed
qed

lemma parent_is_elsewhere: "file_name p = Some n \<Longrightarrow> path_parent p \<noteq> Some p"
  using parent_shorter [of p n] by (auto simp: path_parent_def)

end
