(* ===== verification/AuditLog.thy ===== *)
theory AuditLog
  imports Auth Paths "HOL-Library.While_Combinator"
begin

text \<open>
  The audit log (\<open>crates/secrets-server/src/audit.rs\<close>): one record per request, appended
  after the response is known. The log is the list of records; opening the file is modelled
  in \<open>AuditFile\<close>. A record whose write fails is no entry and the request goes on; the bytes
  such a write leaves in the file are modelled in \<open>AuditText\<close>.
\<close>

section \<open>Truncation of logged segments\<close>

text \<open>\<open>str::is_char_boundary\<close>: both ends of the string, and every byte that is not a
  continuation byte.\<close>

definition is_char_boundary :: "string \<Rightarrow> nat \<Rightarrow> bool" where
  "is_char_boundary s i \<longleftrightarrow> i = 0 \<or> i = length s \<or> (i < length s \<and> \<not> utf8_cont (char_byte (s ! i)))"

text \<open>\<open>while !segment.is_char_boundary(end) { end -= 1; }\<close>: position 0 is a boundary, so the
  loop ends there at the latest.\<close>

fun boundary_before :: "string \<Rightarrow> nat \<Rightarrow> nat" where
  "boundary_before s 0 = 0"
| "boundary_before s (Suc i) = (if \<not> is_char_boundary s (Suc i) then boundary_before s i else Suc i)"

text \<open>The same loop as written, which might not end.\<close>

definition boundary_loop :: "string \<Rightarrow> nat \<Rightarrow> nat option" where
  "boundary_loop s e = while_option (\<lambda>e. \<not> is_char_boundary s e) (\<lambda>e. e - 1) e"

definition truncate_for_log :: "string \<Rightarrow> string" where
  "truncate_for_log segment = take (boundary_before segment (min (length segment) 64)) segment"

section \<open>Records\<close>

fun method_str :: "http_method \<Rightarrow> string" where
  "method_str GET = ''GET''"
| "method_str HEAD = ''HEAD''"
| "method_str POST = ''POST''"
| "method_str PUT = ''PUT''"
| "method_str DELETE = ''DELETE''"
| "method_str (OtherMethod m) = m"

text \<open>\<open>AuditLog::record\<close>.\<close>

definition audit_record ::
    "lib \<Rightarrow> http_method \<Rightarrow> string \<Rightarrow> string option \<Rightarrow> string option \<Rightarrow> nat \<Rightarrow> ('m server_scheme, 'e, unit) proc" where
  "audit_record L method path project token status =
     bindP (now_rfc3339 L) (\<lambda>ts.
     let entry = \<lparr>ae_ts = ts, ae_token = token, ae_method = method_str method, ae_path = path,
                  ae_project = project, ae_status = status\<rparr> in
     (\<lambda>w. (Val (), w\<lparr>audit_io := tl (audit_io w),
             audit_log := (if audit_io w \<noteq> [] \<and> hd (audit_io w) then audit_log w
                           else audit_log w @ [entry])\<rparr>)))"

definition nth_segment :: "string \<Rightarrow> nat \<Rightarrow> string option" where
  "nth_segment path n = (if n < length (split_slash path) then Some (split_slash path ! n) else None)"

definition PROJECT_PREFIX :: string where
  "PROJECT_PREFIX = ''/v1/projects/{name}''"

definition logged_project :: "string option \<Rightarrow> string \<Rightarrow> string option" where
  "logged_project matched path = (case matched of
     Some t \<Rightarrow> if strip_prefix PROJECT_PREFIX t \<noteq> None then map_option truncate_for_log (nth_segment path 3) else None
   | None \<Rightarrow> None)"

text \<open>\<open>matched\<close> is the route template the router chose, \<open>next\<close> the rest of the service.\<close>

definition audit_middleware ::
    "lib \<Rightarrow> web \<Rightarrow> string option \<Rightarrow> request \<Rightarrow> ('m server_scheme, app_error, response) proc \<Rightarrow>
     ('m server_scheme, app_error, response) proc" where
  "audit_middleware L W matched req nxt =
     (let project = logged_project matched (rq_path req) in
      bindP (resolve_token_name L W (rq_auth req)) (\<lambda>token_name.
      bindP nxt (\<lambda>rsp.
      bindP (audit_record L (rq_method req) (case matched of Some t \<Rightarrow> t | None \<Rightarrow> ''(unmatched)'')
               project token_name (rs_status rsp)) (\<lambda>_.
      retP rsp))))"

section \<open>Facts about truncation\<close>

definition byte_boundary :: "byte list \<Rightarrow> nat \<Rightarrow> bool" where
  "byte_boundary bs i \<longleftrightarrow> i = 0 \<or> i = length bs \<or> (i < length bs \<and> \<not> utf8_cont (bs ! i))"

lemma is_char_boundary_bytes: "is_char_boundary s i = byte_boundary (str_bytes s) i"
  by (auto simp: is_char_boundary_def byte_boundary_def str_bytes_def)

lemma utf8_lead: "utf8_width a \<noteq> 0 \<Longrightarrow> \<not> utf8_cont a"
  by (auto simp: utf8_width_def utf8_cont_def word_le_nat_alt word_less_nat_alt split: if_splits)

text \<open>The first character of a well-formed string and the string after it.\<close>

lemma utf8_step:
  assumes "utf8_valid (a # r)"
  shows "1 \<le> utf8_width a" and "utf8_width a \<le> 4" and "utf8_width a - 1 \<le> length r"
    and "0 < i \<Longrightarrow> i < utf8_width a \<Longrightarrow> \<not> byte_boundary (a # r) i"
    and "utf8_valid (drop (utf8_width a - 1) r)"
proof -
  from assms have t: "utf8_tail a (take (utf8_width a - 1) r)" and "utf8_valid (drop (utf8_width a - 1) r)"
    by simp_all
  then show "1 \<le> utf8_width a" "utf8_width a - 1 \<le> length r" "utf8_valid (drop (utf8_width a - 1) r)"
    by (auto simp: utf8_tail_def)
  show "utf8_width a \<le> 4" by (simp add: utf8_width_def)
  assume i: "0 < i" "i < utf8_width a"
  then have "i - 1 < utf8_width a - 1" by arith
  with t i have "utf8_cont (take (utf8_width a - 1) r ! (i - 1))" by (auto simp: utf8_tail_def list_all_length simp del: nth_take)
  with i have "utf8_cont (r ! (i - 1))" by simp
  with i t show "\<not> byte_boundary (a # r) i" by (auto simp: byte_boundary_def utf8_tail_def nth_Cons')
qed

lemma boundary_after:
  assumes "utf8_valid (a # r)" and "utf8_width a \<le> i"
  shows "byte_boundary (a # r) i \<longleftrightarrow> byte_boundary (drop (utf8_width a - 1) r) (i - utf8_width a)"
proof -
  let ?w = "utf8_width a"
  note st = utf8_step [OF assms(1)]
  have "\<not> utf8_cont (r ! (?w - 1))" if "?w - 1 < length r"
  proof -
    from that obtain b t where "drop (?w - 1) r = b # t" and "b = r ! (?w - 1)"
      by (metis Cons_nth_drop_Suc)
    with st(5) have "utf8_width (r ! (?w - 1)) \<noteq> 0" by (auto simp: utf8_tail_def)
    then show ?thesis by (rule utf8_lead)
  qed
  then show ?thesis using st(1-3) assms(2)
    by (cases "i = ?w") (auto simp: byte_boundary_def nth_Cons' le_less)
qed

lemma utf8_valid_take: "utf8_valid bs \<Longrightarrow> byte_boundary bs i \<Longrightarrow> utf8_valid (take i bs)"
proof (induction bs arbitrary: i rule: utf8_valid.induct)
  case (2 a r)
  let ?w = "utf8_width a"
  note st = utf8_step [OF "2.prems"(1)]
  show ?case
  proof (cases "i = 0")
    case False
    then have i: "?w \<le> i" using st(4) [of i] "2.prems"(2) by (metis gr0I not_le)
    then have "byte_boundary (drop (?w - 1) r) (i - ?w)" using "2.prems"(2) boundary_after [OF "2.prems"(1)] by blast
    with "2.IH" st(5) have "utf8_valid (take (i - ?w) (drop (?w - 1) r))" by blast
    moreover have "take (i - ?w) (drop (?w - 1) r) = drop (?w - 1) (take (i - 1) r)"
      using st(1) i by (simp add: drop_take)
    moreover have "take (?w - 1) (take (i - 1) r) = take (?w - 1) r" using i by (simp add: min_def)
    moreover have "utf8_tail a (take (?w - 1) r)" using "2.prems"(1) by simp
    ultimately have "utf8_valid (a # take (i - 1) r)" by (simp only: utf8_valid.simps simp_thms)
    then show ?thesis using False by (cases i) (simp_all only: take_Suc_Cons diff_Suc_1)
  qed simp
qed simp

lemma boundary_near: "utf8_valid bs \<Longrightarrow> i \<le> length bs \<Longrightarrow> \<exists>j \<le> i. i \<le> j + 3 \<and> byte_boundary bs j"
proof (induction bs arbitrary: i rule: utf8_valid.induct)
  case (2 a r)
  let ?w = "utf8_width a"
  note st = utf8_step [OF "2.prems"(1)]
  show ?case
  proof (cases "i < ?w")
    case True
    with st(2) show ?thesis by (intro exI [of _ 0]) (auto simp: byte_boundary_def)
  next
    case False
    have "i - ?w \<le> length (drop (?w - 1) r)" using "2.prems"(2) st(1) by simp
    with "2.IH" st(5) obtain j where j: "j \<le> i - ?w" "i - ?w \<le> j + 3" "byte_boundary (drop (?w - 1) r) j" by blast
    then have "byte_boundary (a # r) (j + ?w)" using boundary_after [OF "2.prems"(1), of "j + ?w"] by simp
    with j False show ?thesis by (intro exI [of _ "j + ?w"]) auto
  qed
qed (auto simp: byte_boundary_def)

lemma boundary_before_spec:
  "boundary_before s i \<le> i \<and> is_char_boundary s (boundary_before s i) \<and>
   (\<forall>j \<le> i. is_char_boundary s j \<longrightarrow> j \<le> boundary_before s i)"
proof (induction i)
  case 0
  then show ?case by (simp add: is_char_boundary_def)
next
  case (Suc i)
  then show ?case by (auto simp: le_Suc_eq)
qed

lemma boundary_before_near: "is_str s \<Longrightarrow> i \<le> length s \<Longrightarrow> i \<le> boundary_before s i + 3"
  using boundary_near [of "str_bytes s" i] boundary_before_spec [of s i]
  by (force simp: is_str_def is_char_boundary_bytes)

lemma boundary_loop_eq: "boundary_loop s e = Some (boundary_before s e)"
proof (induction e)
  case 0
  then show ?case by (simp add: boundary_loop_def while_option_unfold is_char_boundary_def)
next
  case (Suc e)
  then show ?case by (simp add: boundary_loop_def while_option_unfold [of _ _ "Suc e"])
qed

section \<open>Facts about the middleware\<close>

lemma keeps_audit_record:
  "(\<And>w t. f (w\<lparr>wtick := t\<rparr>) = f w) \<Longrightarrow> (\<And>w i l. f (w\<lparr>audit_io := i, audit_log := l\<rparr>) = f w) \<Longrightarrow>
   keeps f (audit_record L m p pr t st)"
  unfolding audit_record_def Let_def
  by (intro frame keeps_now_utc) (simp_all add: now_rfc3339_def keeps_bindP keeps_now_utc keeps_case_option keeps_retP keeps_panicP, simp add: keeps_def)

end
