(* ===== verification/Handlers.thy ===== *)
theory Handlers
  imports Auth
begin

text \<open>
  The HTTP handlers of the \<open>/v1\<close> API (\<open>crates/secrets-server/src/handlers.rs\<close>), one
  definition per handler with its checks in the code's order. A handler takes the master
  key and the already authenticated token, and ends with a response, an application error or
  a panic.
\<close>

section \<open>Validation\<close>

definition valid_project :: "string \<Rightarrow> bool" where
  "valid_project name \<longleftrightarrow> name \<noteq> [] \<and> length name \<le> 64 \<and>
     list_all (\<lambda>b. is_ascii_alnum b \<or> b = CHR ''-'' \<or> b = CHR ''_'') name"

definition valid_key :: "string \<Rightarrow> bool" where
  "valid_key key \<longleftrightarrow> key \<noteq> [] \<and> length key \<le> 128 \<and>
     list_all (\<lambda>b. is_ascii_alnum b \<or> b = CHR ''-'' \<or> b = CHR ''_'' \<or> b = CHR ''.'') key"

interpretation project_name: name_rule valid_project 64 "{CHR ''-'', CHR ''_''}"
  by unfold_locales (auto simp: valid_project_def list_all_iff)

interpretation secret_key: name_rule valid_key 128 "{CHR ''-'', CHR ''_'', CHR ''.''}"
  by unfold_locales (auto simp: valid_key_def list_all_iff)

section \<open>Request bodies\<close>

datatype json_rejection = BodyTooLarge | InvalidBody

text \<open>
  axum's \<open>Json\<close> extractor under \<open>DefaultBodyLimit::max(1024 * 1024)\<close>: content type, then
  the size limit, then parsing.
\<close>

definition BODY_LIMIT :: nat where
  "BODY_LIMIT = 1024 * 1024"

definition json_body :: "web \<Rightarrow> (byte list \<Rightarrow> 'a option) \<Rightarrow> request \<Rightarrow> json_rejection + 'a" where
  "json_body W parse req =
     (if \<not> json_type W (rq_content_type req) then Inl InvalidBody
      else if BODY_LIMIT < length (rq_body req) then Inl BodyTooLarge
      else case parse (rq_body req) of None \<Rightarrow> Inl InvalidBody | Some b \<Rightarrow> Inr b)"

definition map_json_rejection :: "json_rejection \<Rightarrow> app_error" where
  "map_json_rejection r = (if r = BodyTooLarge then PayloadTooLarge else BadRequest ''invalid JSON body'')"

definition body_of :: "web \<Rightarrow> (byte list \<Rightarrow> 'a option) \<Rightarrow> request \<Rightarrow> ('s, app_error, 'a) proc" where
  "body_of W parse req = mapErrP map_json_rejection (liftP (json_body W parse req))"

section \<open>Handlers\<close>

definition respond :: "nat \<Rightarrow> json \<Rightarrow> response" where
  "respond status body = \<lparr>rs_status = status, rs_body = Some (JsonBody body)\<rparr>"

definition health :: response where
  "health = respond 200 (JObj [(''status'', JStr ''ok'')])"

definition create_project ::
    "lib \<Rightarrow> web \<Rightarrow> authed_token \<Rightarrow> request \<Rightarrow> ('m server_scheme, app_error, response) proc" where
  "create_project L W token req =
     bindP (body_of W (parse_create_project W) req) (\<lambda>name.
     if \<not> valid_project name then throwP (BadRequest ''invalid project name'') else
     bindP (liftP (ensure_scope token name)) (\<lambda>_.
     with_db ''db lock'' (
       bindP (mapErrP from_sql (project_id name)) (\<lambda>pid.
       if pid \<noteq> None then throwP (Conflict ''project already exists'') else
       bindP (mapErrP from_sql (create_project_row L name)) (\<lambda>_.
       retP (respond 201 (JObj [(''name'', JStr name)])))))))"

definition project_json :: "project \<Rightarrow> json" where
  "project_json p = JObj [(''name'', JStr (p_name p)), (''created_at'', JStr (p_created_at p))]"

definition list_projects :: "authed_token \<Rightarrow> ('m server_scheme, app_error, response) proc" where
  "list_projects token =
     with_db ''db lock'' (
       bindP (mapErrP from_sql list_projects_rows) (\<lambda>projects.
       retP (respond 200 (JObj [(''projects'', JArr (map project_json
         (filter (\<lambda>p. case at_scope token of Some s \<Rightarrow> s = p_name p | None \<Rightarrow> True) projects)))]))))"

fun open_rows ::
    "lib \<Rightarrow> master_key \<Rightarrow> string \<Rightarrow> sealed_row list \<Rightarrow> (string \<times> string) list \<Rightarrow>
     app_error + (string \<times> string) list" where
  "open_rows L K name [] out = Inr out"
| "open_rows L K name (row # rows) out =
     (case decrypt L K (row_nonce row) (row_ciphertext row) (aad_bytes name (row_key row)) of
        Inl e \<Rightarrow> Inl (Internal ''decrypt'')
      | Inr plaintext \<Rightarrow> (case from_utf8 plaintext of
          None \<Rightarrow> Inl (Internal ''non-utf8 secret'')
        | Some value \<Rightarrow> open_rows L K name rows (bt_insert (row_key row) value out)))"

definition secrets_json :: "(string \<times> string) list \<Rightarrow> json" where
  "secrets_json m = JObj (map (\<lambda>(k, v). (k, JStr v)) m)"

definition get_secrets ::
    "lib \<Rightarrow> master_key \<Rightarrow> authed_token \<Rightarrow> string \<Rightarrow> ('m server_scheme, app_error, response) proc" where
  "get_secrets L K token name =
     (if \<not> valid_project name then throwP (BadRequest ''invalid project name'') else
      bindP (liftP (ensure_scope token name)) (\<lambda>_.
      with_db ''db lock'' (
        bindP (bindP (mapErrP from_sql (project_id name)) (\<lambda>r. okOrP NotFound r)) (\<lambda>pid.
        bindP (mapErrP from_sql (list_secret_rows pid)) (\<lambda>rows.
        bindP (liftP (open_rows L K name rows [])) (\<lambda>out.
        retP (respond 200 (secrets_json out))))))))"

definition put_secret ::
    "lib \<Rightarrow> web \<Rightarrow> master_key \<Rightarrow> authed_token \<Rightarrow> string \<Rightarrow> string \<Rightarrow> request \<Rightarrow>
     ('m server_scheme, app_error, response) proc" where
  "put_secret L W K token name key req =
     bindP (body_of W (parse_set_secret W) req) (\<lambda>secret.
     if \<not> valid_project name then throwP (BadRequest ''invalid project name'') else
     bindP (liftP (ensure_scope token name)) (\<lambda>_.
     if \<not> valid_key key then throwP (BadRequest ''invalid key name'') else
     with_db ''db lock'' (
       bindP (bindP (mapErrP from_sql (project_id name)) (\<lambda>r. okOrP NotFound r)) (\<lambda>pid.
       bindP (mapErrP (\<lambda>_. Internal ''encrypt'') (encrypt L K (str_bytes secret) (aad_bytes name key))) (\<lambda>(nonce, ciphertext).
       bindP (mapErrP from_sql (upsert_secret L pid key nonce ciphertext)) (\<lambda>version.
       retP (respond 200 (JObj [(''key'', JStr key), (''version'', JInt version)]))))))))"

definition delete_secret ::
    "authed_token \<Rightarrow> string \<Rightarrow> string \<Rightarrow> ('m server_scheme, app_error, response) proc" where
  "delete_secret token name key =
     (if \<not> valid_project name then throwP (BadRequest ''invalid project name'') else
      if \<not> valid_key key then throwP (BadRequest ''invalid key name'') else
      bindP (liftP (ensure_scope token name)) (\<lambda>_.
      with_db ''db lock'' (
        bindP (bindP (mapErrP from_sql (project_id name)) (\<lambda>r. okOrP NotFound r)) (\<lambda>pid.
        bindP (mapErrP from_sql (delete_secret_row pid key)) (\<lambda>removed.
        if removed then retP \<lparr>rs_status = 204, rs_body = None\<rparr> else throwP NotFound)))))"

text \<open>The expiry of a new token: none, or now plus the requested days (90 by default).\<close>

definition token_expiry :: "lib \<Rightarrow> create_token_body \<Rightarrow> ('m world_scheme, app_error, string option) proc" where
  "token_expiry L body =
     (if ct_no_expiry body then retP None else
      let days = (case ct_ttl_days body of Some n \<Rightarrow> n | None \<Rightarrow> 90) in
      if days = 0 then throwP (BadRequest ''ttl_days must be at least 1'') else
      bindP now_utc (\<lambda>now.
      case date_add_days L now (unat days) of
        None \<Rightarrow> panicP
      | Some t \<Rightarrow> bindP (okOrP (Internal ''format token expiry'') (rfc3339_format L t)) (\<lambda>s. retP (Some s))))"

definition opt_json :: "string option \<Rightarrow> json" where
  "opt_json s = (case s of None \<Rightarrow> JNull | Some v \<Rightarrow> JStr v)"

text \<open>\<open>create_token\<close> in two parts: what it does before it takes the database lock (checks, the
  clock for the expiry, the random token) and the insertion under the lock.\<close>

definition mint_token ::
    "lib \<Rightarrow> web \<Rightarrow> authed_token \<Rightarrow> request \<Rightarrow>
     ('m world_scheme, app_error, create_token_body \<times> string option \<times> string) proc" where
  "mint_token L W token req =
     bindP (liftP (ensure_admin token)) (\<lambda>_.
     bindP (body_of W (parse_create_token W) req) (\<lambda>body.
     if \<not> valid_project (ct_name body) then throwP (BadRequest ''invalid token name'') else
     if (case ct_project body of Some p \<Rightarrow> \<not> valid_project p | None \<Rightarrow> False)
       then throwP (BadRequest ''invalid project scope name'') else
     if ct_no_expiry body \<and> ct_ttl_days body \<noteq> None
       then throwP (BadRequest ''ttl_days cannot be used with no_expiry'') else
     bindP (token_expiry L body) (\<lambda>expires_at.
     bindP (generate_token L) (\<lambda>new_token.
     retP (body, expires_at, new_token)))))"

definition issue_token ::
    "lib \<Rightarrow> create_token_body \<times> string option \<times> string \<Rightarrow> ('m server_scheme, app_error, response) proc" where
  "issue_token L minted = (case minted of (body, expires_at, new_token) \<Rightarrow>
     bindP (with_db ''db lock'' (mapErrP from_sql
       (insert_token L (ct_name body) (hash_token L new_token) (ct_project body) expires_at))) (\<lambda>_.
     retP (respond 201 (JObj [(''name'', JStr (ct_name body)), (''scope'', opt_json (ct_project body)),
       (''expires_at'', opt_json expires_at), (''token'', JStr new_token)]))))"

definition create_token ::
    "lib \<Rightarrow> web \<Rightarrow> authed_token \<Rightarrow> request \<Rightarrow> ('m server_scheme, app_error, response) proc" where
  "create_token L W token req = bindP (mint_token L W token req) (issue_token L)"

definition list_tokens :: "authed_token \<Rightarrow> ('m server_scheme, app_error, response) proc" where
  "list_tokens token =
     bindP (liftP (ensure_admin token)) (\<lambda>_.
     with_db ''db lock'' (
       bindP (mapErrP from_sql list_tokens_rows) (\<lambda>tokens.
       retP (respond 200 (JObj [(''tokens'', JArr (map
         (\<lambda>t. JObj [(''name'', JStr (ti_name t)), (''scope'', opt_json (ti_scope t)),
           (''created_at'', JStr (ti_created_at t)), (''expires_at'', opt_json (ti_expires_at t)),
           (''revoked'', JBool (ti_revoked t))]) tokens))])))))"

definition revoke_token :: "authed_token \<Rightarrow> string \<Rightarrow> ('m server_scheme, app_error, response) proc" where
  "revoke_token token name =
     bindP (liftP (ensure_admin token)) (\<lambda>_.
     if \<not> valid_project name then throwP (BadRequest ''invalid token name'') else
     with_db ''db lock'' (
       bindP (mapErrP from_sql (revoke_token_rows name)) (\<lambda>revoked.
       retP (respond 200 (JObj [(''revoked'', JInt (int revoked))])))))"

end
