(* ===== verification/Vault.thy ===== *)
theory Vault
  imports Handlers
begin

text \<open>
  The abstract specification of the server: the vault, a map from projects to maps from
  keys to values, as the holder of the master key reads it from the tables. The statements
  of the data layer are map updates of the vault; the relation \<open>api_change\<close> lists every
  change a request may make under a given token scope, and the invariants of the database
  are proved once over that relation.
\<close>

section \<open>The vault\<close>

text \<open>
  The abstract content of the database for the holder of the master key: project names to
  maps from keys to values. A row that does not decrypt to text has no value here;
  \<open>readable\<close> says there is no such row.
\<close>

definition opened :: "lib \<Rightarrow> master_key \<Rightarrow> string \<Rightarrow> secret_row \<Rightarrow> string option" where
  "opened L K p r = (case decrypt L K (sr_nonce r) (sr_ciphertext r) (aad_bytes p (sr_key r)) of
     Inl e \<Rightarrow> None | Inr pt \<Rightarrow> from_utf8 pt)"

definition vault :: "lib \<Rightarrow> master_key \<Rightarrow> database \<Rightarrow> string \<rightharpoonup> (string \<rightharpoonup> string)" where
  "vault L K d p = map_option (\<lambda>pid key. Option.bind (find_secret d pid key) (opened L K p)) (find_project d p)"

definition readable :: "lib \<Rightarrow> master_key \<Rightarrow> database \<Rightarrow> bool" where
  "readable L K d \<longleftrightarrow> (\<forall>r \<in> set (db_secrets d). \<forall>p \<in> set (db_projects d).
     pr_id p = sr_project_id r \<longrightarrow> opened L K (pr_name p) r \<noteq> None)"

lemma find_project_SomeD:
  "find_project d p = Some pid \<Longrightarrow> \<exists>r \<in> set (db_projects d). pr_name r = p \<and> pr_id r = pid"
  by (auto simp: find_project_def dest: find_Some_in)

lemma find_project_inject:
  "db_wf d \<Longrightarrow> find_project d p = Some pid \<Longrightarrow> find_project d q = Some pid \<Longrightarrow> p = q"
proof -
  assume wf: "db_wf d" and p: "find_project d p = Some pid" and q: "find_project d q = Some pid"
  from find_project_SomeD [OF p] find_project_SomeD [OF q] obtain r s where
    "r \<in> set (db_projects d)" "s \<in> set (db_projects d)" "pr_id r = pr_id s" "pr_name r = p" "pr_name s = q" by auto
  moreover from this wf have "r = s" by (auto simp: db_wf_def projects_wf_def distinct_map dest: inj_onD)
  ultimately show ?thesis by simp
qed

lemma find_project_None_iff: "find_project d p = None \<longleftrightarrow> p \<notin> pr_name ` set (db_projects d)"
  by (auto simp: find_project_def find_None_all)

lemma vault_None_iff: "vault L K d p = None \<longleftrightarrow> find_project d p = None"
  by (simp add: vault_def)

lemma find_project_secrets [simp]: "find_project (d\<lparr>db_secrets := s\<rparr>) = find_project d"
  by (simp add: find_project_def fun_eq_iff)

lemma opened_sealed: "decrypt L K n c (aad_bytes p k) = Inr (str_bytes v) \<Longrightarrow> is_str v \<Longrightarrow>
    sr_nonce r = n \<Longrightarrow> sr_ciphertext r = c \<Longrightarrow> sr_key r = k \<Longrightarrow> opened L K p r = Some v"
  by (simp add: opened_def)

text \<open>Storing a sealed value is a map update of the vault.\<close>

lemma vault_upsert:
  assumes wf: "db_wf d" and pid: "find_project d name = Some pid"
    and dec: "decrypt L K n c (aad_bytes name key) = Inr (str_bytes v)" and v: "is_str v"
  shows "vault L K (d\<lparr>db_secrets := upsert_rows pid key n c ts (db_secrets d)\<rparr>) =
    (vault L K d)(name \<mapsto> (the (vault L K d name))(key \<mapsto> v))"
proof
  fix p
  let ?d' = "d\<lparr>db_secrets := upsert_rows pid key n c ts (db_secrets d)\<rparr>"
  have same: "Option.bind (find_secret ?d' pid key) (opened L K name) = Some v"
  proof -
    obtain r where r: "find_secret ?d' pid key = Some r" "sr_nonce r = n" "sr_ciphertext r = c"
      by (auto simp: find_secret_def find_upsert_same split: option.splits)
    from find_secret_row_at [OF r(1)] have "sr_key r = key" by (simp add: row_at_def)
    with r dec v show ?thesis by (simp add: opened_sealed)
  qed
  have other: "find_secret ?d' i k = find_secret d i k" if "(i, k) \<noteq> (pid, key)" for i k
    using that by (simp add: find_secret_def find_upsert_other)
  show "vault L K ?d' p = ((vault L K d)(name \<mapsto> (the (vault L K d name))(key \<mapsto> v))) p"
  proof (cases "p = name")
    case True
    with pid same show ?thesis by (auto simp: vault_def fun_eq_iff other)
  next
    case False
    with find_project_inject [OF wf pid, of p] have "find_project d p \<noteq> Some pid" by auto
    with False show ?thesis
      by (cases "find_project d p") (auto simp: vault_def fun_eq_iff other)
  qed
qed

lemma vault_delete:
  assumes wf: "db_wf d" and pid: "find_project d name = Some pid"
  shows "vault L K (d\<lparr>db_secrets := delete_rows pid key (db_secrets d)\<rparr>) =
    (vault L K d)(name \<mapsto> (the (vault L K d name))(key := None))"
proof
  fix p
  let ?d' = "d\<lparr>db_secrets := delete_rows pid key (db_secrets d)\<rparr>"
  have gone: "find_secret ?d' pid key = None" by (simp add: find_secret_def find_delete_same)
  have other: "find_secret ?d' i k = find_secret d i k" if "(i, k) \<noteq> (pid, key)" for i k
    using that by (simp add: find_secret_def find_delete_other)
  show "vault L K ?d' p = ((vault L K d)(name \<mapsto> (the (vault L K d name))(key := None))) p"
  proof (cases "p = name")
    case True
    with pid gone show ?thesis by (auto simp: vault_def fun_eq_iff other)
  next
    case False
    with find_project_inject [OF wf pid, of p] have "find_project d p \<noteq> Some pid" by auto
    with False show ?thesis
      by (cases "find_project d p") (auto simp: vault_def fun_eq_iff other)
  qed
qed

lemma vault_insert_project:
  assumes wf: "db_wf d" and run: "insert_project name ts d = Inr (u, d')"
  shows "vault L K d' = (vault L K d)(name \<mapsto> Map.empty)"
proof
  fix p
  from run have new: "name \<notin> pr_name ` set (db_projects d)"
    and d': "d' = d\<lparr>db_projects := db_projects d @ [\<lparr>pr_id = next_rowid (map pr_id (db_projects d)), pr_name = name, pr_created_at = ts\<rparr>]\<rparr>"
    by (auto simp: insert_project_def split: if_splits)
  have secrets: "find_secret d' = find_secret d" by (simp add: find_secret_def d' fun_eq_iff)
  have "find (\<lambda>r. pr_name r = name) (db_projects d) = None" using new by (auto simp: find_None_all)
  then have fp: "find_project d' q = (if q = name then Some (next_rowid (map pr_id (db_projects d))) else find_project d q)" for q
    by (cases "q = name") (auto simp: find_project_def d' find_append split: option.splits)
  have "find_secret d (next_rowid (map pr_id (db_projects d))) key = None" for key
  proof -
    have "r \<in> set (db_secrets d) \<Longrightarrow> sr_project_id r \<noteq> next_rowid (map pr_id (db_projects d))" for r
      using wf next_rowid_fresh [of "map pr_id (db_projects d)"] by (auto simp: db_wf_def) (metis imageI subsetD)
    then show ?thesis by (auto simp: find_secret_def find_None_all row_at_def)
  qed
  then show "vault L K d' p = ((vault L K d)(name \<mapsto> Map.empty)) p"
    by (simp add: vault_def fp secrets)
qed

section \<open>The changes a request may make\<close>

definition scope_allows :: "string option \<Rightarrow> string \<Rightarrow> bool" where
  "scope_allows s p \<longleftrightarrow> s = None \<or> s = Some p"

inductive api_change :: "lib \<Rightarrow> master_key \<Rightarrow> string option \<Rightarrow> database \<Rightarrow> database \<Rightarrow> bool"
  for L :: lib and K :: master_key and s :: "string option" where
  unchanged: "api_change L K s d d"
| new_project: "scope_allows s p \<Longrightarrow> valid_project p \<Longrightarrow> insert_project p ts d = Inr ((), d') \<Longrightarrow> api_change L K s d d'"
| stored: "scope_allows s p \<Longrightarrow> valid_project p \<Longrightarrow> valid_key k \<Longrightarrow> find_project d p = Some pid \<Longrightarrow>
    decrypt L K n c (aad_bytes p k) = Inr (str_bytes v) \<Longrightarrow> is_str v \<Longrightarrow>
    upsert_stmt pid k n c ts d = Inr ((), d') \<Longrightarrow> api_change L K s d d'"
| removed: "scope_allows s p \<Longrightarrow> valid_project p \<Longrightarrow> valid_key k \<Longrightarrow> find_project d p = Some pid \<Longrightarrow>
    api_change L K s d (d\<lparr>db_secrets := delete_rows pid k (db_secrets d)\<rparr>)"
| new_token: "s = None \<Longrightarrow> valid_project name \<Longrightarrow>
    api_change L K s d (d\<lparr>db_tokens := db_tokens d @ [new_token_row name h sc e ts (db_tokens d)]\<rparr>)"
| revoked: "s = None \<Longrightarrow> api_change L K s d (d\<lparr>db_tokens := revoke_rows name (db_tokens d)\<rparr>)"

inductive_cases api_changeE: "api_change L K s d d'"

lemma api_change_wf: "api_change L K s d d' \<Longrightarrow> db_wf d \<Longrightarrow> db_wf d'"
  by (erule api_change.cases)
    (auto intro: db_wf_insert_project db_wf_upsert db_wf_delete db_wf_insert_token db_wf_revoke)

lemma insert_project_Inr:
  "insert_project p ts d = Inr (u, d') \<Longrightarrow> db_secrets d' = db_secrets d \<and> db_tokens d' = db_tokens d \<and> db_meta d' = db_meta d"
  by (auto simp: insert_project_def split: if_splits)

lemma upsert_stmt_Inr:
  "upsert_stmt pid k n c ts d = Inr (u, d') \<Longrightarrow> d' = d\<lparr>db_secrets := upsert_rows pid k n c ts (db_secrets d)\<rparr>"
  by (auto simp: upsert_stmt_def split: if_splits)

lemma api_change_meta: "api_change L K s d d' \<Longrightarrow> db_meta d' = db_meta d"
  by (erule api_change.cases) (auto dest: insert_project_Inr upsert_stmt_Inr)

lemma api_change_opens: "api_change L K s d d' \<Longrightarrow> opens_verifier L K d' = opens_verifier L K d"
  by (simp add: opens_verifier_def api_change_meta)

text \<open>A scoped token cannot touch the token table.\<close>

lemma api_change_tokens: "api_change L K (Some p) d d' \<Longrightarrow> db_tokens d' = db_tokens d"
  by (erule api_change.cases) (auto dest: insert_project_Inr upsert_stmt_Inr)

text \<open>Nor any project but its own.\<close>

lemma vault_tokens [simp]: "vault L K (d\<lparr>db_tokens := t\<rparr>) = vault L K d"
  by (simp add: vault_def fun_eq_iff find_project_def find_secret_def)

lemma api_change_scope:
  assumes "api_change L K (Some p) d d'" and "db_wf d" and "q \<noteq> p"
  shows "vault L K d' q = vault L K d q"
  using assms(1)
proof (cases rule: api_change.cases)
  case (new_project p' ts)
  then show ?thesis using assms(2,3) by (simp add: vault_insert_project scope_allows_def)
next
  case (stored p' k pid n c v ts)
  then show ?thesis using assms(2,3) by (simp add: upsert_stmt_Inr [OF stored(7)] vault_upsert scope_allows_def)
next
  case (removed p' k pid)
  then show ?thesis using assms(2,3) by (simp add: vault_delete scope_allows_def)
qed simp_all

text \<open>Every row keeps opening: what is stored was sealed for its own project and key.\<close>

lemma readable_insert_project:
  assumes "db_wf d" and "insert_project name ts d = Inr (u, d')" and "readable L K d"
  shows "readable L K d'"
proof -
  from assms(2) have s: "db_secrets d' = db_secrets d" by (simp add: insert_project_Inr)
  have "opened L K (pr_name p) r \<noteq> None" if r: "r \<in> set (db_secrets d)" and p: "p \<in> set (db_projects d')"
    and e: "pr_id p = sr_project_id r" for p r
  proof -
    from assms(1) r have "sr_project_id r \<in> pr_id ` set (db_projects d)" by (auto simp: db_wf_def)
    then have "sr_project_id r \<noteq> next_rowid (map pr_id (db_projects d))"
      using next_rowid_fresh [of "map pr_id (db_projects d)"] by auto
    with assms(2) p e have "p \<in> set (db_projects d)" by (auto simp: insert_project_def split: if_splits)
    with assms(3) r e show ?thesis by (simp add: readable_def)
  qed
  with s show ?thesis by (simp add: readable_def)
qed

lemma readable_upsert:
  assumes wf: "db_wf d" and rd: "readable L K d" and pid: "find_project d name = Some pid"
    and dec: "decrypt L K n c (aad_bytes name key) = Inr (str_bytes v)" and v: "is_str v"
  shows "readable L K (d\<lparr>db_secrets := upsert_rows pid key n c ts (db_secrets d)\<rparr>)"
proof -
  have "opened L K (pr_name p) r \<noteq> None"
    if r: "r \<in> set (upsert_rows pid key n c ts (db_secrets d))" and p: "p \<in> set (db_projects d)"
      and e: "pr_id p = sr_project_id r" for p r
  proof (cases "sr_project_id r = pid \<and> sr_key r = key \<and> sr_nonce r = n \<and> sr_ciphertext r = c")
    case True
    from find_project_SomeD [OF pid] obtain q where q: "q \<in> set (db_projects d)" "pr_name q = name" "pr_id q = pid" by blast
    with True p e wf have "p = q" by (auto simp: db_wf_def projects_wf_def distinct_map dest: inj_onD)
    with True q dec v show ?thesis by (simp add: opened_def)
  next
    case False
    with r have "r \<in> set (db_secrets d)"
      by (auto simp: upsert_rows_def row_at_def split: if_splits)
    with rd p e show ?thesis by (simp add: readable_def)
  qed
  then show ?thesis by (simp add: readable_def)
qed

lemma readable_delete: "readable L K d \<Longrightarrow> readable L K (d\<lparr>db_secrets := delete_rows pid k (db_secrets d)\<rparr>)"
  by (auto simp: readable_def delete_rows_def)

lemma readable_tokens [simp]: "readable L K (d\<lparr>db_tokens := t\<rparr>) = readable L K d"
  by (simp add: readable_def)

lemma api_change_readable: "api_change L K s d d' \<Longrightarrow> db_wf d \<Longrightarrow> readable L K d \<Longrightarrow> readable L K d'"
  by (erule api_change.cases)
    (auto dest: upsert_stmt_Inr intro: readable_insert_project readable_upsert readable_delete)

section \<open>Following a procedure to the change it makes\<close>

definition changes :: "(database \<Rightarrow> database \<Rightarrow> bool) \<Rightarrow> ('m world_scheme, 'e, 'a) proc \<Rightarrow> 'm world_scheme \<Rightarrow> bool" where
  "changes R m w \<longleftrightarrow> R (wdb w) (wdb (snd (m w)))"

lemma changes_keeps: "(\<And>d. R d d) \<Longrightarrow> keeps wdb m \<Longrightarrow> changes R m w"
  by (simp add: changes_def keeps_def)

lemma changes_read:
  assumes "\<And>d. R d d" and "keeps wdb m"
    and "\<And>x w'. m w = (Val x, w') \<Longrightarrow> wdb w' = wdb w \<Longrightarrow> changes R (f x) w'"
  shows "changes R (bindP m f) w"
proof (cases "m w")
  case (Pair r w')
  with keepsD' [OF assms(2) Pair] assms(1) [of "wdb w"] assms(3) show ?thesis
    by (cases r) (auto simp: changes_def bindP_def)
qed

lemma changes_then:
  assumes "changes R m w" and "\<And>x. keeps wdb (f x)"
  shows "changes R (bindP m f) w"
  using assms(1) keepsD [OF assms(2)]
  by (auto simp: changes_def bindP_def split: prod.splits outcome.splits)

lemma changes_sql:
  assumes "R (wdb w) (wdb w)" and "\<And>x d. stmt (wdb w) = Inr (x, d) \<Longrightarrow> R (wdb w) d"
  shows "changes R (sql stmt) w"
  using assms by (auto simp: changes_def sql_def Let_def split: sum.splits)

lemma changes_mapErr [simp]: "changes R (mapErrP g m) w = changes R m w"
  by (simp add: changes_def)

lemma changes_with_db: "R (wdb w) (wdb w) \<Longrightarrow> changes R m w \<Longrightarrow> changes R (with_db tag m) w"
  by (auto simp: changes_def with_db_def split: prod.splits outcome.splits)

lemma changes_if: "(b \<Longrightarrow> changes R m w) \<Longrightarrow> (\<not> b \<Longrightarrow> changes R n w) \<Longrightarrow> changes R (if b then m else n) w"
  by simp

lemma changes_prod: "(\<And>a b. x = (a, b) \<Longrightarrow> changes R (m a b) w) \<Longrightarrow> changes R (case x of (a, b) \<Rightarrow> m a b) w"
  by (cases x) auto

text \<open>One goal per write of the procedure, with what was read before it as premises.\<close>

lemmas change_steps = changes_if changes_prod changes_with_db changes_read

end
