(* ===== verification/Effects.thy ===== *)
theory Effects
  imports Vault
begin

text \<open>
  What every handler does to the tables and what it answers. For each handler: the change
  it makes under any outcome (\<open>*_change\<close>, over the relation \<open>api_change\<close>), what a
  successful answer means in terms of the vault, and its answer on a healthy server.
\<close>

section \<open>Reading steps\<close>

lemma wdb_upd [simp]: "wdb (w\<lparr>poisoned := b\<rparr>) = wdb w"
  by (cases w) simp

lemma keeps_body_of: "keeps f (body_of W parse req)"
  unfolding body_of_def by (intro frame)

lemma keeps_project_id: "(\<And>w i. f (w\<lparr>wio := i\<rparr>) = f w) \<Longrightarrow> keeps f (project_id name)"
  by (simp add: project_id_def keeps_query)

lemma keeps_list_secret_rows: "(\<And>w i. f (w\<lparr>wio := i\<rparr>) = f w) \<Longrightarrow> keeps f (list_secret_rows pid)"
  by (simp add: list_secret_rows_def keeps_query)

lemma keeps_now_rfc3339: "(\<And>w t. f (w\<lparr>wtick := t\<rparr>) = f w) \<Longrightarrow> keeps f (now_rfc3339 L)"
  unfolding now_rfc3339_def by (intro frame keeps_now_utc) auto

lemma keeps_generate_token: "(\<And>w e. f (w\<lparr>entropy := e\<rparr>) = f w) \<Longrightarrow> keeps f (generate_token L)"
  unfolding generate_token_def by (intro frame keeps_fill_bytes) auto

lemma keeps_token_expiry: "(\<And>w t. f (w\<lparr>wtick := t\<rparr>) = f w) \<Longrightarrow> keeps f (token_expiry L b)"
  unfolding token_expiry_def Let_def by (intro frame keeps_now_utc) auto

lemmas read_frame = keeps_body_of keeps_project_id keeps_list_secret_rows keeps_now_rfc3339
  keeps_generate_token keeps_token_expiry keeps_with_db keeps_query keeps_now_utc keeps_encrypt
  keeps_authenticate keeps_from_request_parts keeps_resolve_token_name

lemma project_id_Val:
  "bindP (mapErrP from_sql (project_id name)) (\<lambda>r. okOrP NotFound r) w = (Val pid, w') \<Longrightarrow>
   find_project (wdb w) name = Some pid \<and> wdb w' = wdb w"
  by (auto simp: bindP_Val_iff project_id_def elim!: query_ValE)

lemma body_of_Val: "body_of W parse req w = (Val x, w') \<longleftrightarrow> json_body W parse req = Inr x \<and> w' = w"
  by (auto simp: body_of_def)

lemma json_body_Inr: "json_body W parse req = Inr x \<Longrightarrow> parse (rq_body req) = Some x \<and> length (rq_body req) \<le> BODY_LIMIT"
  by (auto simp: json_body_def split: if_splits option.splits)

section \<open>The change each handler makes\<close>

lemma list_projects_keeps: "keeps wdb (list_projects token)"
  unfolding list_projects_def list_projects_rows_def by (intro frame read_frame) auto

lemma list_tokens_keeps: "keeps wdb (list_tokens token)"
  unfolding list_tokens_def list_tokens_rows_def by (intro frame read_frame) auto

lemma get_secrets_keeps: "keeps wdb (get_secrets L K token name)"
  unfolding get_secrets_def by (intro frame read_frame) auto

lemma throw_change: "changes (api_change L K s) (throwP e) w"
  by (intro changes_keeps api_change.unchanged frame)

lemma changes_write: "changes R m w \<Longrightarrow> (\<And>x. keeps wdb (f x)) \<Longrightarrow> changes R (bindP (mapErrP g m) f) w"
  by (simp add: changes_then)

lemma create_project_row_change:
  assumes "valid_project name" and "scope_allows s name" and "\<And>x. keeps wdb (f x)"
  shows "changes (api_change L K s) (bindP (mapErrP g (create_project_row L name)) f) w"
  unfolding create_project_row_def
  by (intro changes_write changes_read changes_sql keeps_now_rfc3339 api_change.unchanged assms(3))
    (auto intro: api_change.new_project [OF assms(2,1)])

lemma create_project_change: "changes (api_change L K (at_scope token)) (create_project L W token req) w"
  unfolding create_project_def
  by (intro create_project_row_change change_steps api_change.unchanged throw_change
      read_frame frame) (auto simp: scope_allows_def)

lemma keeps_sql_read: "(\<And>d x d'. stmt d = Inr (x, d') \<Longrightarrow> d' = d) \<Longrightarrow> keeps wdb (sql stmt)"
  by (auto simp: keeps_def sql_def Let_def split: sum.splits)

lemma upsert_secret_change:
  assumes "scope_allows s p" and "valid_project p" and "valid_key k" and "find_project (wdb w) p = Some pid"
    and "decrypt L K n c (aad_bytes p k) = Inr (str_bytes v)" and "is_str v" and "\<And>x. keeps wdb (f x)"
  shows "changes (api_change L K s) (bindP (mapErrP g (upsert_secret L pid k n c)) f) w"
proof (intro changes_write assms(7))
  have "keeps wdb (sql (\<lambda>d. case find_secret d pid k of None \<Rightarrow> Inl SqlNoRows | Some r \<Rightarrow> Inr (sr_version r, d)))"
    by (rule keeps_sql_read) (auto split: option.splits)
  then show "changes (api_change L K s) (upsert_secret L pid k n c) w"
    unfolding upsert_secret_def
    by (intro changes_read [OF api_change.unchanged keeps_now_rfc3339] changes_then changes_sql api_change.unchanged)
      (use assms in \<open>auto intro: api_change.stored [OF assms(1,2,3)]\<close>)
qed

lemma put_secret_change:
  assumes "aead_ok L" and "web_ok W"
  shows "changes (api_change L K (at_scope token)) (put_secret L W K token p k req) w"
proof -
  have str: "is_str v" if "body_of W (parse_set_secret W) req w = (Val v, w')" for v and w w' :: "'a server_scheme"
    using that assms(2) by (auto simp: body_of_Val web_ok_def dest!: json_body_Inr)
  have dec: "decrypt L K n c a = Inr pt"
    if "encrypt L K pt a w = (Val (n, c), w')" for n c a pt and w w' :: "'a server_scheme"
    using that by (rule decrypt_encrypt [OF assms(1)])
  show ?thesis
    unfolding put_secret_def
    by (intro upsert_secret_change change_steps api_change.unchanged throw_change read_frame frame)
      (auto simp: scope_allows_def dest: project_id_Val str dec)
qed

lemma delete_secret_row_change:
  assumes "scope_allows s p" and "valid_project p" and "valid_key k" and "find_project (wdb w) p = Some pid"
    and "\<And>x. keeps wdb (f x)"
  shows "changes (api_change L K s) (bindP (mapErrP g (delete_secret_row pid k)) f) w"
  unfolding delete_secret_row_def
  by (intro changes_write assms(5) changes_then changes_sql api_change.unchanged frame)
    (auto intro: api_change.removed [OF assms(1-4)])

lemma delete_secret_change: "changes (api_change L K (at_scope token)) (delete_secret token p k) w"
  unfolding delete_secret_def
  by (intro delete_secret_row_change change_steps api_change.unchanged throw_change read_frame frame)
    (auto simp: scope_allows_def dest: project_id_Val)

lemma insert_token_change:
  fixes w :: "'m server_scheme"
  assumes "s = None" and "valid_project name" and "\<And>x :: unit. keeps wdb (f x)"
  shows "changes (api_change L K s) (bindP (with_db tag (mapErrP g (insert_token L name h sc e))) f) w"
proof (rule changes_then [OF _ assms(3)])
  have "changes (api_change L K s) (insert_token L name h sc e) w"
    unfolding insert_token_def
    by (intro changes_read changes_sql keeps_now_rfc3339 api_change.unchanged)
      (auto intro: api_change.new_token assms)
  then show "changes (api_change L K s) (with_db tag (mapErrP g (insert_token L name h sc e))) w"
    by (intro changes_with_db api_change.unchanged) simp
qed

lemma keeps_mint_token:
  "(\<And>w t. f (w\<lparr>wtick := t\<rparr>) = f w) \<Longrightarrow> (\<And>w e. f (w\<lparr>entropy := e\<rparr>) = f w) \<Longrightarrow> keeps f (mint_token L W token req)"
  unfolding mint_token_def by (intro frame read_frame) auto

lemma mint_token_ValD:
  assumes "mint_token L W token req w = (Val (b, e, t), w')"
  shows "json_body W (parse_create_token W) req = Inr b \<and> at_scope token = None \<and> valid_project (ct_name b) \<and>
    (\<exists>w1. token_expiry L b w = (Val e, w1))"
  using assms by (simp add: mint_token_def bindP_Val_iff body_of_Val) blast

lemma issue_token_change:
  assumes "s = None" and "valid_project (ct_name b)"
  shows "changes (api_change L K s) (issue_token L (b, e, t)) w"
  unfolding issue_token_def prod.case by (rule insert_token_change [OF assms keeps_retP])

lemma create_token_change: "changes (api_change L K (at_scope token)) (create_token L W token req) w"
  unfolding create_token_def
proof (rule changes_read [OF api_change.unchanged])
  show "keeps wdb (mint_token L W token req)" by (rule keeps_mint_token) simp_all
next
  fix x w' assume "mint_token L W token req w = (Val x, w')"
  then show "changes (api_change L K (at_scope token)) (issue_token L x) w'"
    by (cases x) (auto dest!: mint_token_ValD intro: issue_token_change)
qed

lemma revoke_token_change: "changes (api_change L K (at_scope token)) (revoke_token token name) w"
  unfolding revoke_token_def revoke_token_rows_def
  by (intro changes_write changes_sql changes_if changes_with_db changes_read [OF api_change.unchanged keeps_liftP] api_change.unchanged throw_change frame)
    (auto intro: api_change.revoked)

end
