(* ===== verification/Answers.thy ===== *)
theory Answers
  imports Effects
begin

text \<open>
  The answers of the handlers in terms of the vault: what each successful response says and
  means, and on a healthy server (no statement fails, the mutex is not poisoned) the exact
  answer.
\<close>

definition healthy :: "'m server_scheme \<Rightarrow> bool" where
  "healthy w \<longleftrightarrow> wio w = [] \<and> \<not> poisoned w"

section \<open>Reading the vault\<close>

definition versions :: "database \<Rightarrow> string \<Rightarrow> string \<Rightarrow> int option" where
  "versions d p k = Option.bind (find_project d p) (\<lambda>pid. map_option sr_version (find_secret d pid k))"

lemma open_rows_Inr_iff:
  "open_rows L K p rows out = Inr m \<longleftrightarrow>
   (\<exists>vs. list_all2 (\<lambda>r v. \<exists>pt. decrypt L K (row_nonce r) (row_ciphertext r) (aad_bytes p (row_key r)) = Inr pt \<and>
       from_utf8 pt = Some v) rows vs \<and> m = fold (\<lambda>(k, v). bt_insert k v) (zip (map row_key rows) vs) out)"
proof (induction rows arbitrary: out)
  case Nil
  then show ?case by auto
next
  case (Cons r rows)
  then show ?case
    by (auto simp: list_all2_Cons1 split: sum.splits option.splits)
qed

definition sealed_of :: "secret_row \<Rightarrow> sealed_row" where
  "sealed_of r = \<lparr>row_key = sr_key r, row_nonce = sr_nonce r, row_ciphertext = sr_ciphertext r\<rparr>"

lemma opened_sealed_of:
  "opened L K p r = Some v \<longleftrightarrow>
   (\<exists>pt. decrypt L K (row_nonce (sealed_of r)) (row_ciphertext (sealed_of r)) (aad_bytes p (row_key (sealed_of r))) = Inr pt \<and>
     from_utf8 pt = Some v)"
  by (auto simp: opened_def sealed_of_def split: sum.splits)

lemma open_rows_sealed:
  "open_rows L K p (map sealed_of rs) [] = Inr m \<longleftrightarrow>
   (\<forall>r \<in> set rs. opened L K p r \<noteq> None) \<and>
   m = fold (\<lambda>(k, v). bt_insert k v) (map (\<lambda>r. (sr_key r, the (opened L K p r))) rs) []"
proof -
  have "list_all2 (\<lambda>r v. \<exists>pt. decrypt L K (row_nonce r) (row_ciphertext r) (aad_bytes p (row_key r)) = Inr pt \<and>
       from_utf8 pt = Some v) (map sealed_of rs) vs \<longleftrightarrow>
     (\<forall>r \<in> set rs. opened L K p r \<noteq> None) \<and> vs = map (\<lambda>r. the (opened L K p r)) rs" for vs
    unfolding list_all2_map1 opened_sealed_of [symmetric]
    by (induction rs arbitrary: vs) (auto simp: list_all2_Cons1)
  moreover have "zip (map row_key (map sealed_of rs)) (map (\<lambda>r. the (opened L K p r)) rs) =
      map (\<lambda>r. (sr_key r, the (opened L K p r))) rs"
    by (induction rs) (auto simp: sealed_of_def)
  ultimately show ?thesis by (auto simp: open_rows_Inr_iff)
qed

definition project_rows :: "database \<Rightarrow> int \<Rightarrow> secret_row list" where
  "project_rows d pid = sort_key sr_key (filter (\<lambda>r. sr_project_id r = pid) (db_secrets d))"

lemma secret_rows_of_sealed: "secret_rows_of d pid = map sealed_of (project_rows d pid)"
  by (simp add: secret_rows_of_def project_rows_def sealed_of_def [abs_def])

lemma find_secret_iff:
  "db_wf d \<Longrightarrow> find_secret d pid k = Some r \<longleftrightarrow> r \<in> set (project_rows d pid) \<and> sr_key r = k"
  using find_row_of_mem [of "db_secrets d" r]
  by (auto simp: db_wf_def project_rows_def row_at_def find_secret_def dest: find_Some_in)

lemma distinct_project_rows: "db_wf d \<Longrightarrow> distinct (map sr_key (project_rows d pid))"
proof -
  assume "db_wf d"
  then have "inj_on (\<lambda>r. (sr_project_id r, sr_key r)) (set (db_secrets d))" and "distinct (db_secrets d)"
    by (auto simp: db_wf_def secrets_wf_def distinct_map)
  then show ?thesis by (auto simp: project_rows_def distinct_map inj_on_def)
qed

text \<open>The map a successful read returns is the vault's, in key order.\<close>

lemma open_rows_vault:
  assumes wf: "db_wf d" and pid: "find_project d p = Some pid"
    and run: "open_rows L K p (secret_rows_of d pid) [] = Inr m"
  shows "bt_inv m \<and> vault L K d p = Some (map_of m)"
proof -
  let ?rs = "project_rows d pid" and ?kv = "\<lambda>r. (sr_key r, the (opened L K p r))"
  from run have op: "\<forall>r \<in> set ?rs. opened L K p r \<noteq> None"
    and m: "m = fold (\<lambda>(k, v). bt_insert k v) (map ?kv ?rs) []"
    by (auto simp: secret_rows_of_sealed open_rows_sealed)
  have inv: "bt_inv m" unfolding m by (rule btree.inv_puts) simp
  have dist: "distinct (map fst (map ?kv ?rs))" using distinct_project_rows [OF wf] by (simp add: comp_def)
  have "map_of m k = Option.bind (find_secret d pid k) (opened L K p)" for k
  proof (cases "find_secret d pid k")
    case None
    then have "\<forall>r \<in> set ?rs. sr_key r \<noteq> k" using find_secret_iff [OF wf, of pid k] by auto
    then have "k \<notin> fst ` set (map ?kv ?rs)" by auto
    then have "map_of m k = map_of [] k" unfolding m by (intro btree.look_puts_other) simp_all
    with None show ?thesis by simp
  next
    case (Some r)
    with find_secret_iff [OF wf] have r: "r \<in> set ?rs" "sr_key r = k" by auto
    then have "(k, the (opened L K p r)) \<in> set (map ?kv ?rs)" by auto
    then have "map_of m k = Some (the (opened L K p r))" unfolding m
      by (intro btree.look_puts_distinct dist) simp_all
    with Some r op show ?thesis by auto
  qed
  with inv pid show ?thesis by (simp add: vault_def fun_eq_iff)
qed

lemma open_rows_readable:
  assumes "readable L K d" and "db_wf d" and "find_project d p = Some pid"
  shows "\<exists>m. open_rows L K p (secret_rows_of d pid) [] = Inr m"
proof -
  from find_project_SomeD [OF assms(3)] obtain q where q: "q \<in> set (db_projects d)" "pr_name q = p" "pr_id q = pid" by blast
  have "opened L K p r \<noteq> None" if "r \<in> set (project_rows d pid)" for r
    using that assms(1) q by (auto simp: readable_def project_rows_def)
  then show ?thesis by (auto simp: secret_rows_of_sealed open_rows_sealed)
qed

section \<open>Successful answers\<close>

lemma get_secrets_ValD:
  assumes "db_wf (wdb w)" and "get_secrets L K token p w = (Val rsp, w')"
  shows "\<exists>m. rsp = respond 200 (secrets_json m) \<and> bt_inv m \<and> vault L K (wdb w) p = Some (map_of m) \<and>
    scope_allows (at_scope token) p \<and> wdb w' = wdb w"
proof -
  from assms(2) obtain pid w1 rows w2 m where sc: "scope_allows (at_scope token) p"
    and pid: "project_id p w = (Val (Some pid), w1)"
    and rows: "list_secret_rows pid w1 = (Val rows, w2)"
    and m: "open_rows L K p rows [] = Inr m" and rsp: "rsp = respond 200 (secrets_json m)" and w': "w' = w2"
    by (auto simp: get_secrets_def bindP_Val_iff with_db_Val_iff scope_allows_def)
  from pid have "find_project (wdb w) p = Some pid" and "wdb w1 = wdb w"
    by (auto simp: project_id_def elim!: query_ValE)
  moreover from this rows have "rows = secret_rows_of (wdb w) pid" "wdb w' = wdb w"
    by (auto simp: list_secret_rows_def w' elim!: query_ValE)
  ultimately show ?thesis using open_rows_vault [OF assms(1)] m sc rsp by auto
qed

lemma upsert_secret_ValD:
  assumes "upsert_secret L pid k n c w = (Val ver, w')"
  shows "(\<exists>ts. wdb w' = (wdb w)\<lparr>db_secrets := upsert_rows pid k n c ts (db_secrets (wdb w))\<rparr>) \<and>
    ver = (case find_secret (wdb w) pid k of None \<Rightarrow> 1 | Some r \<Rightarrow> sr_version r + 1)"
proof -
  from assms obtain ts w1 u w2 where "now_rfc3339 L w = (Val ts :: (sql_error, string) outcome, w1)"
    and s: "sql (upsert_stmt pid k n c ts) w1 = (Val u, w2)"
    and q: "sql (\<lambda>d. case find_secret d pid k of None \<Rightarrow> Inl SqlNoRows | Some r \<Rightarrow> Inr (sr_version r, d)) w2 = (Val ver, w')"
    by (simp add: upsert_secret_def bindP_Val_iff) blast
  have w1: "wdb w1 = wdb w" by (rule keepsD' [OF keeps_now_rfc3339]) (simp, fact)
  from s w1 have w2: "wdb w2 = (wdb w)\<lparr>db_secrets := upsert_rows pid k n c ts (db_secrets (wdb w))\<rparr>"
    by (auto dest: upsert_stmt_Inr elim!: sql_ValE)
  from q have "wdb w' = wdb w2" "\<exists>r. find_secret (wdb w2) pid k = Some r \<and> ver = sr_version r"
    by (auto elim!: sql_ValE split: option.splits)
  with w2 show ?thesis by (auto simp: find_secret_def find_upsert_same split: option.splits)
qed

lemma put_secret_ValD:
  assumes ok: "aead_ok L" and web: "web_ok W" and wf: "db_wf (wdb w)"
    and run: "put_secret L W K token p k req w = (Val rsp, w')"
  shows "\<exists>v m. json_body W (parse_set_secret W) req = Inr v \<and> vault L K (wdb w) p = Some m \<and>
    vault L K (wdb w') = (vault L K (wdb w))(p \<mapsto> m(k \<mapsto> v)) \<and>
    scope_allows (at_scope token) p \<and> valid_project p \<and> valid_key k \<and>
    rsp = respond 200 (JObj [(''key'', JStr k),
      (''version'', JInt (case versions (wdb w) p k of None \<Rightarrow> 1 | Some n \<Rightarrow> n + 1))])"
proof -
  from run obtain v pid w1 n c w2 ver where v: "json_body W (parse_set_secret W) req = Inr v"
    and sc: "scope_allows (at_scope token) p" "valid_project p" "valid_key k"
    and pid: "project_id p w = (Val (Some pid), w1)"
    and enc: "encrypt L K (str_bytes v) (aad_bytes p k) w1 = (Val (n, c), w2)"
    and up: "upsert_secret L pid k n c w2 = (Val ver, w')"
    and rsp: "rsp = respond 200 (JObj [(''key'', JStr k), (''version'', JInt ver)])"
    by (auto simp: put_secret_def bindP_Val_iff with_db_Val_iff scope_allows_def body_of_Val split: prod.splits)
  from pid have f: "find_project (wdb w) p = Some pid" and w1: "wdb w1 = wdb w"
    by (auto simp: project_id_def elim!: query_ValE)
  from enc have w2: "wdb w2 = wdb w" by (auto simp: encrypt_Val_iff w1)
  from v web have str: "is_str v" by (auto simp: web_ok_def dest: json_body_Inr)
  from upsert_secret_ValD [OF up] w2 obtain ts where
      w': "wdb w' = (wdb w)\<lparr>db_secrets := upsert_rows pid k n c ts (db_secrets (wdb w))\<rparr>"
    and ver: "ver = (case find_secret (wdb w) pid k of None \<Rightarrow> 1 | Some r \<Rightarrow> sr_version r + 1)" by auto
  have "vault L K (wdb w') = (vault L K (wdb w))(p \<mapsto> (the (vault L K (wdb w) p))(k \<mapsto> v))"
    unfolding w' by (rule vault_upsert [OF wf f box.unseal_seal [OF ok enc] str])
  moreover have "ver = (case versions (wdb w) p k of None \<Rightarrow> 1 | Some n \<Rightarrow> n + 1)"
    by (simp add: ver versions_def f split: option.splits)
  ultimately show ?thesis using v sc rsp f by (auto simp: vault_def)
qed

lemma delete_secret_ValD:
  assumes wf: "db_wf (wdb w)" and run: "delete_secret token p k w = (Val rsp, w')"
  shows "\<exists>m. vault L K (wdb w) p = Some m \<and> vault L K (wdb w') = (vault L K (wdb w))(p \<mapsto> m(k := None)) \<and>
    versions (wdb w) p k \<noteq> None \<and> versions (wdb w') p k = None \<and>
    scope_allows (at_scope token) p \<and> rsp = \<lparr>rs_status = 204, rs_body = None\<rparr>"
proof -
  from run obtain pid w1 n where sc: "scope_allows (at_scope token) p"
    and pid: "project_id p w = (Val (Some pid), w1)"
    and del: "sql (\<lambda>d. Inr (length (filter (row_at pid k) (db_secrets d)),
        d\<lparr>db_secrets := delete_rows pid k (db_secrets d)\<rparr>)) w1 = (Val n, w')" and n: "0 < n"
    and rsp: "rsp = \<lparr>rs_status = 204, rs_body = None\<rparr>"
    by (auto simp: delete_secret_def delete_secret_row_def bindP_Val_iff with_db_Val_iff scope_allows_def split: if_splits)
  from pid have f: "find_project (wdb w) p = Some pid" and w1: "wdb w1 = wdb w"
    by (auto simp: project_id_def elim!: query_ValE)
  from del w1 have w': "wdb w' = (wdb w)\<lparr>db_secrets := delete_rows pid k (db_secrets (wdb w))\<rparr>"
    and "n = length (filter (row_at pid k) (db_secrets (wdb w)))" by (auto elim!: sql_ValE)
  with n have "find_secret (wdb w) pid k \<noteq> None"
    by (auto simp: find_secret_def find_None_all filter_empty_conv)
  moreover have "find_secret (wdb w') pid k = None" by (simp add: w' find_secret_def find_delete_same)
  ultimately show ?thesis using vault_delete [OF wf f, of L K k] sc rsp f w'
    by (auto simp: vault_def versions_def)
qed

lemma create_project_ValD:
  assumes wf: "db_wf (wdb w)" and run: "create_project L W token req w = (Val rsp, w')"
  shows "\<exists>p. json_body W (parse_create_project W) req = Inr p \<and> valid_project p \<and> scope_allows (at_scope token) p \<and>
    vault L K (wdb w) p = None \<and> vault L K (wdb w') = (vault L K (wdb w))(p \<mapsto> Map.empty) \<and>
    rsp = respond 201 (JObj [(''name'', JStr p)])"
proof -
  from run obtain p w1 u where p: "json_body W (parse_create_project W) req = Inr p" "valid_project p"
      "scope_allows (at_scope token) p" and pid: "project_id p w = (Val None, w1)"
    and row: "create_project_row L p w1 = (Val u, w')" and rsp: "rsp = respond 201 (JObj [(''name'', JStr p)])"
    by (auto simp: create_project_def bindP_Val_iff with_db_Val_iff scope_allows_def body_of_Val)
  from pid have f: "find_project (wdb w) p = None" and w1: "wdb w1 = wdb w"
    by (auto simp: project_id_def elim!: query_ValE)
  from row obtain ts w2 where n: "now_rfc3339 L w1 = (Val ts :: (sql_error, string) outcome, w2)"
    and ins: "sql (insert_project p ts) w2 = (Val u, w')"
    by (simp add: create_project_row_def bindP_Val_iff) blast
  have "wdb w2 = wdb w1" by (rule keepsD' [OF keeps_now_rfc3339]) (simp, fact)
  with ins w1 have "insert_project p ts (wdb w) = Inr (u, wdb w')" by (auto elim!: sql_ValE)
  from vault_insert_project [OF wf this] p f rsp show ?thesis by (auto simp: vault_None_iff)
qed

lemma dom_vault: "dom (vault L K d) = pr_name ` set (db_projects d)"
  using find_project_None_iff [of d] by (auto simp: vault_def dom_def)

lemma list_projects_ValD:
  assumes wf: "db_wf (wdb w)" and run: "list_projects token w = (Val rsp, w')"
  shows "\<exists>ps. rsp = respond 200 (JObj [(''projects'', JArr (map project_json ps))]) \<and>
    map p_name ps = filter (scope_allows (at_scope token)) (sorted_list_of_set (dom (vault L K (wdb w)))) \<and> wdb w' = wdb w"
proof -
  let ?see = "\<lambda>p :: project. case at_scope token of Some s \<Rightarrow> s = p_name p | None \<Rightarrow> True"
  from run obtain rows where q: "list_projects_rows w = (Val rows, w')"
    and rsp: "rsp = respond 200 (JObj [(''projects'', JArr (map project_json (filter ?see rows)))])"
    by (auto simp: list_projects_def bindP_Val_iff with_db_Val_iff)
  from q have rows: "map p_name rows = map pr_name (sort_key pr_name (db_projects (wdb w)))" and w': "wdb w' = wdb w"
    by (auto simp: list_projects_rows_def elim!: query_ValE)
  have "map p_name rows = sorted_list_of_set (dom (vault L K (wdb w)))"
    unfolding rows
    by (rule sorted_distinct_set_unique) (use wf in \<open>auto simp: dom_vault db_wf_def projects_wf_def distinct_map\<close>)
  moreover have "map p_name (filter ?see rows) = filter (scope_allows (at_scope token)) (map p_name rows)"
    by (cases "at_scope token") (auto simp: filter_map comp_def scope_allows_def intro!: arg_cong [where f = "map p_name"] filter_cong)
  ultimately show ?thesis using rsp w' by (intro exI [of _ "filter ?see rows"]) simp
qed

text \<open>The token just issued admits its holder with the requested name and scope until it expires.\<close>

lemma insert_token_ValD:
  assumes "insert_token L name h sc e w = (Val u, w')"
  shows "\<exists>ts. wdb w' = (wdb w)\<lparr>db_tokens := db_tokens (wdb w) @ [new_token_row name h sc e ts (db_tokens (wdb w))]\<rparr>"
proof -
  from assms obtain ts w1 where n: "now_rfc3339 L w = (Val ts :: (sql_error, string) outcome, w1)"
    and ins: "sql (\<lambda>d. Inr ((), d\<lparr>db_tokens := db_tokens d @ [new_token_row name h sc e ts (db_tokens d)]\<rparr>)) w1 = (Val u, w')"
    by (simp add: insert_token_def bindP_Val_iff) blast
  have "wdb w1 = wdb w" by (rule keepsD' [OF keeps_now_rfc3339]) (simp, fact)
  with ins show ?thesis by (auto elim!: sql_ValE)
qed

lemma admits_new_token: "admits L now h (new_token_row name h' sc e ts rows) \<longleftrightarrow> unexpired L now e \<and> h' = h"
  by (auto simp: admits_def new_token_row_def active_def)

lemma identity_new_token: "identity_of (new_token_row name h sc e ts rows) = \<lparr>at_name = name, at_scope = sc\<rparr>"
  by (simp add: identity_of_def new_token_row_def)

text \<open>The instant a token requested now is meant to expire.\<close>

definition expiry_instant :: "int \<Rightarrow> create_token_body \<Rightarrow> int" where
  "expiry_instant now b = now + int (unat (case ct_ttl_days b of Some n \<Rightarrow> n | None \<Rightarrow> 90)) * 86400 * 10 ^ 9"

lemma token_expiry_ValD:
  assumes time: "time_ok L" and run: "token_expiry L b w = (Val e, w')"
  shows "if ct_no_expiry b then e = None
    else \<forall>now. unexpired L now e \<longleftrightarrow> now < expiry_instant (wclock w (wtick w)) b"
proof (cases "ct_no_expiry b")
  case False
  let ?n = "unat (case ct_ttl_days b of Some n \<Rightarrow> n | None \<Rightarrow> 90)"
  from run False obtain t w1 where t: "date_add_days L (wclock w (wtick w)) ?n = Some t"
    and "bindP (okOrP (Internal ''format token expiry'') (rfc3339_format L t)) (\<lambda>s. retP (Some s)) w1 = (Val e, w')"
    by (auto simp: token_expiry_def Let_def bindP_Val_iff [of now_utc] now_utc_Val_iff split: option.splits)
  then obtain s where s: "rfc3339_format L t = Some s" and e: "e = Some s" by (auto simp: bindP_Val_iff)
  from time t have "t = wclock w (wtick w) + int ?n * 86400 * 10 ^ 9" unfolding time_ok_def by blast
  moreover from time s have "rfc3339_parse L s = Some t" unfolding time_ok_def by blast
  ultimately show ?thesis using False by (simp add: unexpired_def e expiry_instant_def)
qed (use run in \<open>simp add: token_expiry_def\<close>)

lemma create_token_ValD:
  assumes time: "time_ok L" and run: "create_token L W token req w = (Val rsp, w')"
  shows "\<exists>b t e. json_body W (parse_create_token W) req = Inr b \<and> at_scope token = None \<and>
    rsp = respond 201 (JObj [(''name'', JStr (ct_name b)), (''scope'', opt_json (ct_project b)),
       (''expires_at'', opt_json e), (''token'', JStr t)]) \<and>
    (\<forall>now. ct_no_expiry b \<or> now < expiry_instant (wclock w (wtick w)) b \<longrightarrow>
      who L now (hash_token L t) (db_tokens (wdb w')) = Some \<lparr>at_name = ct_name b, at_scope = ct_project b\<rparr>)"
proof -
  from run obtain b e w1 t w2 u where b: "json_body W (parse_create_token W) req = Inr b" "at_scope token = None"
    and e: "token_expiry L b w = (Val e, w1)"
    and ins: "insert_token L (ct_name b) (hash_token L t) (ct_project b) e w2 = (Val u, w')"
    and rsp: "rsp = respond 201 (JObj [(''name'', JStr (ct_name b)), (''scope'', opt_json (ct_project b)),
       (''expires_at'', opt_json e), (''token'', JStr t)])"
    by (auto simp: create_token_def issue_token_def bindP_Val_iff with_db_Val_iff dest!: mint_token_ValD)
  from insert_token_ValD [OF ins] obtain ts where
    "db_tokens (wdb w') = db_tokens (wdb w2) @ [new_token_row (ct_name b) (hash_token L t) (ct_project b) e ts (db_tokens (wdb w2))]" by auto
  moreover have "unexpired L now e" if "ct_no_expiry b \<or> now < expiry_instant (wclock w (wtick w)) b" for now
    using token_expiry_ValD [OF time e] that by (auto simp: unexpired_def [of L _ None] split: if_splits)
  ultimately show ?thesis using b rsp by (auto simp: who_append admits_new_token identity_new_token)
qed

lemma revoke_token_ValD:
  assumes "revoke_token token name w = (Val rsp, w')"
  shows "at_scope token = None \<and> db_tokens (wdb w') = revoke_rows name (db_tokens (wdb w)) \<and>
    rsp = respond 200 (JObj [(''revoked'', JInt (int (length (filter (\<lambda>r. tk_name r = name \<and> active r) (db_tokens (wdb w))))))])"
  using assms
  by (auto simp: revoke_token_def revoke_token_rows_def bindP_Val_iff with_db_Val_iff elim!: sql_ValE)

section \<open>Healthy servers answer\<close>

lemma with_db_healthy: "healthy w \<Longrightarrow> with_db tag m w =
    (case m w of (Val x, w') \<Rightarrow> (Val x, w') | (Fail e, w') \<Rightarrow> (Fail e, w') | (Panic, w') \<Rightarrow> (Panic, w'\<lparr>poisoned := True\<rparr>))"
  by (simp add: with_db_def healthy_def)

lemma query_healthy: "healthy w \<Longrightarrow> mapErrP g (query f) w = (Val (f (wdb w)), w)"
  by (simp add: healthy_def mapErrP_def)

lemmas run_healthy = with_db_healthy query_healthy project_id_def list_secret_rows_def bindP_def
  ensure_scope_def okOrP_def liftP_def body_of_def

text \<open>Reading: every branch of the handler.\<close>

lemma get_secrets_answer:
  assumes h: "healthy w" and wf: "db_wf (wdb w)" and rd: "readable L K (wdb w)"
  shows "if \<not> valid_project p then get_secrets L K token p w = (Fail (BadRequest ''invalid project name''), w)
     else if \<not> scope_allows (at_scope token) p then get_secrets L K token p w = (Fail Forbidden, w)
     else case vault L K (wdb w) p of
       None \<Rightarrow> get_secrets L K token p w = (Fail NotFound, w)
     | Some m \<Rightarrow> (\<exists>l. bt_inv l \<and> map_of l = m \<and> get_secrets L K token p w = (Val (respond 200 (secrets_json l)), w))"
proof (cases "valid_project p \<and> scope_allows (at_scope token) p")
  case False
  then show ?thesis
    by (auto simp: get_secrets_def run_healthy scope_allows_def split: option.splits)
next
  case True
  then have sc: "ensure_scope token p = Inr ()" by (simp add: scope_allows_def)
  show ?thesis
  proof (cases "find_project (wdb w) p")
    case None
    with True sc h show ?thesis by (simp add: get_secrets_def run_healthy vault_def)
  next
    case (Some pid)
    from open_rows_readable [OF rd wf Some] obtain m where m: "open_rows L K p (secret_rows_of (wdb w) pid) [] = Inr m" ..
    from open_rows_vault [OF wf Some m] have inv: "bt_inv m" and v: "vault L K (wdb w) p = Some (map_of m)" by auto
    with True sc h Some m show ?thesis by (auto simp: get_secrets_def run_healthy)
  qed
qed

lemma now_rfc3339_ok:
  "rfc3339_format L (wclock w (wtick w)) = Some ts \<Longrightarrow> now_rfc3339 L w = (Val ts, w\<lparr>wtick := Suc (wtick w)\<rparr>)"
  by (simp add: now_rfc3339_def bindP_def now_utc_def)

text \<open>Storing never fails for a reason of the program's own.\<close>

lemma put_secret_answer:
  assumes h: "healthy w" and ok: "aead_ok L" "key_ok K" and e: "24 \<le> length (entropy w)"
    and time: "rfc3339_format L (wclock w (wtick w)) = Some ts"
    and names: "valid_project p" "valid_key k" "scope_allows (at_scope token) p"
    and body: "json_body W (parse_set_secret W) req = Inr v" "length v < 2 ^ 32"
    and pid: "find_project (wdb w) p = Some pid"
  shows "\<exists>rsp w'. put_secret L W K token p k req w = (Val rsp, w') \<and> healthy w'"
proof -
  let ?w1 = "w\<lparr>entropy := drop 24 (entropy w)\<rparr>"
  from body(2) have "length (str_bytes v) < 2 ^ 32" by simp
  from encrypt_succeeds [OF ok e this] obtain c where
    enc: "encrypt L K (str_bytes v) (aad_bytes p k) w = (Val (take 24 (entropy w), c), ?w1)" .
  from names have sc: "ensure_scope token p = Inr ()" by (simp add: scope_allows_def)
  from find_project_SomeD [OF pid] have "pid \<in> pr_id ` set (db_projects (wdb w))" by auto
  then have up: "\<exists>ver w'. upsert_secret L pid k (take 24 (entropy w)) c ?w1 = (Val ver, w') \<and> wio w' = [] \<and> \<not> poisoned w'"
    using h time unfolding upsert_secret_def
    by (auto simp: bindP_def now_rfc3339_ok sql_def Let_def upsert_stmt_def find_secret_def find_upsert_same healthy_def)
  from up obtain ver w' where "upsert_secret L pid k (take 24 (entropy w)) c ?w1 = (Val ver, w')" "wio w' = []" "\<not> poisoned w'" by blast
  with enc sc names body pid h show ?thesis
    by (simp add: put_secret_def run_healthy mapErrP_def healthy_def)
qed

end
