(* ===== verification/App.thy ===== *)
theory App
  imports AuditLog Answers
begin

text \<open>
  The router (\<open>crates/secrets-server/src/app.rs\<close>) and one request through the service: the
  route table, method dispatch, extraction of the token before the path parameters, the
  handler, the error response, and the audit layer around every route, the fallback
  included. A panic ends the request without a response or an audit record.
\<close>

section \<open>Routes\<close>

datatype route =
    RHealth
  | RProjects
  | RSecrets string
  | RSecret string string
  | RTokens
  | RToken string

text \<open>A template segment in braces matches one non-empty segment of the raw path.\<close>

definition match_route :: "string \<Rightarrow> route option" where
  "match_route path =
     (let s = split_slash path in
      if s = [[], ''v1'', ''health''] then Some RHealth
      else if s = [[], ''v1'', ''projects''] then Some RProjects
      else if length s = 5 \<and> take 3 s = [[], ''v1'', ''projects''] \<and> s ! 4 = ''secrets'' \<and> s ! 3 \<noteq> []
        then Some (RSecrets (s ! 3))
      else if length s = 6 \<and> take 3 s = [[], ''v1'', ''projects''] \<and> s ! 4 = ''secrets'' \<and> s ! 3 \<noteq> [] \<and> s ! 5 \<noteq> []
        then Some (RSecret (s ! 3) (s ! 5))
      else if s = [[], ''v1'', ''tokens''] then Some RTokens
      else if length s = 4 \<and> take 3 s = [[], ''v1'', ''tokens''] \<and> s ! 3 \<noteq> [] then Some (RToken (s ! 3))
      else None)"

fun template :: "route \<Rightarrow> string" where
  "template RHealth = ''/v1/health''"
| "template RProjects = ''/v1/projects''"
| "template (RSecrets name) = ''/v1/projects/{name}/secrets''"
| "template (RSecret name key) = ''/v1/projects/{name}/secrets/{key}''"
| "template RTokens = ''/v1/tokens''"
| "template (RToken name) = ''/v1/tokens/{name}''"

section \<open>Dispatch\<close>

text \<open>The framework's own answers: no route and no method have no body, a path parameter that does
  not decode is named in a text.\<close>

definition plain_status :: "nat \<Rightarrow> response" where
  "plain_status n = \<lparr>rs_status = n, rs_body = None\<rparr>"

definition path_rejected :: "web \<Rightarrow> string \<Rightarrow> response" where
  "path_rejected W param = \<lparr>rs_status = 400, rs_body = Some (TextBody (path_rejection W param))\<rparr>"

text \<open>\<open>IntoResponse\<close> for the result of a handler.\<close>

definition into_response :: "('s, app_error, response) proc \<Rightarrow> ('s, app_error, response) proc" where
  "into_response m = (\<lambda>w. case m w of
     (Val r, w') \<Rightarrow> (Val r, w')
   | (Fail e, w') \<Rightarrow> (Val (error_response e), w')
   | (Panic, w') \<Rightarrow> (Panic, w'))"

text \<open>\<open>Path<..>\<close> on the captured parameters in the order of the template: the first segment that
  does not decode to UTF-8 is answered 400.\<close>

definition with_path :: "web \<Rightarrow> (string \<times> string) list \<Rightarrow> (string list \<Rightarrow> ('s, app_error, response) proc) \<Rightarrow> ('s, app_error, response) proc" where
  "with_path W segs f = (case find (\<lambda>(param, s). path_decode W s = None) segs of
     Some (param, s) \<Rightarrow> retP (path_rejected W param)
   | None \<Rightarrow> f (map (\<lambda>(param, s). the (path_decode W s)) segs))"

text \<open>The handlers behind a route and a method; \<open>None\<close> is 405. \<open>get\<close> also serves \<open>HEAD\<close>.\<close>

fun endpoint ::
    "lib \<Rightarrow> web \<Rightarrow> master_key \<Rightarrow> request \<Rightarrow> route \<Rightarrow> http_method \<Rightarrow>
     (authed_token \<Rightarrow> ('m server_scheme, app_error, response) proc) option" where
  "endpoint L W K req RProjects GET = Some list_projects"
| "endpoint L W K req RProjects HEAD = Some list_projects"
| "endpoint L W K req RProjects POST = Some (\<lambda>t. create_project L W t req)"
| "endpoint L W K req (RSecrets name) GET = Some (\<lambda>t. with_path W [(''name'', name)] (\<lambda>p. get_secrets L K t (p ! 0)))"
| "endpoint L W K req (RSecrets name) HEAD = Some (\<lambda>t. with_path W [(''name'', name)] (\<lambda>p. get_secrets L K t (p ! 0)))"
| "endpoint L W K req (RSecret name key) PUT = Some (\<lambda>t. with_path W [(''name'', name), (''key'', key)] (\<lambda>p. put_secret L W K t (p ! 0) (p ! 1) req))"
| "endpoint L W K req (RSecret name key) DELETE = Some (\<lambda>t. with_path W [(''name'', name), (''key'', key)] (\<lambda>p. delete_secret t (p ! 0) (p ! 1)))"
| "endpoint L W K req RTokens GET = Some list_tokens"
| "endpoint L W K req RTokens HEAD = Some list_tokens"
| "endpoint L W K req RTokens POST = Some (\<lambda>t. create_token L W t req)"
| "endpoint L W K req (RToken name) DELETE = Some (\<lambda>t. with_path W [(''name'', name)] (\<lambda>p. revoke_token t (p ! 0)))"
| "endpoint L W K req _ _ = None"

text \<open>A handler that asks for an \<open>AuthedToken\<close> runs only once the token was accepted.\<close>

definition authed :: "lib \<Rightarrow> web \<Rightarrow> request \<Rightarrow> (authed_token \<Rightarrow> ('m server_scheme, app_error, response) proc) \<Rightarrow>
     ('m server_scheme, app_error, response) proc" where
  "authed L W req h = into_response (bindP (from_request_parts L W (rq_auth req)) h)"

definition serve_route :: "lib \<Rightarrow> web \<Rightarrow> master_key \<Rightarrow> request \<Rightarrow> route \<Rightarrow> ('m server_scheme, app_error, response) proc" where
  "serve_route L W K req r =
     (if r = RHealth then (if rq_method req \<in> {GET, HEAD} then retP health else retP (plain_status 405))
      else case endpoint L W K req r (rq_method req) of
        None \<Rightarrow> retP (plain_status 405)
      | Some h \<Rightarrow> authed L W req h)"

definition strip_head :: "request \<Rightarrow> response \<Rightarrow> response" where
  "strip_head req rsp = (if rq_method req = HEAD then rsp\<lparr>rs_body := None\<rparr> else rsp)"

text \<open>One request through the router.\<close>

definition handle :: "lib \<Rightarrow> web \<Rightarrow> master_key \<Rightarrow> request \<Rightarrow> ('m server_scheme, app_error, response) proc" where
  "handle L W K req =
     (let matched = match_route (rq_path req) in
      audit_middleware L W (map_option template matched) req
        (bindP (case matched of None \<Rightarrow> retP (plain_status 404) | Some r \<Rightarrow> serve_route L W K req r)
           (\<lambda>rsp. retP (strip_head req rsp))))"

section \<open>Facts about a request\<close>

text \<open>The token a request presents is accepted at some instant of the clock.\<close>

definition accepted :: "lib \<Rightarrow> web \<Rightarrow> request \<Rightarrow> (nat \<Rightarrow> int) \<Rightarrow> database \<Rightarrow> authed_token \<Rightarrow> bool" where
  "accepted L W req clk d a \<longleftrightarrow> (\<exists>t n. extract_bearer W (rq_auth req) = Some t \<and>
     who L (clk n) (hash_token L t) (db_tokens d) = Some a)"

lemma from_request_ValD:
  assumes "ct_ok L" and "from_request_parts L W (rq_auth req) w = (Val a, w')"
  shows "accepted L W req (wclock w) (wdb w) a \<and> wdb w' = wdb w"
  using assms(2)
  by (auto simp: from_request_parts_def bindP_Val_iff with_db_Val_iff authenticate_Val_iff [OF assms(1)] accepted_def)

text \<open>What a request may do to the tables.\<close>

definition request_change ::
    "lib \<Rightarrow> web \<Rightarrow> master_key \<Rightarrow> request \<Rightarrow> (nat \<Rightarrow> int) \<Rightarrow> database \<Rightarrow> database \<Rightarrow> bool" where
  "request_change L W K req clk d d' \<longleftrightarrow>
     d' = d \<or> (\<exists>a. accepted L W req clk d a \<and> api_change L K (at_scope a) d d')"

lemma request_change_refl: "request_change L W K req clk d d"
  by (simp add: request_change_def)

lemma changes_into_response [simp]: "changes R (into_response m) w = changes R m w"
  by (auto simp: changes_def into_response_def split: prod.splits outcome.splits)

lemma changes_mono: "changes R m w \<Longrightarrow> (\<And>d'. R (wdb w) d' \<Longrightarrow> S (wdb w) d') \<Longrightarrow> changes S m w"
  by (simp add: changes_def)

lemma changes_with_path:
  "(\<And>p. changes (api_change L K s) (f p) w) \<Longrightarrow> changes (api_change L K s) (with_path W segs f) w"
  by (simp add: with_path_def changes_keeps frame api_change.unchanged split: option.split prod.split)

lemma endpoint_change:
  assumes "aead_ok L" and "web_ok W" and "endpoint L W K req r m = Some h"
  shows "changes (api_change L K (at_scope a)) (h a) w"
  using assms(3)
  by (cases "(L, W, K, req, r, m)" rule: endpoint.cases)
    (auto intro!: changes_with_path put_secret_change assms(1,2) create_project_change delete_secret_change
      create_token_change revoke_token_change
      intro: changes_keeps [OF api_change.unchanged] list_projects_keeps list_tokens_keeps get_secrets_keeps)

lemma authed_change:
  assumes "ct_ok L" and "\<And>a w. changes (api_change L K (at_scope a)) (h a) w"
  shows "changes (request_change L W K req (wclock w)) (authed L W req h) w"
  unfolding authed_def changes_into_response
proof (rule changes_read [OF request_change_refl])
  show "keeps wdb (from_request_parts L W (rq_auth req))" by (rule keeps_from_request_parts) simp_all
next
  fix a w'
  assume run: "from_request_parts L W (rq_auth req) w = (Val a, w')" and w': "wdb w' = wdb w"
  have "accepted L W req (wclock w) (wdb w') a" using from_request_ValD [OF assms(1) run] by simp
  then show "changes (request_change L W K req (wclock w)) (h a) w'"
    by (intro changes_mono [OF assms(2)]) (auto simp: request_change_def)
qed

lemma serve_route_change:
  fixes w :: "'m server_scheme"
  assumes "aead_ok L" and "ct_ok L" and "web_ok W"
  shows "changes (request_change L W K req (wclock w)) (serve_route L W K req r) w"
proof (cases "r = RHealth")
  case True
  then show ?thesis
    by (simp add: serve_route_def) (intro conjI impI changes_keeps request_change_refl frame)
next
  case False
  show ?thesis
  proof (cases "endpoint L W K req r (rq_method req) :: (authed_token \<Rightarrow> ('m server_scheme, app_error, response) proc) option")
    case None
    with False show ?thesis by (simp add: serve_route_def changes_keeps request_change_refl frame)
  next
    case (Some h)
    with False show ?thesis using authed_change [OF assms(2) endpoint_change [OF assms(1,3) Some]]
      by (simp add: serve_route_def)
  qed
qed

lemma handle_change:
  assumes "aead_ok L" and "ct_ok L" and "web_ok W"
  shows "changes (request_change L W K req (wclock w)) (handle L W K req) w"
  unfolding handle_def audit_middleware_def Let_def
proof (rule changes_read [OF request_change_refl])
  show "keeps wdb (resolve_token_name L W (rq_auth req))"
    by (rule keeps_resolve_token_name) simp_all
next
  fix name w1
  assume run: "resolve_token_name L W (rq_auth req) w = (Val name, w1)" and w1: "wdb w1 = wdb w"
  have clk: "wclock w1 = wclock w"
    by (rule keepsD' [OF keeps_resolve_token_name run]) simp_all
  show "changes (request_change L W K req (wclock w))
     (bindP (bindP (case match_route (rq_path req) of None \<Rightarrow> retP (plain_status 404) | Some r \<Rightarrow> serve_route L W K req r)
        (\<lambda>rsp. retP (strip_head req rsp)))
      (\<lambda>rsp. bindP (audit_record L (rq_method req)
          (case map_option template (match_route (rq_path req)) of None \<Rightarrow> ''(unmatched)'' | Some t \<Rightarrow> t)
          (logged_project (map_option template (match_route (rq_path req))) (rq_path req)) name (rs_status rsp))
        (\<lambda>_. retP rsp))) w1"
    using serve_route_change [OF assms, where w = w1]
    by (intro changes_then frame keeps_audit_record)
      (auto simp: clk split: option.splits intro: changes_keeps request_change_refl frame)
qed

end
