(* ===== verification/Rekey.thy ===== *)
theory Rekey
  imports CryptoState
begin

text \<open>
  What rekeying does to the database (\<open>rekey\<close> of \<open>crypto_state.rs\<close>): the loop over the
  rows as one simultaneous replacement of ciphertexts, and the theorems on the whole
  operation: all or nothing under every pattern of statement failures, and on success every
  secret readable under the new key exactly as it was under the old one.
\<close>

section \<open>The loop as one replacement\<close>

definition recipher :: "(int \<rightharpoonup> byte list \<times> byte list) \<Rightarrow> secret_row \<Rightarrow> secret_row" where
  "recipher F r = (case F (sr_id r) of None \<Rightarrow> r | Some (n, c) \<Rightarrow> r\<lparr>sr_nonce := n, sr_ciphertext := c\<rparr>)"

lemma recipher_fields [simp]:
  "sr_id (recipher F r) = sr_id r" "sr_project_id (recipher F r) = sr_project_id r"
  "sr_key (recipher F r) = sr_key r" "sr_version (recipher F r) = sr_version r"
  "sr_updated_at (recipher F r) = sr_updated_at r"
  by (simp_all add: recipher_def split: option.splits prod.splits)

lemma recipher_compose: "i \<notin> dom F \<Longrightarrow> recipher F (recipher [i \<mapsto> x] r) = recipher (F(i \<mapsto> x)) r"
  by (auto simp: recipher_def split: option.splits prod.splits)

lemma recipher_empty [simp]: "recipher Map.empty r = r"
  by (simp add: recipher_def)

lemma update_cipher_recipher:
  "update_cipher i n c d = d\<lparr>db_secrets := map (recipher [i \<mapsto> (n, c)]) (db_secrets d)\<rparr>"
  by (auto simp: update_cipher_def recipher_def)

definition item_opens :: "lib \<Rightarrow> master_key \<Rightarrow> rekey_item \<Rightarrow> byte list \<Rightarrow> bool" where
  "item_opens L key it pt \<longleftrightarrow> decrypt L key (ri_nonce it) (ri_ciphertext it) (aad_bytes (ri_project it) (ri_key it)) = Inr pt"

definition moved :: "lib \<Rightarrow> master_key \<Rightarrow> master_key \<Rightarrow> (int \<rightharpoonup> byte list \<times> byte list) \<Rightarrow> rekey_item \<Rightarrow> bool" where
  "moved L old_key new_key F it \<longleftrightarrow> (\<exists>n c pt. F (ri_id it) = Some (n, c) \<and> item_opens L old_key it pt \<and>
     decrypt L new_key n c (aad_bytes (ri_project it) (ri_key it)) = Inr pt)"

lemma rekey_rows_ValD:
  assumes "aead_ok L" and "rekey_rows L old_key new_key items w = (Val u, w')" and "distinct (map ri_id items)"
  shows "\<exists>F. dom F = ri_id ` set items \<and> (\<forall>it \<in> set items. moved L old_key new_key F it) \<and>
    wdb w' = (wdb w)\<lparr>db_secrets := map (recipher F) (db_secrets (wdb w))\<rparr>"
  using assms(2,3)
proof (induction items arbitrary: w)
  case Nil
  then show ?case by (intro exI [of _ Map.empty]) auto
next
  case (Cons it items)
  let ?aad = "aad_bytes (ri_project it) (ri_key it)"
  from Cons.prems(1) obtain pt n c w1 w2 where
      dec: "decrypt L old_key (ri_nonce it) (ri_ciphertext it) ?aad = Inr pt"
    and enc: "encrypt L new_key pt ?aad w = (Val (n, c), w1)"
    and upd: "sql (\<lambda>d. Inr ((), update_cipher (ri_id it) n c d)) w1 = (Val (), w2)"
    and rest: "rekey_rows L old_key new_key items w2 = (Val u, w')"
    by (auto simp: Let_def bindP_Val_iff split: prod.splits)
  from enc have w1: "wdb w1 = wdb w" by (auto simp: encrypt_Val_iff)
  from upd w1 have w2: "wdb w2 = update_cipher (ri_id it) n c (wdb w)" by (auto elim!: sql_ValE)
  from Cons.IH [OF rest] Cons.prems(2) obtain F where dom: "dom F = ri_id ` set items"
    and mv: "\<forall>it \<in> set items. moved L old_key new_key F it"
    and w': "wdb w' = (wdb w2)\<lparr>db_secrets := map (recipher F) (db_secrets (wdb w2))\<rparr>" by auto
  have fresh: "ri_id it \<notin> dom F" using dom Cons.prems(2) by auto
  have "moved L old_key new_key (F(ri_id it \<mapsto> (n, c))) it"
    using dec box.unseal_seal [OF assms(1) enc] by (simp add: moved_def item_opens_def)
  moreover have "moved L old_key new_key (F(ri_id it \<mapsto> (n, c))) jt" if "jt \<in> set items" for jt
  proof -
    have "ri_id jt \<noteq> ri_id it" using that Cons.prems(2) by (auto simp: image_iff)
    with mv that show ?thesis by (simp add: moved_def)
  qed
  moreover have "wdb w' = (wdb w)\<lparr>db_secrets := map (recipher (F(ri_id it \<mapsto> (n, c)))) (db_secrets (wdb w))\<rparr>"
    using fresh by (simp add: w' w2 update_cipher_recipher recipher_compose)
  moreover have "dom (F(ri_id it \<mapsto> (n, c))) = ri_id ` set (it # items)" using dom by simp
  ultimately show ?case
    by (intro exI [of _ "F(ri_id it \<mapsto> (n, c))"]) (simp del: fun_upd_apply)
qed

section \<open>The rows the loop sees\<close>

lemma project_of_row_Some: "db_wf d \<Longrightarrow> r \<in> set (db_secrets d) \<Longrightarrow> \<exists>p. project_of_row d r = Some p"
proof -
  assume "db_wf d" and "r \<in> set (db_secrets d)"
  then have "sr_project_id r \<in> pr_id ` set (db_projects d)" by (auto simp: db_wf_def)
  then have "find (\<lambda>p. pr_id p = sr_project_id r) (db_projects d) \<noteq> None"
    by (auto simp: find_None_all)
  then show ?thesis by (auto simp: project_of_row_def)
qed

definition item_of :: "database \<Rightarrow> secret_row \<Rightarrow> rekey_item" where
  "item_of d r = \<lparr>ri_id = sr_id r, ri_project = the (project_of_row d r), ri_key = sr_key r,
     ri_nonce = sr_nonce r, ri_ciphertext = sr_ciphertext r\<rparr>"

lemma rekey_items_eq: "db_wf d \<Longrightarrow> rekey_items d = map (item_of d) (sort_key sr_id (db_secrets d))"
proof -
  assume wf: "db_wf d"
  have "concat (map (\<lambda>r. case project_of_row d r of None \<Rightarrow> []
      | Some p \<Rightarrow> [\<lparr>ri_id = sr_id r, ri_project = p, ri_key = sr_key r, ri_nonce = sr_nonce r,
                    ri_ciphertext = sr_ciphertext r\<rparr>]) rows) = map (item_of d) rows"
    if "set rows \<subseteq> set (db_secrets d)" for rows
    using that
  proof (induction rows)
    case (Cons r rows)
    with project_of_row_Some [OF wf, of r] show ?case by (auto simp: item_of_def)
  qed simp
  then show ?thesis by (simp add: rekey_items_def)
qed

lemma rekey_items_ids: "db_wf d \<Longrightarrow> distinct (map ri_id (rekey_items d))"
  by (simp add: rekey_items_eq comp_def item_of_def db_wf_def secrets_wf_def distinct_map)

lemma length_rekey_items: "db_wf d \<Longrightarrow> length (rekey_items d) = length (db_secrets d)"
  by (simp add: rekey_items_eq)

text \<open>What a stored row contains for the holder of a key.\<close>

definition row_plaintext :: "lib \<Rightarrow> master_key \<Rightarrow> database \<Rightarrow> secret_row \<Rightarrow> byte list option" where
  "row_plaintext L key d r = (case project_of_row d r of
     None \<Rightarrow> None
   | Some p \<Rightarrow> (case decrypt L key (sr_nonce r) (sr_ciphertext r) (aad_bytes p (sr_key r)) of
       Inl e \<Rightarrow> None | Inr pt \<Rightarrow> Some pt))"

text \<open>The same row under another key: identity, version and timestamp kept, same plaintext.\<close>

definition same_secret ::
    "lib \<Rightarrow> master_key \<Rightarrow> database \<Rightarrow> master_key \<Rightarrow> database \<Rightarrow> secret_row \<Rightarrow> secret_row \<Rightarrow> bool" where
  "same_secret L k d k' d' r r' \<longleftrightarrow>
     sr_id r' = sr_id r \<and> sr_project_id r' = sr_project_id r \<and> sr_key r' = sr_key r \<and>
     sr_version r' = sr_version r \<and> sr_updated_at r' = sr_updated_at r \<and>
     row_plaintext L k d r \<noteq> None \<and> row_plaintext L k' d' r' = row_plaintext L k d r"

lemma moved_row:
  assumes "r \<in> set (db_secrets d)" and "db_wf d" and "moved L k k' F (item_of d r)"
    and "db_projects d' = db_projects d"
  shows "same_secret L k d k' d' r (recipher F r)"
proof -
  from project_of_row_Some [OF assms(2,1)] obtain p where p: "project_of_row d r = Some p" by blast
  with assms(4) have p': "project_of_row d' (recipher F r) = Some p" by (simp add: project_of_row_def)
  from assms(3) p obtain n c pt where F: "F (sr_id r) = Some (n, c)"
    and old: "decrypt L k (sr_nonce r) (sr_ciphertext r) (aad_bytes p (sr_key r)) = Inr pt"
    and new: "decrypt L k' n c (aad_bytes p (sr_key r)) = Inr pt"
    by (auto simp: moved_def item_opens_def item_of_def)
  from F have "recipher F r = r\<lparr>sr_nonce := n, sr_ciphertext := c\<rparr>" by (simp add: recipher_def)
  with p p' old new show ?thesis by (simp add: same_secret_def row_plaintext_def)
qed

section \<open>The transaction\<close>

lemma rekey_tx_ValD:
  assumes ok: "aead_ok L" and wf: "db_wf (wdb w)" and ps: "validate_kdf_params ps = Inr ()"
    and key: "derive_key L new salt ps = Inr new_key"
    and run: "rekey_tx L old_key new_key salt ps w = (Val n, w')"
  shows "n = length (db_secrets (wdb w)) \<and> verified_key L new (wdb w') new_key \<and>
    db_projects (wdb w') = db_projects (wdb w) \<and> db_tokens (wdb w') = db_tokens (wdb w) \<and>
    list_all2 (same_secret L old_key (wdb w) new_key (wdb w')) (db_secrets (wdb w)) (db_secrets (wdb w'))"
proof -
  let ?d = "wdb w"
  from run obtain rows w1 w2 vn vc w3 where q: "query rekey_items w = (Val rows, w1)"
    and loop': "rekey_rows L old_key new_key rows w1 = (Val (), w2)"
    and enc: "encrypt L new_key SENTINEL verifier_aad w2 = (Val (vn, vc), w3)"
    and st: "store_metadata salt ps vn vc w3 = (Val (), w')" and n': "n = length rows"
    by (auto simp: rekey_tx_def bindP_Val_iff split: prod.splits)
  from q have rows: "rows = rekey_items ?d" and w1: "wdb w1 = ?d" by (auto elim: query_ValE)
  note loop = loop' [unfolded rows] and n = n' [unfolded rows]
  from enc have w3: "wdb w3 = wdb w2" by (auto simp: encrypt_Val_iff)
  from rekey_rows_ValD [OF ok loop rekey_items_ids [OF wf]] w1 obtain F where
      mv: "\<forall>it \<in> set (rekey_items ?d). moved L old_key new_key F it"
    and w2: "wdb w2 = ?d\<lparr>db_secrets := map (recipher F) (db_secrets ?d)\<rparr>" by auto
  from st have w': "wdb w' = (wdb w3)\<lparr>db_meta := fold (\<lambda>(k, v). AList.update k v) (metadata_entries salt ps vn vc) (db_meta (wdb w3))\<rparr>"
    by (rule store_metadata_ValE)
  have "same_secret L old_key ?d new_key (wdb w') r (recipher F r)" if "r \<in> set (db_secrets ?d)" for r
    using that mv by (intro moved_row wf) (auto simp: rekey_items_eq [OF wf] w' w3 w2)
  then have "list_all2 (same_secret L old_key ?d new_key (wdb w')) (db_secrets ?d) (db_secrets (wdb w'))"
    by (simp add: w' w3 w2 list_all2_conv_all_nth)
  then show ?thesis
    using n length_rekey_items [OF wf] stored_key_verifies [OF ok ps key enc w'] by (simp add: w' w3 w2)
qed

text \<open>The steps before the transaction: they read the old key and never write.\<close>

definition read_old_key :: "lib \<Rightarrow> string \<Rightarrow> ('m world_scheme, anyhow_error, master_key) proc" where
  "read_old_key L current = bindP (mapErrP EDatabase (get_meta K_SALT)) (\<lambda>s. case s of
     Some salt \<Rightarrow> verify L current salt | None \<Rightarrow> throwP EUninitialized)"

lemma keeps_read_old_key: "keeps wdb (read_old_key L current)"
  unfolding read_old_key_def by (intro frame keeps_get_meta keeps_verify) auto

lemma read_old_key_ValD:
  assumes "read_old_key L current w = (Val key, w')"
  shows "verified_key L current (wdb w) key \<and> wdb w' = wdb w"
proof -
  from assms obtain s w0 where g: "get_meta K_SALT w = (Val s, w0)"
    and c: "(case s of Some salt \<Rightarrow> verify L current salt | None \<Rightarrow> throwP EUninitialized) w0 = (Val key, w')"
    by (auto simp: read_old_key_def bindP_Val_iff)
  from c obtain salt where s: "s = Some salt" and v: "verify L current salt w0 = (Val key, w')"
    by (cases s) auto
  from g s have "wdb w0 = wdb w" and "map_of (db_meta (wdb w0)) K_SALT = Some salt"
    by (auto simp: get_meta_Val_iff)
  with verify_ValD [OF v] show ?thesis by simp
qed

lemma rekey_with_params_eq:
  "rekey_with_params L current new ps =
     (if current = new then throwP ESamePassphrase else
      bindP (read_old_key L current) (\<lambda>old_key.
      bindP generate_salt (\<lambda>new_salt.
      bindP (mapErrP ECrypto (liftP (derive_key L new new_salt ps))) (\<lambda>new_key.
      with_tx EDatabase (rekey_tx L old_key new_key new_salt ps)))))"
  by (simp add: rekey_with_params_def read_old_key_def)

lemma keeps_generate_salt: "keeps wdb generate_salt"
  unfolding generate_salt_def by (rule keeps_fill_bytes) simp

lemma rekey_with_params_ValE:
  assumes "rekey_with_params L current new ps w = (Val n, w')"
  obtains old_key salt new_key w1 where "current \<noteq> new"
    and "verified_key L current (wdb w) old_key" and "derive_key L new salt ps = Inr new_key"
    and "wdb w1 = wdb w" and "with_tx EDatabase (rekey_tx L old_key new_key salt ps) w1 = (Val n, w')"
proof -
  from assms have ne: "current \<noteq> new" by (auto simp: rekey_with_params_eq)
  with assms obtain old_key w1 salt w2 new_key where r: "read_old_key L current w = (Val old_key, w1)"
    and g: "generate_salt w1 = (Val salt :: (anyhow_error, byte list) outcome, w2)"
    and k: "derive_key L new salt ps = Inr new_key"
    and tx: "with_tx EDatabase (rekey_tx L old_key new_key salt ps) w2 = (Val n, w')"
    by (simp add: rekey_with_params_eq bindP_Val_iff) blast
  from keepsD' [OF keeps_generate_salt g] read_old_key_ValD [OF r] have "wdb w2 = wdb w" by simp
  with that [OF ne _ k _ tx] read_old_key_ValD [OF r] show thesis by blast
qed

lemma with_tx_unless_Val:
  "(\<exists>x. fst (with_tx lift body w) = Val x) \<or> wdb (snd (with_tx lift body w)) = wdb w"
proof (cases "with_tx lift body w")
  case (Pair r w')
  with with_tx_rollback [OF this] show ?thesis by auto
qed

lemma bindP_unless_Val:
  assumes "keeps f m" and "\<And>x s. (\<exists>y. fst (g x s) = Val y) \<or> f (snd (g x s)) = f s"
  shows "(\<exists>y. fst (bindP m g s) = Val y) \<or> f (snd (bindP m g s)) = f s"
proof (cases "m s")
  case (Pair r s1)
  with keepsD' [OF assms(1) Pair] assms(2) show ?thesis
    by (cases r) (metis bindP_step, simp_all add: bindP_def)
qed

lemma rekey_rollback_lemma:
  "(\<exists>n. fst (rekey_with_params L current new ps w) = Val n) \<or>
   wdb (snd (rekey_with_params L current new ps w)) = wdb w"
proof (cases "current = new")
  case True
  then show ?thesis by (simp add: rekey_with_params_eq)
next
  case False
  then show ?thesis unfolding rekey_with_params_eq if_not_P [OF False]
    by (intro bindP_unless_Val keeps_read_old_key keeps_generate_salt keeps_mapErrP keeps_liftP with_tx_unless_Val)
qed

section \<open>Rekeying succeeds\<close>

definition opens_short :: "lib \<Rightarrow> master_key \<Rightarrow> rekey_item \<Rightarrow> bool" where
  "opens_short L key it \<longleftrightarrow> (\<exists>pt. item_opens L key it pt \<and> length pt < 2 ^ 32)"

lemma rekey_rows_succeeds:
  assumes "aead_ok L" and "key_ok new_key"
  shows "wio w = [] \<Longrightarrow> \<forall>it \<in> set items. opens_short L old_key it \<Longrightarrow> 24 * length items \<le> length (entropy w) \<Longrightarrow>
    \<exists>w'. rekey_rows L old_key new_key items w = (Val (), w') \<and> wio w' = [] \<and>
      length (entropy w') = length (entropy w) - 24 * length items"
proof (induction items arbitrary: w)
  case (Cons it items)
  let ?aad = "aad_bytes (ri_project it) (ri_key it)"
  from Cons.prems(2) obtain pt where pt: "decrypt L old_key (ri_nonce it) (ri_ciphertext it) ?aad = Inr pt" "length pt < 2 ^ 32"
    by (auto simp: opens_short_def item_opens_def)
  have "24 \<le> length (entropy w)" using Cons.prems(3) by simp
  from encrypt_succeeds [OF assms this pt(2)] obtain c where
    enc: "encrypt L new_key pt ?aad w = (Val (take 24 (entropy w), c), w\<lparr>entropy := drop 24 (entropy w)\<rparr>)" .
  let ?w = "w\<lparr>entropy := drop 24 (entropy w), wdb := update_cipher (ri_id it) (take 24 (entropy w)) c (wdb w)\<rparr>"
  have upd: "sql (\<lambda>d. Inr ((), update_cipher (ri_id it) (take 24 (entropy w)) c d)) (w\<lparr>entropy := drop 24 (entropy w)\<rparr>) = (Val (), ?w)"
    using Cons.prems(1) by (simp add: sql_def)
  have "\<exists>w'. rekey_rows L old_key new_key items ?w = (Val (), w') \<and> wio w' = [] \<and>
      length (entropy w') = length (entropy ?w) - 24 * length items"
    using Cons.prems by (intro Cons.IH) auto
  with pt enc upd show ?case by (auto simp: Let_def bindP_def mapErrP_def liftP_def)
qed simp

lemma rekey_tx_succeeds:
  assumes "aead_ok L" and "key_ok new_key" and "wio w = []"
    and "\<forall>it \<in> set (rekey_items (wdb w)). opens_short L old_key it"
    and "24 * Suc (length (rekey_items (wdb w))) \<le> length (entropy w)"
  shows "\<exists>w'. rekey_tx L old_key new_key salt ps w = (Val (length (rekey_items (wdb w))), w') \<and> wio w' = []"
proof -
  have "24 * length (rekey_items (wdb w)) \<le> length (entropy w)" using assms(5) by simp
  from rekey_rows_succeeds [OF assms(1-4) this] obtain w1 where
      rows: "rekey_rows L old_key new_key (rekey_items (wdb w)) w = (Val (), w1)" and w1: "wio w1 = []"
    and e: "length (entropy w1) = length (entropy w) - 24 * length (rekey_items (wdb w))" by blast
  have "24 \<le> length (entropy w1)" using e assms(5) by simp
  moreover have "length SENTINEL < 2 ^ 32" by (simp add: SENTINEL_def)
  ultimately obtain c where enc: "encrypt L new_key SENTINEL verifier_aad w1 = (Val (take 24 (entropy w1), c), w1\<lparr>entropy := drop 24 (entropy w1)\<rparr>)"
    using encrypt_succeeds [OF assms(1,2)] by blast
  with rows w1 assms(3) show ?thesis
    by (simp add: rekey_tx_def bindP_def mapErrP_def store_metadata_ok)
qed

lemma rekey_succeeds_lemma:
  assumes ok: "aead_ok L" "argon2_ok L" and q: "wio w = []" and ne: "current \<noteq> new"
    and old: "verified_key L current (wdb w) old_key"
    and rows: "\<forall>it \<in> set (rekey_items (wdb w)). opens_short L old_key it"
    and e: "16 + 24 * Suc (length (rekey_items (wdb w))) \<le> length (entropy w)"
    and key: "derive_key L new (take 16 (entropy w)) ps = Inr new_key"
  shows "\<exists>w'. rekey_with_params L current new ps w = (Val (length (rekey_items (wdb w))), w') \<and> wio w' = []"
proof -
  let ?w = "w\<lparr>entropy := drop 16 (entropy w)\<rparr>"
  from old obtain salt where salt: "map_of (db_meta (wdb w)) K_SALT = Some salt" by (auto simp: verified_key_def)
  with q verify_ok [OF q salt old] have rd: "read_old_key L current w = (Val old_key, w)"
    by (simp add: read_old_key_def bindP_def get_meta_def mapErrP_def)
  have gen: "generate_salt w = (Val (take 16 (entropy w)) :: (anyhow_error, byte list) outcome, ?w)"
    using e by (simp add: generate_salt_def fill_bytes_def)
  have "24 * Suc (length (rekey_items (wdb ?w))) \<le> length (entropy ?w)"
    using e by simp
  from rekey_tx_succeeds [OF ok(1) derive_key_ok [OF ok(2) key], of ?w] this q rows
  obtain w' where "rekey_tx L old_key new_key (take 16 (entropy w)) ps ?w = (Val (length (rekey_items (wdb w))), w')" "wio w' = []"
    by fastforce
  then have "with_tx EDatabase (rekey_tx L old_key new_key (take 16 (entropy w)) ps) ?w = (Val (length (rekey_items (wdb w))), w')"
    using q by (intro with_tx_quiet) simp_all
  with \<open>wio w' = []\<close> show ?thesis using ne key
    by (simp add: rekey_with_params_eq bindP_def [of "read_old_key L current"] rd bindP_def [of generate_salt] gen)
qed

end
