(* ===== verification/RekeyVault.thy ===== *)
theory RekeyVault
  imports Vault Rekey
begin

text \<open>
  Rekeying seen from the vault: the same secrets under another key are the same vault, and a
  readable vault stays readable.
\<close>

lemma rekey_ValD:
  assumes "aead_ok L" and "db_wf (wdb w)" and "rekey L current new w = (Val n, w')"
  shows "\<exists>old_key new_key. verified_key L current (wdb w) old_key \<and> verified_key L new (wdb w') new_key \<and>
    n = length (db_secrets (wdb w)) \<and>
    list_all2 (same_secret L old_key (wdb w) new_key (wdb w')) (db_secrets (wdb w)) (db_secrets (wdb w')) \<and>
    db_projects (wdb w') = db_projects (wdb w) \<and> db_tokens (wdb w') = db_tokens (wdb w)"
proof -
  from assms(3) obtain old_key salt new_key w1 where old: "verified_key L current (wdb w) old_key"
    and key: "derive_key L new salt kdf_strong = Inr new_key" and w1: "wdb w1 = wdb w"
    and tx: "with_tx EDatabase (rekey_tx L old_key new_key salt kdf_strong) w1 = (Val n, w')"
    unfolding rekey_def by (rule rekey_with_params_ValE)
  from tx obtain w2 where run: "rekey_tx L old_key new_key salt kdf_strong (w1\<lparr>wio := tl (wio w1)\<rparr>) = (Val n, w2)"
    and w': "w' = w2\<lparr>wio := tl (wio w2)\<rparr>" by (rule with_tx_ValE)
  from rekey_tx_ValD [OF assms(1) _ kdf_strong_valid key run] assms(2) w1 w'
  have "n = length (db_secrets (wdb w)) \<and> verified_key L new (wdb w') new_key \<and>
      db_projects (wdb w') = db_projects (wdb w) \<and> db_tokens (wdb w') = db_tokens (wdb w) \<and>
      list_all2 (same_secret L old_key (wdb w) new_key (wdb w')) (db_secrets (wdb w)) (db_secrets (wdb w'))"
    by simp
  with old show ?thesis by blast
qed

text \<open>What \<open>same_secret\<close> on every row means for the vault.\<close>

lemma same_secret_opened:
  assumes s: "same_secret L k d k' d' r r'" and wf: "db_wf d" and r: "r \<in> set (db_secrets d)"
    and pid: "find_project d p = Some (sr_project_id r)" and pr: "db_projects d' = db_projects d"
  shows "opened L k' p r' = opened L k p r"
proof -
  have "project_of_row d r = Some p"
  proof -
    from find_project_SomeD [OF pid] obtain q where q: "q \<in> set (db_projects d)" "pr_name q = p" "pr_id q = sr_project_id r" by blast
    with wf have "find (\<lambda>x. pr_id x = sr_project_id r) (db_projects d) = Some q"
      by (intro find_unique) (auto simp: db_wf_def projects_wf_def)
    with q show ?thesis by (simp add: project_of_row_def)
  qed
  moreover from this s pr have "project_of_row d' r' = Some p" by (simp add: project_of_row_def same_secret_def)
  ultimately show ?thesis using s
    by (auto simp: same_secret_def row_plaintext_def opened_def split: sum.splits)
qed

lemma same_secrets_find:
  assumes "list_all2 (same_secret L k d k' d') rs rs'"
  shows "rel_option (same_secret L k d k' d') (find (row_at pid key) rs) (find (row_at pid key) rs')"
  using assms by (induction rs rs' rule: list_all2_induct) (auto simp: row_at_def same_secret_def)

lemma same_secrets_vault:
  assumes all: "list_all2 (same_secret L k d k' d') (db_secrets d) (db_secrets d')"
    and wf: "db_wf d" and pr: "db_projects d' = db_projects d"
  shows "vault L k' d' = vault L k d"
proof
  fix p
  have fp: "find_project d' p = find_project d p" by (simp add: find_project_def pr)
  have "Option.bind (find_secret d' pid key) (opened L k' p) = Option.bind (find_secret d pid key) (opened L k p)"
    if pid: "find_project d p = Some pid" for pid key
  proof (cases "find_secret d pid key")
    case None
    with same_secrets_find [OF all, of pid key] show ?thesis by (simp add: find_secret_def)
  next
    case (Some r)
    with same_secrets_find [OF all, of pid key] obtain r' where r': "find_secret d' pid key = Some r'" "same_secret L k d k' d' r r'"
      by (auto simp: find_secret_def option_rel_Some1)
    from find_secret_row_at [OF Some] have "r \<in> set (db_secrets d)" "sr_project_id r = pid" by (auto simp: row_at_def)
    with same_secret_opened [OF r'(2) wf _ _ pr] pid Some r' show ?thesis by simp
  qed
  then show "vault L k' d' p = vault L k d p"
    by (cases "find_project d p") (auto simp: vault_def fp fun_eq_iff)
qed

lemma same_secrets_readable:
  assumes all: "list_all2 (same_secret L k d k' d') (db_secrets d) (db_secrets d')"
    and wf: "db_wf d" and pr: "db_projects d' = db_projects d" and rd: "readable L k d"
  shows "readable L k' d'"
proof -
  have "opened L k' (pr_name p) r' \<noteq> None" if r': "r' \<in> set (db_secrets d')" and p: "p \<in> set (db_projects d')"
    and e: "pr_id p = sr_project_id r'" for p r'
  proof -
    from all r' obtain r where r: "r \<in> set (db_secrets d)" and s: "same_secret L k d k' d' r r'"
      by (metis in_set_conv_nth list_all2_conv_all_nth)
    from s have pid: "sr_project_id r' = sr_project_id r" by (simp add: same_secret_def)
    have "find_project d (pr_name p) = Some (sr_project_id r)"
      using find_unique [of pr_name "db_projects d" p "pr_name p"] wf p e pid pr
      by (simp add: find_project_def db_wf_def projects_wf_def)
    from same_secret_opened [OF s wf r this pr] rd r p pr e pid show ?thesis by (auto simp: readable_def)
  qed
  then show ?thesis by (simp add: readable_def)
qed

lemma same_secrets_wf:
  assumes all: "list_all2 (same_secret L k d k' d') (db_secrets d) (db_secrets d')"
    and wf: "db_wf d" and pr: "db_projects d' = db_projects d" and tk: "db_tokens d' = db_tokens d"
  shows "db_wf d'"
proof -
  have eq: "map f (db_secrets d') = map f (db_secrets d)" if "\<And>r r'. same_secret L k d k' d' r r' \<Longrightarrow> f r' = f r" for f :: "secret_row \<Rightarrow> 'x"
    using all that by (auto simp: list_all2_conv_all_nth intro: nth_equalityI)
  have "map sr_id (db_secrets d') = map sr_id (db_secrets d)"
    "map (\<lambda>r. (sr_project_id r, sr_key r)) (db_secrets d') = map (\<lambda>r. (sr_project_id r, sr_key r)) (db_secrets d)"
    "map sr_version (db_secrets d') = map sr_version (db_secrets d)"
    "map sr_project_id (db_secrets d') = map sr_project_id (db_secrets d)"
    by (rule eq; simp add: same_secret_def)+
  moreover from this(3) have "\<forall>r \<in> set (db_secrets d'). 1 \<le> sr_version r"
    using wf by (auto simp: db_wf_def secrets_wf_def dest!: arg_cong [where f = set])
      (metis (no_types, lifting) imageE imageI)
  moreover from calculation(4) have "sr_project_id ` set (db_secrets d') = sr_project_id ` set (db_secrets d)"
    by (metis set_map)
  ultimately show ?thesis using wf
    by (simp only: db_wf_def secrets_wf_def pr tk)
qed

end
