(* ===== verification/Samples.thy ===== *)
theory Samples
  imports App RekeyVault
begin

text \<open>
  Concrete primitives and states on which the theorems' hypotheses hold: toy functions with
  the documented behaviour of the third-party code (they are not secure, only lawful), a
  key, and a small database. The witnesses of the properties are stated over them.
\<close>

section \<open>Primitives\<close>

definition toy_seal :: "byte list \<Rightarrow> byte list \<Rightarrow> byte list \<Rightarrow> byte list \<Rightarrow> byte list option" where
  "toy_seal k n a p = Some (p @ k @ n @ a)"

definition toy_open :: "byte list \<Rightarrow> byte list \<Rightarrow> byte list \<Rightarrow> byte list \<Rightarrow> byte list option" where
  "toy_open k n a c = (let t = k @ n @ a; m = length c - length t in
     if length t \<le> length c \<and> drop m c = t then Some (take m c) else None)"

definition toy_argon2 :: "byte list \<Rightarrow> byte list \<Rightarrow> u32 \<Rightarrow> u32 \<Rightarrow> u32 \<Rightarrow> nat \<Rightarrow> byte list option" where
  "toy_argon2 p s m t l n = Some (take n (p @ s @ replicate n 0))"

definition toy_format :: "int \<Rightarrow> string option" where
  "toy_format t = (if 0 \<le> t \<and> t < 2 ^ 80 then Some (bytes_str (le_bytes 10 (nat t))) else None)"

definition toy_parse :: "string \<Rightarrow> int option" where
  "toy_parse s = (if length s = 10 then Some (int (le_value (str_bytes s))) else None)"

definition toy_b64 :: "byte list \<Rightarrow> string" where
  "toy_b64 bs = concat (map (\<lambda>b. [char_of (97 + unat b div 16), char_of (97 + unat b mod 16)]) bs)"

fun toy_unb64 :: "string \<Rightarrow> byte list" where
  "toy_unb64 (a # b # r) = word_of_nat ((of_char a - 97) * 16 + (of_char b - 97)) # toy_unb64 r"
| "toy_unb64 _ = []"

definition toy_lib :: lib where
  "toy_lib = \<lparr>aead_encrypt = toy_seal, aead_decrypt = toy_open, argon2_params = (\<lambda>m t p n. True),
     argon2_hash = toy_argon2, sha256 = (\<lambda>m. take 32 (m @ replicate 32 0)), ct_slices = (=),
     b64url_encode = toy_b64, b64url_decode = (\<lambda>s. Some (toy_unb64 s)),
     rfc3339_format = toy_format, rfc3339_parse = toy_parse,
     date_add_days = (\<lambda>t n. if n < 4000000 then Some (t + int n * 86400 * 10 ^ 9) else None)\<rparr>"

lemma length_bytes_str: "length (bytes_str b) = length b"
  by (simp add: bytes_str_def)

lemma toy_aead: "aead_ok toy_lib"
  by (simp add: aead_ok_def toy_lib_def toy_seal_def toy_open_def Let_def)

lemma toy_argon2_ok: "argon2_ok toy_lib"
  by (auto simp: argon2_ok_def toy_lib_def toy_argon2_def)

lemma toy_ct: "ct_ok toy_lib"
  by (simp add: ct_ok_def toy_lib_def)

lemma toy_sha: "sha_ok toy_lib"
  by (simp add: sha_ok_def toy_lib_def min_def)

lemma toy_unb64: "toy_unb64 (toy_b64 bs) = bs"
proof (induction bs)
  case (Cons b bs)
  have n: "unat b < 256" using unsigned_less [of b] by simp
  then have "97 + unat b div 16 < 256" "97 + unat b mod 16 < 256" by auto
  then have "of_char (char_of (97 + unat b div 16) :: char) - 97 = unat b div 16"
    "of_char (char_of (97 + unat b mod 16) :: char) - 97 = unat b mod 16" by simp_all
  moreover have "unat b div 16 * 16 + unat b mod 16 = unat b" by simp
  ultimately show ?case using Cons by (simp add: toy_b64_def)
qed (simp add: toy_b64_def)

lemma toy_b64_ok: "b64_ok toy_lib"
proof -
  have "is_ascii_alnum c" if c: "c \<in> set (toy_b64 bs)" for c bs
  proof -
    from c obtain b :: byte where "c = char_of (97 + unat b div 16) \<or> c = char_of (97 + unat b mod 16)"
      by (auto simp: toy_b64_def)
    moreover have n: "unat b < 256" using unsigned_less [of b] by simp
    have "is_ascii_alnum (char_of (97 + k))" if "k < 16" for k :: nat
      using that by (simp add: is_ascii_alnum_def)
    moreover have "unat b div 16 < 16" "unat b mod 16 < 16" using n by auto
    ultimately show ?thesis by auto
  qed
  then show ?thesis by (auto simp: b64_ok_def toy_lib_def toy_unb64)
qed

lemma toy_time: "time_ok toy_lib"
  by (auto simp: time_ok_def toy_lib_def toy_format_def toy_parse_def le_value_le_bytes length_bytes_str split: if_splits)

lemmas toy_laws = toy_aead toy_argon2_ok toy_ct toy_sha toy_b64_ok toy_time

text \<open>A framework that reads a body as the text it carries.\<close>

definition toy_web :: web where
  "toy_web = \<lparr>header_str = from_utf8, path_decode = Some, path_rejection = (\<lambda>param. ''Invalid URL: Invalid UTF-8 in '' @ param), json_type = (\<lambda>c. True),
     parse_create_project = from_utf8, parse_set_secret = from_utf8,
     parse_create_token = (\<lambda>b. map_option (\<lambda>s. \<lparr>ct_name = s, ct_project = None, ct_ttl_days = Some 1, ct_no_expiry = False\<rparr>) (from_utf8 b))\<rparr>"

lemma toy_web_ok: "web_ok toy_web"
  by (auto simp: web_ok_def toy_web_def from_utf8_Some)

section \<open>States\<close>

text \<open>The key of the passphrase \<open>p\<close> under the stored salt.\<close>

definition toy_key :: master_key where
  "toy_key = MasterKey (str_bytes ''p'' @ replicate 16 7 @ replicate 15 0)"

definition toy_meta :: "(string \<times> byte list) list" where
  "toy_meta = fold (\<lambda>(k, v). AList.update k v) (metadata_entries (replicate 16 7) kdf_strong (replicate 24 1)
     (SENTINEL @ expose toy_key @ replicate 24 1 @ verifier_aad)) []"

text \<open>Two projects, one secret, one token for everything and one for the first project.\<close>

definition toy_cipher :: "string \<Rightarrow> string \<Rightarrow> string \<Rightarrow> byte list" where
  "toy_cipher p k v = str_bytes v @ expose toy_key @ replicate 24 1 @ aad_bytes p k"

definition toy_db :: database where
  "toy_db = \<lparr>db_tables = [''meta'', ''projects'', ''secrets'', ''tokens''],
     db_token_columns = token_columns, db_meta = toy_meta,
     db_projects = [\<lparr>pr_id = 1, pr_name = ''app'', pr_created_at = []\<rparr>, \<lparr>pr_id = 2, pr_name = ''web'', pr_created_at = []\<rparr>],
     db_secrets = [\<lparr>sr_id = 1, sr_project_id = 1, sr_key = ''K'', sr_nonce = replicate 24 1,
        sr_ciphertext = toy_cipher ''app'' ''K'' ''v'', sr_version = 1, sr_updated_at = []\<rparr>],
     db_tokens = [\<lparr>tk_id = 1, tk_name = ''root'', tk_hash = hash_token toy_lib ''r'', tk_scope = None,
        tk_created_at = [], tk_revoked = 0, tk_expires_at = None\<rparr>,
       \<lparr>tk_id = 2, tk_name = ''ci'', tk_hash = hash_token toy_lib ''c'', tk_scope = Some ''app'',
        tk_created_at = [], tk_revoked = 0, tk_expires_at = None\<rparr>]\<rparr>"

definition toy_world :: "database \<Rightarrow> world" where
  "toy_world d = \<lparr>entropy = replicate 200 3, wdb = d, wio = [], wtick = 0, wclock = (\<lambda>_. 0)\<rparr>"

definition toy_server :: server where
  "toy_server = \<lparr>entropy = replicate 200 3, wdb = toy_db, wio = [], wtick = 0, wclock = (\<lambda>_. 0),
     poisoned = False, audit_log = [], audit_io = []\<rparr>"

definition toy_request :: "http_method \<Rightarrow> string \<Rightarrow> string \<Rightarrow> string \<Rightarrow> request" where
  "toy_request m path token body = \<lparr>rq_method = m, rq_path = path,
     rq_auth = Some (str_bytes (''Bearer '' @ token)), rq_content_type = None, rq_body = str_bytes body\<rparr>"

lemma toy_db_wf: "db_wf toy_db"
  by (simp add: toy_db_def db_wf_def projects_wf_def secrets_wf_def)

lemma toy_key_ok: "key_ok toy_key"
  by (simp add: key_ok_def toy_key_def KEY_LEN_def)

lemma toy_cipher_opens: "decrypt toy_lib toy_key (replicate 24 1) (toy_cipher p k v) (aad_bytes p k) = Inr (str_bytes v)"
  by (simp add: decrypt_Inr_iff toy_key_ok) (simp add: toy_lib_def toy_open_def toy_cipher_def toy_key_def)

lemma toy_v: "is_str ''v''"
  by (rule ascii_is_str) (simp add: ascii_str_def)

lemma toy_readable: "readable toy_lib toy_key toy_db"
  by (simp add: readable_def toy_db_def opened_def toy_cipher_opens toy_v)

lemma toy_verified: "verified_key toy_lib ''p'' toy_db toy_key"
proof -
  have d: "toy_db = (toy_db\<lparr>db_meta := []\<rparr>)\<lparr>db_meta := fold (\<lambda>(k, v). AList.update k v)
      (metadata_entries (replicate 16 7) kdf_strong (replicate 24 1) (SENTINEL @ expose toy_key @ replicate 24 1 @ verifier_aad))
      (db_meta (toy_db\<lparr>db_meta := []\<rparr>))\<rparr>"
    by (simp add: toy_db_def toy_meta_def)
  have key: "derive_key toy_lib ''p'' (replicate 16 7) kdf_strong = Inr toy_key"
    by (simp add: derive_key_def toy_lib_def toy_argon2_def KEY_LEN_def toy_key_def)
  have enc: "encrypt toy_lib toy_key SENTINEL verifier_aad (\<lparr>entropy = replicate 24 1\<rparr> :: rng) =
      (Val (replicate 24 1, SENTINEL @ expose toy_key @ replicate 24 1 @ verifier_aad), \<lparr>entropy = []\<rparr>)"
    by (simp add: encrypt_Val_iff toy_key_ok toy_lib_def toy_seal_def)
  show ?thesis by (rule stored_key_verifies [OF toy_aead kdf_strong_valid key enc d])
qed

lemma toy_items: "rekey_items toy_db =
    [\<lparr>ri_id = 1, ri_project = ''app'', ri_key = ''K'', ri_nonce = replicate 24 1, ri_ciphertext = toy_cipher ''app'' ''K'' ''v''\<rparr>]"
  by (simp add: rekey_items_def toy_db_def project_of_row_def)

lemma toy_items_open: "\<forall>it \<in> set (rekey_items toy_db). opens_short toy_lib toy_key it"
  by (simp add: toy_items opens_short_def item_opens_def toy_cipher_opens)

lemma toy_derive: "\<exists>k. derive_key toy_lib p salt ps = Inr k"
  by (simp add: derive_key_def toy_lib_def toy_argon2_def)

lemma toy_world_simps [simp]:
  "wio (toy_world d) = []" "wdb (toy_world d) = d" "length (entropy (toy_world d)) = 200"
  by (simp_all add: toy_world_def)

lemma toy_server_simps [simp]:
  "wio toy_server = []" "wdb toy_server = toy_db" "length (entropy toy_server) = 200"
  "poisoned toy_server = False" "wtick toy_server = 0" "wclock toy_server 0 = 0"
  by (simp_all add: toy_server_def)

lemma toy_rekey: "\<exists>w'. rekey toy_lib ''p'' ''q'' (toy_world toy_db) = (Val 1, w')"
proof -
  obtain nk where "derive_key toy_lib ''q'' (take 16 (entropy (toy_world toy_db))) kdf_strong = Inr nk"
    using toy_derive by blast
  from rekey_succeeds_lemma [OF toy_aead toy_argon2_ok _ _ _ _ _ this, of "''p''" toy_key] toy_verified toy_items_open toy_items
  show ?thesis by (auto simp: rekey_def)
qed

lemma char_byte_inject: "char_byte a = char_byte b \<longleftrightarrow> a = b"
  by (metis byte_char_char_byte)

lemma toy_hash_inject: "hash_token toy_lib [a] = hash_token toy_lib [b] \<longleftrightarrow> a = b"
  by (simp add: hash_token_def toy_lib_def str_bytes_def char_byte_inject)

lemma toy_who: "who toy_lib now (hash_token toy_lib [a]) (db_tokens toy_db) =
    (if a = CHR ''r'' then Some \<lparr>at_name = ''root'', at_scope = None\<rparr>
     else if a = CHR ''c'' then Some \<lparr>at_name = ''ci'', at_scope = Some ''app''\<rparr> else None)"
  by (auto simp: toy_db_def who_def last_opt_def admits_def active_def unexpired_def toy_hash_inject identity_of_def)

lemma toy_bearer: "of_char a < (128::nat) \<Longrightarrow> extract_bearer toy_web (rq_auth (toy_request m path [a] body)) = Some [a]"
proof -
  assume "of_char a < (128::nat)"
  then have "is_str (''Bearer '' @ [a])" by (intro ascii_is_str) (simp add: ascii_str_def)
  then show ?thesis by (simp add: extract_bearer_def toy_request_def toy_web_def strip_prefix_def)
qed

lemma toy_accepted: "of_char a < (128::nat) \<Longrightarrow> accepted toy_lib toy_web (toy_request m path [a] body) clk toy_db t \<longleftrightarrow>
    (a = CHR ''r'' \<and> t = \<lparr>at_name = ''root'', at_scope = None\<rparr>) \<or> (a = CHR ''c'' \<and> t = \<lparr>at_name = ''ci'', at_scope = Some ''app''\<rparr>)"
  by (auto simp: accepted_def toy_bearer toy_who)

section \<open>A request\<close>

definition toy_root :: authed_token where
  "toy_root = \<lparr>at_name = ''root'', at_scope = None\<rparr>"

definition toy_put :: request where
  "toy_put = toy_request PUT ''/v1/projects/app/secrets/K'' ''r'' ''v''"

lemma toy_put_body: "json_body toy_web (parse_set_secret toy_web) toy_put = Inr ''v''"
  by (simp add: json_body_def toy_web_def toy_put_def toy_request_def BODY_LIMIT_def toy_v)

lemma toy_names [simp]: "valid_project ''app''" "valid_key ''K''" "\<not> valid_project []"
  by (simp_all add: valid_project_def valid_key_def is_ascii_alnum_def)

lemma toy_format0: "rfc3339_format toy_lib 0 = Some (bytes_str (le_bytes 10 0))"
  by (simp add: toy_lib_def toy_format_def)

lemma toy_find: "find_project toy_db ''app'' = Some 1"
  by (simp add: find_project_def toy_db_def)

lemma toy_healthy: "healthy toy_server"
  by (simp add: healthy_def)

lemma toy_put_runs: "\<exists>rsp w'. put_secret toy_lib toy_web toy_key toy_root ''app'' ''K'' toy_put toy_server = (Val rsp, w') \<and> healthy w'"
  by (rule put_secret_answer [OF toy_healthy toy_aead toy_key_ok _ _ _ _ _ toy_put_body, where pid = 1])
    (simp_all add: toy_format0 toy_root_def scope_allows_def toy_find)

end
