(* ===== verification/ServerProperties.thy ===== *)
theory ServerProperties
  imports Samples
begin

text \<open>
  The properties of the server, each followed by a witness on the sample state of
  \<open>Samples\<close> where it has hypotheses.
\<close>

section \<open>Passphrase and master key\<close>

text \<open>C1: rekeying is all or nothing. Whatever statement fails and however the run ends, either
  it returns a count or the tables are exactly as before.\<close>
theorem rekey_all_or_nothing:
  "(\<exists>n. fst (rekey L current new w) = Val n) \<or> wdb (snd (rekey L current new w)) = wdb w"
  unfolding rekey_def by (rule rekey_rollback_lemma)

text \<open>C11: a rekey that returns has moved every secret. The count is the number of stored
  secrets, the new passphrase verifies with a key under which the vault is what it was under
  the old key, versions and timestamps are kept, and projects and tokens are untouched.\<close>
theorem rekey_moves_every_secret:
  assumes "aead_ok L" and "db_wf (wdb w)" and "rekey L current new w = (Val n, w')"
  shows "\<exists>old_key new_key. verified_key L current (wdb w) old_key \<and> verified_key L new (wdb w') new_key \<and>
    n = length (db_secrets (wdb w)) \<and> vault L new_key (wdb w') = vault L old_key (wdb w) \<and>
    list_all2 (same_secret L old_key (wdb w) new_key (wdb w')) (db_secrets (wdb w)) (db_secrets (wdb w')) \<and>
    db_projects (wdb w') = db_projects (wdb w) \<and> db_tokens (wdb w') = db_tokens (wdb w)"
  using rekey_ValD [OF assms] same_secrets_vault [OF _ assms(2)] by blast

text \<open>C32: rekeying completes. With enough entropy and no failing statement, when the current
  passphrase verifies, every stored secret opens under its key, and the new key can be
  derived, the run returns the number of secrets.\<close>
theorem rekey_completes:
  assumes "aead_ok L" and "argon2_ok L" and "wio w = []" and "current \<noteq> new"
    and "verified_key L current (wdb w) old_key"
    and "\<forall>it \<in> set (rekey_items (wdb w)). opens_short L old_key it"
    and "16 + 24 * Suc (length (rekey_items (wdb w))) \<le> length (entropy w)"
    and "derive_key L new (take 16 (entropy w)) kdf_strong = Inr new_key"
  shows "\<exists>w'. rekey L current new w = (Val (length (rekey_items (wdb w))), w') \<and> wio w' = []"
  unfolding rekey_def by (rule rekey_succeeds_lemma [OF assms])

theorem rekey_completes_witness:
  "\<exists>w'. rekey toy_lib ''p'' ''q'' (toy_world toy_db) = (Val 1, w') \<and> wio w' = []"
proof -
  obtain k where "derive_key toy_lib ''q'' (take 16 (entropy (toy_world toy_db))) kdf_strong = Inr k"
    using toy_derive by blast
  from rekey_completes [OF toy_aead toy_argon2_ok _ _ _ _ _ this] toy_verified toy_items_open toy_items
  show ?thesis by simp
qed

theorem rekey_moves_every_secret_witness:
  "\<exists>w' k k'. rekey toy_lib ''p'' ''q'' (toy_world toy_db) = (Val 1, w') \<and>
     verified_key toy_lib ''q'' (wdb w') k' \<and> vault toy_lib k' (wdb w') = vault toy_lib k toy_db"
proof -
  obtain w' where run: "rekey toy_lib ''p'' ''q'' (toy_world toy_db) = (Val 1, w')" using toy_rekey ..
  from rekey_moves_every_secret [OF toy_aead _ run] toy_db_wf have
    "\<exists>k k'. verified_key toy_lib ''q'' (wdb w') k' \<and> vault toy_lib k' (wdb w') = vault toy_lib k toy_db" by auto
  with run show ?thesis by auto
qed

text \<open>C31: the key the server starts with is bound to the passphrase and the database: it is
  derived from the stored salt and costs, the costs are within bounds, and it opens the
  stored verifier; and a restart with the same passphrase gives the same key and changes
  nothing. This holds after a first start as after any other.\<close>
theorem served_key_is_verified:
  assumes "aead_ok L" and "init_or_verify L p w = (Val key, w')" and "wio w' = []"
  shows "verified_key L p (wdb w') key \<and> init_or_verify L p w' = (Val key, w')"
  using init_or_verify_ValD [OF assms(1,2)] init_or_verify_known [OF assms(3)] by blast

theorem served_key_is_verified_witness:
  "init_or_verify toy_lib ''p'' (toy_world toy_db) = (Val toy_key, toy_world toy_db) \<and> verified_key toy_lib ''p'' toy_db toy_key"
  using served_key_is_verified [OF toy_aead init_or_verify_known [of "toy_world toy_db" toy_lib "''p''" toy_key]] toy_verified
    init_or_verify_known [of "toy_world toy_db" toy_lib "''p''" toy_key]
  by simp

text \<open>Stored Argon2 costs outside the accepted range stop the server before any key is
  derived, whatever the primitives are.\<close>
theorem kdf_costs_checked_first:
  assumes "wio w = []" and "map_of (db_meta (wdb w)) K_SALT = Some salt" and "meta_params (wdb w) = Some ps"
    and "m_cost_kib ps < 8 \<or> 1024 * 1024 < m_cost_kib ps \<or> t_cost ps = 0 \<or> 32 < t_cost ps \<or> p_cost ps = 0 \<or> 8 < p_cost ps"
  shows "init_or_verify L p w = (Fail (EKdfRange (m_cost_kib ps) (t_cost ps) (p_cost ps)), w)"
proof -
  from assms(3) obtain m t q where mtq: "map_of (db_meta (wdb w)) K_M = Some m" "map_of (db_meta (wdb w)) K_T = Some t"
      "map_of (db_meta (wdb w)) K_P = Some q" "le_to_u32 m = Inr (m_cost_kib ps)"
      "le_to_u32 t = Inr (t_cost ps)" "le_to_u32 q = Inr (p_cost ps)"
    by (auto simp: meta_params_def split: option.splits sum.splits)
  have "validate_kdf_params \<lparr>m_cost_kib = m_cost_kib ps, t_cost = t_cost ps, p_cost = p_cost ps\<rparr> =
      Inl (EKdfRange (m_cost_kib ps) (t_cost ps) (p_cost ps))"
    using assms(4) by (auto simp: kdf_range word_le_nat_alt word_less_nat_alt)
  with mtq assms(1,2) show ?thesis
    by (simp add: init_or_verify_def verify_def bindP_def get_meta_def mapErrP_def get_required_ok Let_def)
qed

theorem kdf_costs_checked_first_witness:
  "\<exists>d. init_or_verify toy_lib ''p'' (toy_world d) = (Fail (EKdfRange 4096 100 1), toy_world d)"
proof -
  let ?ps = "\<lparr>m_cost_kib = 4096, t_cost = 100, p_cost = 1\<rparr>"
  let ?d = "empty_db\<lparr>db_meta := fold (\<lambda>(k, v). AList.update k v) (metadata_entries [] ?ps [] []) (db_meta empty_db)\<rparr>"
  note look = look_metadata [OF refl, where d = empty_db and salt = "[]" and ps = ?ps and n = "[]" and c = "[]"]
  have "init_or_verify toy_lib ''p'' (toy_world ?d) = (Fail (EKdfRange 4096 100 1), toy_world ?d)"
    using kdf_costs_checked_first [of "toy_world ?d" "[]" ?ps toy_lib "''p''"] look(1,2) by simp
  then show ?thesis by blast
qed

section \<open>Associated data\<close>

text \<open>Every record has its own label. Among valid project and key names the associated data
  of a secret determines both, and no secret shares the label of the passphrase verifier, so
  a ciphertext is bound to the one place it was stored for.\<close>
theorem record_labels_are_distinct:
  assumes "valid_project p" and "valid_key k" and "valid_project p'" and "valid_key k'"
  shows "(aad_bytes p k = aad_bytes p' k' \<longleftrightarrow> p = p' \<and> k = k') \<and> aad_bytes p k \<noteq> verifier_aad"
proof -
  have short: "length p < 2 ^ 32" "length k < 2 ^ 32" "length p' < 2 ^ 32" "length k' < 2 ^ 32"
    using project_name.valid_length [OF assms(1)] secret_key.valid_length [OF assms(2)]
      project_name.valid_length [OF assms(3)] secret_key.valid_length [OF assms(4)] by simp_all
  have "CHR 0x00 \<notin> set p"
    by (rule project_name.valid_avoids [OF assms(1)]) (simp_all add: is_ascii_alnum_def)
  then have "p \<noteq> CHR 0x00 # ''meta''" by auto
  then have "aad_bytes p k \<noteq> verifier_aad"
    unfolding verifier_aad_def by (subst aad_bytes_inject) (use short in auto)
  with aad_bytes_inject [OF short] show ?thesis by simp
qed

theorem record_labels_are_distinct_witness:
  "aad_bytes ''ab'' ''c'' \<noteq> aad_bytes ''a'' ''bc'' \<and> aad_bytes ''ab'' ''c'' \<noteq> verifier_aad"
  using record_labels_are_distinct [of "''ab''" "''c''" "''a''" "''bc''"]
  by (simp add: valid_project_def valid_key_def is_ascii_alnum_def)

lemma le_bytes_0: "le_bytes k 0 = replicate k 0"
  by (induction k) simp_all

lemma aad_collides_when_wrapping:
  assumes "(word_of_nat n :: u32) = 0"
  shows "aad_bytes (replicate n (CHR 0x00)) [] = aad_bytes [] (replicate n (CHR 0x00))"
proof -
  have z: "u32_le 0 = replicate 4 0" by (simp add: u32_le_def le_bytes_0)
  have c: "char_byte (CHR 0x00) = 0" by (simp add: char_byte_def)
  have swap: "replicate n (0::byte) @ replicate 4 0 = replicate 4 0 @ replicate n 0"
    by (simp only: replicate_add [symmetric] add.commute)
  show ?thesis
    by (simp add: aad_bytes_def len_prefixed_def assms str_bytes_def c z swap)
qed

text \<open>The bound on the lengths is needed: the 32-bit length prefix wraps, and at 4 GiB two
  different pairs share their associated data.\<close>
theorem aad_collides_at_4gib:
  "\<exists>p k p' k'. (p, k) \<noteq> (p', k') \<and> aad_bytes p k = aad_bytes p' k' \<and> length p = 2 ^ 32"
proof -
  obtain n :: nat where n: "n = 2 ^ 32" by blast
  have "(word_of_nat n :: u32) = 0" unfolding n by (simp add: word_of_nat_eq_0_iff)
  moreover have "replicate n (CHR 0x00) \<noteq> []" unfolding n by simp
  ultimately show ?thesis using aad_collides_when_wrapping [of n] n
    by (metis length_replicate prod.inject)
qed

end
