(* ===== verification/RequestEffects.thy ===== *)
theory RequestEffects
  imports App
begin

text \<open>
  What a request leaves alone besides the tables, and what it writes to the audit log: no
  handler, extractor or route touches the log, and the middleware's record is one entry.
\<close>

text \<open>A part of the state no handler writes.\<close>

definition outside_db :: "('m server_scheme \<Rightarrow> 'b) \<Rightarrow> bool" where
  "outside_db f \<longleftrightarrow> (\<forall>w i. f (w\<lparr>wio := i\<rparr>) = f w) \<and> (\<forall>w t. f (w\<lparr>wtick := t\<rparr>) = f w) \<and>
     (\<forall>w e. f (w\<lparr>entropy := e\<rparr>) = f w) \<and> (\<forall>w d. f (w\<lparr>wdb := d\<rparr>) = f w) \<and> (\<forall>w b. f (w\<lparr>poisoned := b\<rparr>) = f w)"

lemma keeps_writes:
  assumes "outside_db f"
  shows "keeps f (create_project_row L n)" "keeps f (upsert_secret L pid k c d)" "keeps f (delete_secret_row pid k)"
    "keeps f (insert_token L n h sc e)" "keeps f (revoke_token_rows n)" "keeps f list_projects_rows" "keeps f list_tokens_rows"
  using assms
  unfolding create_project_row_def upsert_secret_def delete_secret_row_def insert_token_def revoke_token_rows_def
    list_projects_rows_def list_tokens_rows_def outside_db_def
  by (intro frame read_frame keeps_sql; simp)+

lemma keeps_handlers:
  assumes "outside_db f"
  shows "keeps f (create_project L W t req)" "keeps f (list_projects t)" "keeps f (get_secrets L K t p)"
    "keeps f (put_secret L W K t p k req)" "keeps f (delete_secret t p k)" "keeps f (create_token L W t req)"
    "keeps f (list_tokens t)" "keeps f (revoke_token t p)"
  unfolding create_project_def list_projects_def get_secrets_def put_secret_def delete_secret_def
    create_token_def mint_token_def issue_token_def list_tokens_def revoke_token_def
  using assms
  by (intro frame read_frame keeps_writes; simp add: outside_db_def)+

lemma keeps_into_response: "keeps f m \<Longrightarrow> keeps f (into_response m)"
  by (auto simp: keeps_def into_response_def split: prod.splits outcome.splits) (metis snd_conv)+

lemma keeps_endpoint:
  "outside_db f \<Longrightarrow> endpoint L W K req r m = Some h \<Longrightarrow> keeps f (h a)"
  by (cases "(L, W, K, req, r, m)" rule: endpoint.cases)
    (auto simp: with_path_def intro!: keeps_handlers keeps_if keeps_retP split: option.split)

lemma keeps_serve_route:
  fixes f :: "'m server_scheme \<Rightarrow> 'b"
  assumes "outside_db f"
  shows "keeps f (serve_route L W K req r)"
proof (cases "endpoint L W K req r (rq_method req) :: (authed_token \<Rightarrow> ('m server_scheme, app_error, response) proc) option")
  case None
  then show ?thesis by (simp add: serve_route_def keeps_retP)
next
  case (Some h)
  have "keeps f (from_request_parts L W (rq_auth req))"
    using assms by (intro keeps_from_request_parts) (simp_all add: outside_db_def)
  with Some show ?thesis
    by (simp add: serve_route_def authed_def keeps_retP keeps_into_response keeps_bindP keeps_endpoint [OF assms Some])
qed

lemma audit_outside: "outside_db audit_log" "outside_db audit_io"
  by (simp_all add: outside_db_def)

lemma audit_record_Val:
  assumes "audit_record L m p pr t st w = (Val u, w')" and "audit_io w = []"
  shows "\<exists>ts. audit_log w' = audit_log w @ [\<lparr>ae_ts = ts, ae_token = t, ae_method = method_str m, ae_path = p, ae_project = pr, ae_status = st\<rparr>]"
  using assms by (auto simp: audit_record_def bindP_Val_iff Let_def now_rfc3339_def now_utc_def split: option.splits)

lemma resolve_token_name_Val:
  assumes "ct_ok L" and "resolve_token_name L W (rq_auth req) w = (Val n, w')"
  shows "n = None \<or> (\<exists>a. accepted L W req (wclock w) (wdb w) a \<and> n = Some (at_name a))"
proof (cases "extract_bearer W (rq_auth req)")
  case (Some t)
  let ?m = "with_db ''db lock'' (bindP (mapErrP from_sql (authenticate L (hash_token L t))) (\<lambda>r. retP (map_option at_name r)))"
  from assms(2) Some have "n = None \<or> ?m w = (Val n, w')"
    by (auto simp: resolve_token_name_def optional_def split: prod.splits outcome.splits)
  then have "n = None \<or> n = map_option at_name (who L (wclock w (wtick w)) (hash_token L t) (db_tokens (wdb w)))"
    by (auto simp: with_db_Val_iff bindP_Val_iff authenticate_Val_iff [OF assms(1)])
  with Some show ?thesis
    by (cases "who L (wclock w (wtick w)) (hash_token L t) (db_tokens (wdb w))") (auto simp: accepted_def)
qed (use assms(2) in \<open>simp add: resolve_token_name_def\<close>)

end
