(* ===== verification/ApiProperties.thy ===== *)
theory ApiProperties
  imports Samples RequestEffects
begin

text \<open>
  The properties of the HTTP API: the handlers implement the vault, every request keeps the
  invariants of the database, and tokens, scopes and the audit log do what they promise.
\<close>

section \<open>The vault\<close>

text \<open>C13: storing refines map update. A successful PUT leaves exactly the vault with the value
  of the request body at that project and key, answers with the next version number (1 for
  a new key), and was made under a token allowed in that project, for valid names.\<close>
theorem put_secret_refines:
  assumes "aead_ok L" and "web_ok W" and "db_wf (wdb w)" and "put_secret L W K token p k req w = (Val rsp, w')"
  shows "\<exists>v m. json_body W (parse_set_secret W) req = Inr v \<and> vault L K (wdb w) p = Some m \<and>
    vault L K (wdb w') = (vault L K (wdb w))(p \<mapsto> m(k \<mapsto> v)) \<and>
    scope_allows (at_scope token) p \<and> valid_project p \<and> valid_key k \<and>
    rsp = respond 200 (JObj [(''key'', JStr k),
      (''version'', JInt (case versions (wdb w) p k of None \<Rightarrow> 1 | Some n \<Rightarrow> n + 1))])"
  by (rule put_secret_ValD [OF assms])

theorem put_secret_refines_witness:
  "\<exists>rsp w'. put_secret toy_lib toy_web toy_key toy_root ''app'' ''K'' toy_put toy_server = (Val rsp, w') \<and>
     (\<exists>m. vault toy_lib toy_key (wdb w') ''app'' = Some (m(''K'' \<mapsto> ''v'')))"
proof -
  from toy_put_runs obtain rsp w' where run: "put_secret toy_lib toy_web toy_key toy_root ''app'' ''K'' toy_put toy_server = (Val rsp, w')" by blast
  with put_secret_refines [OF toy_aead toy_web_ok _ run] toy_db_wf toy_put_body show ?thesis by auto
qed

text \<open>Storing always succeeds on a healthy server: with 24 bytes of entropy, a key of the
  right length, valid names, an allowed token, a readable body and an existing project, PUT
  answers, and the server stays healthy.\<close>
theorem put_secret_succeeds:
  assumes "healthy w" and "aead_ok L" and "key_ok K" and "24 \<le> length (entropy w)"
    and "rfc3339_format L (wclock w (wtick w)) = Some ts"
    and "valid_project p" and "valid_key k" and "scope_allows (at_scope token) p"
    and "json_body W (parse_set_secret W) req = Inr v" and "length v < 2 ^ 32"
    and "vault L K (wdb w) p \<noteq> None"
  shows "\<exists>rsp w'. put_secret L W K token p k req w = (Val rsp, w') \<and> healthy w'"
proof -
  from assms(11) obtain pid where "find_project (wdb w) p = Some pid" by (auto simp: vault_None_iff)
  with assms show ?thesis by (intro put_secret_answer) auto
qed

theorem put_secret_succeeds_witness:
  "\<exists>rsp w'. put_secret toy_lib toy_web toy_key toy_root ''app'' ''K'' toy_put toy_server = (Val rsp, w') \<and> healthy w'"
  by (rule put_secret_succeeds [OF toy_healthy toy_aead toy_key_ok _ _ _ _ _ toy_put_body])
    (simp_all add: toy_format0 toy_root_def scope_allows_def vault_None_iff toy_find)

text \<open>C14: reading is the vault. On a healthy server whose rows all open, GET answers every case:
  an invalid name 400, a foreign scope 403, an unknown project 404, and otherwise the
  project's map in key order; the state does not change.\<close>
theorem get_secrets_answers:
  assumes "healthy w" and "db_wf (wdb w)" and "readable L K (wdb w)"
  shows "if \<not> valid_project p then get_secrets L K token p w = (Fail (BadRequest ''invalid project name''), w)
     else if \<not> scope_allows (at_scope token) p then get_secrets L K token p w = (Fail Forbidden, w)
     else case vault L K (wdb w) p of
       None \<Rightarrow> get_secrets L K token p w = (Fail NotFound, w)
     | Some m \<Rightarrow> (\<exists>l. bt_inv l \<and> map_of l = m \<and> get_secrets L K token p w = (Val (respond 200 (secrets_json l)), w))"
  by (rule get_secrets_answer [OF assms])

theorem get_secrets_answers_witness:
  "\<exists>l. bt_inv l \<and> get_secrets toy_lib toy_key toy_root ''app'' toy_server = (Val (respond 200 (secrets_json l)), toy_server)"
  using get_secrets_answers [OF toy_healthy, of toy_lib toy_key "''app''" toy_root] toy_db_wf toy_readable
  by (auto simp: toy_root_def scope_allows_def vault_def toy_find)

text \<open>What was stored is served: after a successful PUT, any successful GET of that project
  before the next change of the tables returns the value put, and every other key of the
  project as before.\<close>
theorem stored_secret_is_served:
  assumes "aead_ok L" and "web_ok W" and "db_wf (wdb w)"
    and "put_secret L W K token p k req w = (Val r1, w1)" and "json_body W (parse_set_secret W) req = Inr v"
    and "wdb w2 = wdb w1" and "get_secrets L K token' p w2 = (Val r2, w3)"
  shows "\<exists>l. r2 = respond 200 (secrets_json l) \<and> map_of l k = Some v \<and>
    (\<forall>k'. k' \<noteq> k \<longrightarrow> map_of l k' = the (vault L K (wdb w) p) k')"
proof -
  have wf: "db_wf (wdb w2)"
    using put_secret_change [OF assms(1,2), of K token p k req w] api_change_wf assms(3,4,6) by (auto simp: changes_def)
  from get_secrets_ValD [OF wf assms(7)] obtain l where "r2 = respond 200 (secrets_json l)"
    and l: "vault L K (wdb w1) p = Some (map_of l)" using assms(6) by auto
  moreover from put_secret_ValD [OF assms(1-4)] assms(5) l
  have "vault L K (wdb w) p \<noteq> None" "map_of l = (the (vault L K (wdb w) p))(k \<mapsto> v)" by auto
  ultimately show ?thesis by auto
qed

theorem stored_secret_is_served_witness:
  "\<exists>r1 w1 r2 l. put_secret toy_lib toy_web toy_key toy_root ''app'' ''K'' toy_put toy_server = (Val r1, w1) \<and>
     get_secrets toy_lib toy_key toy_root ''app'' w1 = (Val r2, w1) \<and>
     r2 = respond 200 (secrets_json l) \<and> map_of l ''K'' = Some ''v''"
proof -
  from toy_put_runs obtain r1 w1 where put: "put_secret toy_lib toy_web toy_key toy_root ''app'' ''K'' toy_put toy_server = (Val r1, w1)"
    and h: "healthy w1" by blast
  from put_secret_change [OF toy_aead toy_web_ok, of toy_key toy_root "''app''" "''K''" toy_put toy_server] put
  have ch: "api_change toy_lib toy_key None toy_db (wdb w1)" by (simp add: changes_def toy_root_def)
  have v: "vault toy_lib toy_key (wdb w1) ''app'' \<noteq> None"
    using put_secret_ValD [OF toy_aead toy_web_ok _ put] toy_db_wf by auto
  from get_secrets_answer [OF h api_change_wf [OF ch toy_db_wf] api_change_readable [OF ch toy_db_wf toy_readable], of "''app''" toy_root] v
  obtain r2 where get: "get_secrets toy_lib toy_key toy_root ''app'' w1 = (Val r2, w1)"
    by (auto simp: toy_root_def scope_allows_def)
  from stored_secret_is_served [OF toy_aead toy_web_ok _ put toy_put_body refl get] toy_db_wf put get
  show ?thesis by auto
qed

text \<open>C34: deleting refines map deletion. A successful DELETE answers 204 without a body, only for
  a key that was stored, and leaves the vault without it and unchanged otherwise.\<close>
theorem delete_secret_refines:
  assumes "db_wf (wdb w)" and "delete_secret token p k w = (Val rsp, w')"
  shows "\<exists>m. vault L K (wdb w) p = Some m \<and> vault L K (wdb w') = (vault L K (wdb w))(p \<mapsto> m(k := None)) \<and>
    versions (wdb w) p k \<noteq> None \<and> versions (wdb w') p k = None \<and>
    scope_allows (at_scope token) p \<and> rsp = \<lparr>rs_status = 204, rs_body = None\<rparr>"
  by (rule delete_secret_ValD [OF assms])

lemma toy_delete_runs: "\<exists>rsp w'. delete_secret toy_root ''app'' ''K'' toy_server = (Val rsp, w')"
  by (simp add: delete_secret_def toy_root_def ensure_scope_def run_healthy toy_healthy toy_find delete_secret_row_def mapErrP_def sql_def)
    (simp add: toy_db_def row_at_def)

theorem delete_secret_refines_witness:
  "\<exists>rsp w'. delete_secret toy_root ''app'' ''K'' toy_server = (Val rsp, w') \<and> versions (wdb w') ''app'' ''K'' = None"
  using toy_delete_runs delete_secret_refines [where w = toy_server and token = toy_root and p = "''app''" and k = "''K''"] toy_db_wf
  by force

text \<open>Creating a project adds an empty map. A successful POST answers 201 for a name that was
  free and allowed to the token, and the vault gains that project and nothing else.\<close>
theorem create_project_refines:
  assumes "db_wf (wdb w)" and "create_project L W token req w = (Val rsp, w')"
  shows "\<exists>p. json_body W (parse_create_project W) req = Inr p \<and> valid_project p \<and> scope_allows (at_scope token) p \<and>
    vault L K (wdb w) p = None \<and> vault L K (wdb w') = (vault L K (wdb w))(p \<mapsto> Map.empty) \<and>
    rsp = respond 201 (JObj [(''name'', JStr p)])"
  by (rule create_project_ValD [OF assms])

definition toy_new :: request where
  "toy_new = toy_request POST ''/v1/projects'' ''r'' ''new''"

lemma toy_new_body: "json_body toy_web (parse_create_project toy_web) toy_new = Inr ''new''"
  by (simp add: json_body_def toy_web_def toy_new_def toy_request_def BODY_LIMIT_def)
    (rule ascii_is_str, simp add: ascii_str_def)

lemma toy_create_runs: "\<exists>rsp w'. create_project toy_lib toy_web toy_root toy_new toy_server = (Val rsp, w')"
proof -
  have "valid_project ''new''" by (simp add: valid_project_def is_ascii_alnum_def)
  moreover have "find_project toy_db ''new'' = None" by (simp add: find_project_def toy_db_def)
  moreover obtain d where "insert_project ''new'' (bytes_str (le_bytes 10 0)) toy_db = Inr ((), d)"
    by (simp add: insert_project_def toy_db_def)
  ultimately show ?thesis
    by (simp add: create_project_def toy_new_body toy_root_def ensure_scope_def run_healthy toy_healthy
        mapErrP_def create_project_row_def now_rfc3339_ok [OF, of toy_lib toy_server] toy_format0 sql_def Let_def)
qed

theorem create_project_refines_witness:
  "\<exists>rsp w'. create_project toy_lib toy_web toy_root toy_new toy_server = (Val rsp, w') \<and>
     vault toy_lib toy_key (wdb w') ''new'' = Some Map.empty"
proof -
  from toy_create_runs obtain rsp w' where run: "create_project toy_lib toy_web toy_root toy_new toy_server = (Val rsp, w')" by blast
  from create_project_refines [OF _ run, where K = toy_key] toy_db_wf toy_new_body have
    "vault toy_lib toy_key (wdb w') ''new'' = Some Map.empty" by auto
  with run show ?thesis by blast
qed

text \<open>Listing projects shows the vault's domain in name order, all of it to an unscoped token
  and only its own project to a scoped one.\<close>
theorem list_projects_shows_domain:
  assumes "db_wf (wdb w)" and "list_projects token w = (Val rsp, w')"
  shows "\<exists>ps. rsp = respond 200 (JObj [(''projects'', JArr (map project_json ps))]) \<and>
    map p_name ps = filter (scope_allows (at_scope token)) (sorted_list_of_set (dom (vault L K (wdb w)))) \<and> wdb w' = wdb w"
  by (rule list_projects_ValD [OF assms])

lemma toy_list_runs: "\<exists>rsp. list_projects toy_root toy_server = (Val rsp, toy_server)"
  by (simp add: list_projects_def run_healthy toy_healthy list_projects_rows_def)

theorem list_projects_shows_domain_witness:
  "\<exists>rsp ps. list_projects toy_root toy_server = (Val rsp, toy_server) \<and>
     rsp = respond 200 (JObj [(''projects'', JArr (map project_json ps))]) \<and> set (map p_name ps) = {''app'', ''web''}"
proof -
  from toy_list_runs obtain rsp where run: "list_projects toy_root toy_server = (Val rsp, toy_server)" ..
  from list_projects_shows_domain [OF _ run, where L = toy_lib and K = toy_key] toy_db_wf obtain ps where
    rsp: "rsp = respond 200 (JObj [(''projects'', JArr (map project_json ps))])"
    and ps: "map p_name ps = filter (scope_allows None) (sorted_list_of_set (dom (vault toy_lib toy_key toy_db)))"
    by (auto simp: toy_root_def)
  have "set (map p_name ps) = dom (vault toy_lib toy_key toy_db)"
    unfolding ps by (simp add: scope_allows_def dom_vault)
  also have "\<dots> = {''app'', ''web''}" by (simp add: dom_vault toy_db_def)
  finally show ?thesis using run rsp by blast
qed

section \<open>Every request\<close>

text \<open>No request can break the database. Whatever the request, however it ends, and whichever
  statements fail, the schema's constraints still hold, every stored secret still opens under
  the server's key, and the key still opens the stored verifier.\<close>
theorem requests_keep_vault_readable:
  assumes "aead_ok L" and "ct_ok L" and "web_ok W" and "db_wf (wdb w)" and "readable L K (wdb w)" and "opens_verifier L K (wdb w)"
  shows "let d = wdb (snd (handle L W K req w)) in db_wf d \<and> readable L K d \<and> opens_verifier L K d"
  using handle_change [OF assms(1-3), of K req w] assms(4-6)
  by (auto simp: changes_def request_change_def Let_def api_change_wf api_change_readable api_change_opens)

lemma toy_opens_verifier: "opens_verifier toy_lib toy_key toy_db"
  using toy_verified by (auto simp: verified_key_def)

theorem requests_keep_vault_readable_witness:
  "db_wf (wdb (snd (handle toy_lib toy_web toy_key toy_put toy_server)))"
  using requests_keep_vault_readable [OF toy_aead toy_ct toy_web_ok, of toy_server toy_key toy_put]
    toy_db_wf toy_readable toy_opens_verifier by (simp add: Let_def)

text \<open>A request whose token is not accepted changes no table, whatever it asks for.\<close>
theorem unauthenticated_changes_nothing:
  assumes "aead_ok L" and "ct_ok L" and "web_ok W" and "\<And>a. \<not> accepted L W req (wclock w) (wdb w) a"
  shows "wdb (snd (handle L W K req w)) = wdb w"
  using handle_change [OF assms(1-3), of K req w] assms(4)
  by (auto simp: changes_def request_change_def)

theorem unauthenticated_changes_nothing_witness:
  "wdb (snd (handle toy_lib toy_web toy_key (toy_request POST ''/v1/tokens'' ''x'' ''n'') toy_server)) = toy_db"
  using unauthenticated_changes_nothing [OF toy_aead toy_ct toy_web_ok, of "toy_request POST ''/v1/tokens'' ''x'' ''n''" toy_server]
  by (simp add: toy_accepted)

text \<open>C12: a request that can only be accepted with the scope of one project changes no other
  project of the vault and no token.\<close>
theorem scope_confines_changes:
  assumes "aead_ok L" and "ct_ok L" and "web_ok W" and "db_wf (wdb w)"
    and "\<And>a. accepted L W req (wclock w) (wdb w) a \<Longrightarrow> at_scope a = Some p" and "q \<noteq> p"
  shows "vault L K (wdb (snd (handle L W K req w))) q = vault L K (wdb w) q \<and>
    db_tokens (wdb (snd (handle L W K req w))) = db_tokens (wdb w)"
  using handle_change [OF assms(1-3), of K req w] assms(4-6)
  by (auto simp: changes_def request_change_def dest!: assms(5) dest: api_change_scope api_change_tokens)

theorem scope_confines_changes_witness:
  "db_tokens (wdb (snd (handle toy_lib toy_web toy_key (toy_request POST ''/v1/tokens'' ''c'' ''n'') toy_server))) = db_tokens toy_db"
  using scope_confines_changes [OF toy_aead toy_ct toy_web_ok, of toy_server "toy_request POST ''/v1/tokens'' ''c'' ''n''" "''app''" "''web''"]
    toy_db_wf by (simp add: toy_accepted)

section \<open>Tokens\<close>

text \<open>C19: who is let in. On a healthy server the extractor accepts a bearer text exactly when an
  unrevoked row with its hash has not expired by the clock (a timestamp that does not parse
  counts as expired), and then as the identity of the last such row; otherwise it refuses
  with 401. Nothing but the clock step changes.\<close>
theorem token_check_decides:
  assumes "ct_ok L" and "healthy w"
  shows "from_request_parts L W (rq_auth req) w =
    (case extract_bearer W (rq_auth req) of
       None \<Rightarrow> (Fail Unauthorized, w)
     | Some t \<Rightarrow> (case last_opt (filter (\<lambda>r. tk_revoked r = 0 \<and> tk_hash r = hash_token L t \<and>
           (case tk_expires_at r of None \<Rightarrow> True
            | Some s \<Rightarrow> (\<exists>e. rfc3339_parse L s = Some e \<and> wclock w (wtick w) < e))) (db_tokens (wdb w))) of
         None \<Rightarrow> (Fail Unauthorized, w\<lparr>wtick := Suc (wtick w)\<rparr>)
       | Some r \<Rightarrow> (Val \<lparr>at_name = tk_name r, at_scope = tk_scope r\<rparr>, w\<lparr>wtick := Suc (wtick w)\<rparr>)))"
proof -
  have f: "filter (admits L (wclock w (wtick w)) h) rows = filter (\<lambda>r. tk_revoked r = 0 \<and> tk_hash r = h \<and>
       (case tk_expires_at r of None \<Rightarrow> True | Some s \<Rightarrow> (\<exists>e. rfc3339_parse L s = Some e \<and> wclock w (wtick w) < e))) rows" for h rows
    by (rule filter_cong) (auto simp: admits_def active_def unexpired_def split: option.splits)
  have a: "authenticate L h w = (Val (who L (wclock w (wtick w)) h (db_tokens (wdb w))), w\<lparr>wtick := Suc (wtick w)\<rparr>)" for h
    using assms by (simp add: authenticate_Val_iff healthy_def)
  show ?thesis using assms(2)
    by (auto simp: from_request_parts_def run_healthy mapErrP_def a who_def f identity_of_def split: option.splits)
qed

theorem token_check_decides_witness:
  "from_request_parts toy_lib toy_web (rq_auth (toy_request GET [] ''c'' [])) toy_server =
     (Val \<lparr>at_name = ''ci'', at_scope = Some ''app''\<rparr>, toy_server\<lparr>wtick := 1\<rparr>)"
  using token_check_decides [OF toy_ct toy_healthy, of toy_web "toy_request GET [] ''c'' []"]
  by (simp add: toy_bearer toy_db_def toy_hash_inject last_opt_def)

text \<open>C33: a token works as issued. The token text returned by a successful POST /v1/tokens, asked
  for by an unscoped token, is accepted as the requested name and scope at every instant
  before its expiry (90 days by default, for ever with no_expiry).\<close>
theorem issued_token_is_accepted:
  assumes "time_ok L" and "create_token L W token req w = (Val rsp, w')"
  shows "\<exists>b t e. json_body W (parse_create_token W) req = Inr b \<and> at_scope token = None \<and>
    rsp = respond 201 (JObj [(''name'', JStr (ct_name b)), (''scope'', opt_json (ct_project b)),
       (''expires_at'', opt_json e), (''token'', JStr t)]) \<and>
    (\<forall>now. ct_no_expiry b \<or> now < expiry_instant (wclock w (wtick w)) b \<longrightarrow>
      who L now (hash_token L t) (db_tokens (wdb w')) = Some \<lparr>at_name = ct_name b, at_scope = ct_project b\<rparr>)"
  by (rule create_token_ValD [OF assms])

definition toy_issue :: request where
  "toy_issue = toy_request POST ''/v1/tokens'' ''r'' ''new''"

lemma toy_issue_body: "json_body toy_web (parse_create_token toy_web) toy_issue =
    Inr \<lparr>ct_name = ''new'', ct_project = None, ct_ttl_days = Some 1, ct_no_expiry = False\<rparr>"
  by (simp add: json_body_def toy_web_def toy_issue_def toy_request_def BODY_LIMIT_def)
    (rule ascii_is_str, simp add: ascii_str_def)

lemma toy_issue_runs: "\<exists>rsp w'. create_token toy_lib toy_web toy_root toy_issue toy_server = (Val rsp, w')"
proof -
  have "valid_project ''new''" by (simp add: valid_project_def is_ascii_alnum_def)
  moreover have "token_expiry toy_lib \<lparr>ct_name = ''new'', ct_project = None, ct_ttl_days = Some 1, ct_no_expiry = False\<rparr> toy_server =
      (Val (Some (bytes_str (le_bytes 10 86400000000000))), toy_server\<lparr>wtick := 1\<rparr>)"
    by (simp add: token_expiry_def bindP_def now_utc_def toy_lib_def toy_format_def)
  moreover have "wclock toy_server 1 = 0" by (simp add: toy_server_def)
  ultimately show ?thesis
    by (simp add: create_token_def mint_token_def issue_token_def toy_issue_body toy_root_def ensure_admin_def liftP_def body_of_def bindP_def
        generate_token_def fill_bytes_def with_db_def mapErrP_def insert_token_def now_rfc3339_def now_utc_def
        toy_format0 sql_def Let_def)
qed

theorem issued_token_is_accepted_witness:
  "\<exists>rsp w' t. create_token toy_lib toy_web toy_root toy_issue toy_server = (Val rsp, w') \<and>
     who toy_lib 5 (hash_token toy_lib t) (db_tokens (wdb w')) = Some \<lparr>at_name = ''new'', at_scope = None\<rparr>"
proof -
  from toy_issue_runs obtain rsp w' where run: "create_token toy_lib toy_web toy_root toy_issue toy_server = (Val rsp, w')" by blast
  from issued_token_is_accepted [OF toy_time run] obtain t where
    "5 < expiry_instant 0 \<lparr>ct_name = ''new'', ct_project = None, ct_ttl_days = Some 1, ct_no_expiry = False\<rparr> \<longrightarrow>
     who toy_lib 5 (hash_token toy_lib t) (db_tokens (wdb w')) = Some \<lparr>at_name = ''new'', at_scope = None\<rparr>"
    by (auto simp: toy_issue_body)
  with run show ?thesis by (auto simp: expiry_instant_def)
qed

text \<open>Revocation shuts a name out. After a successful DELETE of a token name, every presented
  hash is accepted at every instant exactly as if the rows of that name were not there; the
  answer counts the rows that were active.\<close>
theorem revoked_name_is_shut_out:
  assumes "revoke_token token name w = (Val rsp, w')"
  shows "at_scope token = None \<and>
    (\<forall>now h. who L now h (db_tokens (wdb w')) = who L now h (filter (\<lambda>r. tk_name r \<noteq> name) (db_tokens (wdb w)))) \<and>
    rsp = respond 200 (JObj [(''revoked'', JInt (int (length (filter (\<lambda>r. tk_name r = name \<and> active r) (db_tokens (wdb w))))))])"
  using revoke_token_ValD [OF assms] by (simp add: who_revoke_rows)

theorem revoked_name_is_shut_out_witness:
  "\<exists>rsp w'. revoke_token toy_root ''ci'' toy_server = (Val rsp, w') \<and> who toy_lib 0 (hash_token toy_lib ''c'') (db_tokens (wdb w')) = None"
proof -
  have "valid_project ''ci''" by (simp add: valid_project_def is_ascii_alnum_def)
  then obtain rsp w' where run: "revoke_token toy_root ''ci'' toy_server = (Val rsp, w')"
    by (simp add: revoke_token_def toy_root_def ensure_admin_def run_healthy toy_healthy mapErrP_def revoke_token_rows_def sql_def)
  have "who toy_lib 0 (hash_token toy_lib ''c'') (filter (\<lambda>r. tk_name r \<noteq> ''ci'') (db_tokens toy_db)) = None"
    by (simp add: who_None_iff toy_db_def admits_def toy_hash_inject)
  with revoked_name_is_shut_out [OF run, of toy_lib] run show ?thesis by auto
qed

text \<open>Token administration needs an unscoped token: with a scoped one every operation on
  tokens ends with 403 before it reads the body or touches the state.\<close>
theorem scoped_tokens_do_not_administer:
  "create_token L W \<lparr>at_name = n, at_scope = Some p\<rparr> req w = (Fail Forbidden, w) \<and>
   list_tokens \<lparr>at_name = n, at_scope = Some p\<rparr> w = (Fail Forbidden, w) \<and>
   revoke_token \<lparr>at_name = n, at_scope = Some p\<rparr> name w = (Fail Forbidden, w)"
  by (simp add: create_token_def mint_token_def list_tokens_def revoke_token_def ensure_admin_def)

text \<open>Names are checked before anything is looked up: with a token that may touch the project,
  an invalid project or key name is answered 400 on every project route, never 404, and the
  tables are not read.\<close>
theorem invalid_names_are_400:
  assumes "\<not> valid_project p \<or> \<not> valid_key k" and "scope_allows (at_scope token) p"
    and "json_body W (parse_set_secret W) req = Inr v"
  shows "(\<exists>m. delete_secret token p k w = (Fail (BadRequest m), w)) \<and>
    (\<exists>m. put_secret L W K token p k req w = (Fail (BadRequest m), w))"
  using assms by (auto simp: delete_secret_def put_secret_def body_of_def scope_allows_def ensure_scope_def)

theorem invalid_names_are_400_witness:
  "\<exists>m. delete_secret toy_root [] ''K'' toy_server = (Fail (BadRequest m), toy_server)"
  using invalid_names_are_400 [OF _ _ toy_put_body, of "[]" "''K''" toy_root toy_server] by (simp add: toy_root_def scope_allows_def)

section \<open>Failures\<close>

text \<open>Every failure of a procedure is in a set, and every value in another.\<close>

definition ends_in :: "'e set \<Rightarrow> 'a set \<Rightarrow> ('s, 'e, 'a) proc \<Rightarrow> bool" where
  "ends_in E A m \<longleftrightarrow> (\<forall>w. case fst (m w) of Val x \<Rightarrow> x \<in> A | Fail e \<Rightarrow> e \<in> E | Panic \<Rightarrow> True)"

lemma ends_bind: "ends_in E UNIV m \<Longrightarrow> (\<And>x. ends_in E A (f x)) \<Longrightarrow> ends_in E A (bindP m f)"
  by (auto simp: ends_in_def bindP_def split: prod.splits outcome.splits) (metis fst_conv outcome.simps)+

lemma ends_ret: "x \<in> A \<Longrightarrow> ends_in E A (retP x)"
  by (simp add: ends_in_def)

lemma ends_throw: "e \<in> E \<Longrightarrow> ends_in E A (throwP e)"
  by (simp add: ends_in_def)

lemma ends_panic: "ends_in E A panicP"
  by (simp add: ends_in_def)

lemma ends_lift: "(\<And>e. r = Inl e \<Longrightarrow> e \<in> E) \<Longrightarrow> ends_in E UNIV (liftP r)"
  by (cases r) (simp_all add: ends_in_def)

lemma ends_okOr: "e \<in> E \<Longrightarrow> ends_in E UNIV (okOrP e r)"
  by (cases r) (simp_all add: ends_in_def)

lemma ends_mapErr: "(\<And>e. g e \<in> E) \<Longrightarrow> ends_in E UNIV (mapErrP g m)"
  by (auto simp: ends_in_def mapErrP_def split: prod.splits outcome.splits)

lemma ends_with_db: "Internal tag \<in> E \<Longrightarrow> ends_in E A m \<Longrightarrow> ends_in E A (with_db tag m)"
  by (auto simp: ends_in_def with_db_def split: prod.splits outcome.splits) (metis fst_conv outcome.simps)+

lemma ends_if: "(b \<Longrightarrow> ends_in E A m) \<Longrightarrow> (\<not> b \<Longrightarrow> ends_in E A n) \<Longrightarrow> ends_in E A (if b then m else n)"
  by simp

lemma ends_prod: "(\<And>a b. ends_in E A (f a b)) \<Longrightarrow> ends_in E A (case x of (a, b) \<Rightarrow> f a b)"
  by (cases x) simp

lemma ends_option: "ends_in E A m \<Longrightarrow> (\<And>y. ends_in E A (f y)) \<Longrightarrow> ends_in E A (case x of None \<Rightarrow> m | Some y \<Rightarrow> f y)"
  by (cases x) simp_all

lemma ends_now: "ends_in E UNIV now_utc"
  by (simp add: ends_in_def now_utc_def)

lemma ends_fill: "ends_in E UNIV (fill_bytes n)"
  by (simp add: ends_in_def fill_bytes_def)

lemmas ends = ends_bind ends_ret ends_throw ends_panic ends_lift ends_okOr ends_mapErr ends_with_db ends_if
  ends_prod ends_option ends_now ends_fill

text \<open>The texts an error answer may carry.\<close>

definition error_texts :: "string set" where
  "error_texts = {''unauthorized'', ''forbidden'', ''not found'', ''payload too large'', ''internal error'',
     ''invalid JSON body'', ''invalid project name'', ''invalid key name'', ''invalid token name'',
     ''invalid project scope name'', ''ttl_days cannot be used with no_expiry'', ''ttl_days must be at least 1'',
     ''project already exists''}"

definition fixed_errors :: "app_error set" where
  "fixed_errors = {e. snd (error_status e) \<in> error_texts}"

definition good_response :: "response set" where
  "good_response = {r. rs_status r < 300}"

lemma fixed_errors_simps [simp]:
  "Unauthorized \<in> fixed_errors" "Forbidden \<in> fixed_errors" "NotFound \<in> fixed_errors" "PayloadTooLarge \<in> fixed_errors"
  "Internal t \<in> fixed_errors" "BadRequest m \<in> fixed_errors \<longleftrightarrow> m \<in> error_texts" "Conflict m \<in> fixed_errors \<longleftrightarrow> m \<in> error_texts"
  "from_sql e \<in> fixed_errors"
  by (simp_all add: fixed_errors_def error_texts_def from_sql_def)

lemma ends_body: "ends_in fixed_errors UNIV (body_of W parse req)"
  unfolding body_of_def by (intro ends) (simp add: map_json_rejection_def error_texts_def)

lemma ends_scope: "ends_in fixed_errors UNIV (liftP (ensure_scope t p))"
  by (intro ends) (auto simp: ensure_scope_def split: option.splits if_splits)

lemma ends_admin: "ends_in fixed_errors UNIV (liftP (ensure_admin t))"
  by (intro ends) (auto simp: ensure_admin_def split: if_splits)

lemma open_rows_fixed: "open_rows L K p rows out = Inl e \<Longrightarrow> e \<in> fixed_errors"
  by (induction L K p rows out rule: open_rows.induct) (auto split: sum.splits option.splits)

lemma ends_expiry: "ends_in fixed_errors UNIV (token_expiry L b)"
  unfolding token_expiry_def Let_def by (intro ends) (simp_all add: error_texts_def)

lemma ends_handlers:
  "ends_in fixed_errors good_response (create_project L W t req)"
  "ends_in fixed_errors good_response (list_projects t)"
  "ends_in fixed_errors good_response (get_secrets L K t p)"
  "ends_in fixed_errors good_response (put_secret L W K t p k req)"
  "ends_in fixed_errors good_response (delete_secret t p k)"
  "ends_in fixed_errors good_response (create_token L W t req)"
  "ends_in fixed_errors good_response (list_tokens t)"
  "ends_in fixed_errors good_response (revoke_token t p)"
  unfolding create_project_def list_projects_def get_secrets_def put_secret_def delete_secret_def
    create_token_def mint_token_def issue_token_def list_tokens_def revoke_token_def generate_token_def
  by (intro ends_body ends_scope ends_admin ends_expiry ends,
      auto simp: respond_def good_response_def error_texts_def dest: open_rows_fixed)+

lemma ends_then: "ends_in E B m \<Longrightarrow> (\<And>x. x \<in> B \<Longrightarrow> ends_in E A (f x)) \<Longrightarrow> ends_in E A (bindP m f)"
  by (auto simp: ends_in_def bindP_def split: prod.splits outcome.splits) (metis fst_conv outcome.simps)+

text \<open>The error bodies: none, one of the fixed texts as JSON, or the framework's text about a path
  parameter.\<close>

definition plain_error :: "web \<Rightarrow> response \<Rightarrow> bool" where
  "plain_error W r \<longleftrightarrow> rs_body r = None \<or> (\<exists>m \<in> error_texts. rs_body r = Some (JsonBody (JObj [(''error'', JStr m)]))) \<or>
     (\<exists>param \<in> {''name'', ''key''}. r = path_rejected W param)"

definition safe_response :: "web \<Rightarrow> response set" where
  "safe_response W = {r. rs_status r < 300 \<or> plain_error W r}"

lemma plain_is_safe [simp]: "plain_status n \<in> safe_response W"
  by (simp add: plain_status_def safe_response_def plain_error_def)

lemma ends_into_response: "ends_in fixed_errors (safe_response W) m \<Longrightarrow> ends_in {} (safe_response W) (into_response m)"
proof -
  assume a: "ends_in fixed_errors (safe_response W) m"
  have "e \<in> fixed_errors \<Longrightarrow> error_response e \<in> safe_response W" for e
    by (auto simp: error_response_def safe_response_def plain_error_def fixed_errors_def Let_def split: prod.splits)
  note fixed = this
  show ?thesis unfolding ends_in_def
  proof
    fix w
    obtain r w' where m: "m w = (r, w')" by (cases "m w")
    from a m have "case r of Val x \<Rightarrow> x \<in> safe_response W | Fail e \<Rightarrow> e \<in> fixed_errors | Panic \<Rightarrow> True"
      by (metis ends_in_def fst_conv)
    with m fixed show "case fst (into_response m w) of Val x \<Rightarrow> x \<in> safe_response W | Fail e \<Rightarrow> e \<in> {} | Panic \<Rightarrow> True"
      by (cases r) (simp_all add: into_response_def)
  qed
qed

lemma ends_mono: "ends_in E A m \<Longrightarrow> A \<subseteq> B \<Longrightarrow> ends_in E B m"
  by (force simp: ends_in_def split: outcome.splits)

lemma good_is_safe: "good_response \<subseteq> safe_response W"
  by (auto simp: good_response_def safe_response_def)

lemma rejected_is_safe: "param \<in> {''name'', ''key''} \<Longrightarrow> path_rejected W param \<in> safe_response W"
  by (auto simp: safe_response_def plain_error_def)

lemma ends_with_path:
  assumes "fst ` set segs \<subseteq> {''name'', ''key''}" and "\<And>p. ends_in E (safe_response W) (f p)"
  shows "ends_in E (safe_response W) (with_path W segs f)"
proof (cases "find (\<lambda>(param, s). path_decode W s = None) segs")
  case (Some x)
  with assms(1) have "fst x \<in> {''name'', ''key''}" by (intro subsetD [OF assms(1)] imageI) (rule find_Some_in [THEN conjunct2])
  with Some show ?thesis by (cases x) (simp add: with_path_def ends_ret rejected_is_safe)
qed (simp add: with_path_def assms(2))

lemmas safe_handlers = ends_handlers [THEN ends_mono, OF good_is_safe]

lemma ends_endpoint: "endpoint L W K req r m = Some h \<Longrightarrow> ends_in fixed_errors (safe_response W) (h a)"
  by (cases "(L, W, K, req, r, m)" rule: endpoint.cases) (auto intro!: ends_with_path safe_handlers)

lemma ends_token: "ends_in fixed_errors UNIV (from_request_parts L W h)"
  unfolding from_request_parts_def by (intro ends) simp_all

lemma ends_serve_route: 
  fixes r :: route and L :: lib
  shows "ends_in {} (safe_response W) (serve_route L W K req r :: ('m server_scheme, app_error, response) proc)"
proof (cases "r = RHealth")
  case True
  then show ?thesis
    by (simp add: serve_route_def ends_ret) (simp add: ends_ret health_def respond_def safe_response_def)
next
  case False
  show ?thesis
  proof (cases "endpoint L W K req r (rq_method req) :: (authed_token \<Rightarrow> ('m server_scheme, app_error, response) proc) option")
    case None
    with False show ?thesis by (simp add: serve_route_def ends_ret)
  next
    case (Some h)
    then have "ends_in {} (safe_response W) (authed L W req h)"
      unfolding authed_def by (intro ends_into_response ends_bind ends_token ends_endpoint)
    with False Some show ?thesis by (simp add: serve_route_def)
  qed
qed

lemma ends_handle: "ends_in {} (safe_response W) (handle L W K req)"
proof -
  have tok: "ends_in {} UNIV (resolve_token_name L W h)" for h :: "byte list option"
    by (auto simp: resolve_token_name_def ends_in_def optional_def split: option.splits prod.splits outcome.splits)
  have rec: "ends_in {} UNIV (audit_record L m p pr t st)" for m p pr t st
    by (auto simp: audit_record_def now_rfc3339_def now_utc_def bindP_def ends_in_def Let_def split: option.splits)
  have head: "r \<in> safe_response W \<Longrightarrow> strip_head req r \<in> safe_response W" for r
    by (auto simp: strip_head_def safe_response_def plain_error_def)
  have route: "ends_in {} (safe_response W) (case match_route (rq_path req) of None \<Rightarrow> retP (plain_status 404) | Some r \<Rightarrow> serve_route L W K req r)"
    by (cases "match_route (rq_path req)") (simp_all add: ends_ret ends_serve_route)
  show ?thesis unfolding handle_def audit_middleware_def Let_def
    by (rule ends_bind [OF tok], rule ends_then [where B = "safe_response W"],
        rule ends_then [where B = "safe_response W", OF route], rule ends_ret, erule head,
        rule ends_bind [OF rec], erule ends_ret)
qed

text \<open>C24: errors say nothing. Every answer of the service with a status of 300 or more has no body,
  or a JSON object with one of a fixed list of texts as its only content, or is the framework's
  400 about a path that does not decode, whose text is chosen by the name of the route parameter
  alone: nothing of the database, of the request's values, or of a failing primitive reaches
  it. A request never ends with an error value that is not turned into an answer.\<close>
theorem error_answers_are_fixed:
  "case fst (handle L W K req w) of
     Val rsp \<Rightarrow> rs_status rsp < 300 \<or> rs_body rsp = None \<or>
       rs_body rsp \<in> (\<lambda>m. Some (JsonBody (JObj [(''error'', JStr m)]))) ` error_texts \<or>
       rs_status rsp = 400 \<and> rs_body rsp \<in> (\<lambda>param. Some (TextBody (path_rejection W param))) ` {''name'', ''key''}
   | Fail e \<Rightarrow> False
   | Panic \<Rightarrow> True"
proof -
  have "case fst (handle L W K req w) of Val rsp \<Rightarrow> rsp \<in> safe_response W | Fail e \<Rightarrow> e \<in> {} | Panic \<Rightarrow> True"
    using ends_handle [where L = L and W = W and K = K and req = req] unfolding ends_in_def by (rule spec)
  then show ?thesis
    by (cases "fst (handle L W K req w)") (auto simp: safe_response_def plain_error_def path_rejected_def)
qed

text \<open>A panic under the database lock closes the service. Once the mutex is poisoned, every
  authenticated route refuses without running its handler and without touching the state:
  401 for a request without a bearer token, 500 for any other.\<close>
theorem poisoned_mutex_refuses:
  assumes "poisoned w"
  shows "authed L W req h w =
    (Val (error_response (if extract_bearer W (rq_auth req) = None then Unauthorized else Internal ''db lock poisoned'')), w)"
  using assms
  by (auto simp: authed_def into_response_def from_request_parts_def bindP_def with_db_def split: option.splits)

theorem poisoned_mutex_refuses_witness:
  "serve_route toy_lib toy_web toy_key toy_issue RTokens (toy_server\<lparr>poisoned := True\<rparr>) =
     (Val (error_response (Internal ''db lock poisoned'')), toy_server\<lparr>poisoned := True\<rparr>)"
  using poisoned_mutex_refuses [of "toy_server\<lparr>poisoned := True\<rparr>" toy_lib toy_web toy_issue "\<lambda>t. create_token toy_lib toy_web t toy_issue"]
    toy_bearer [of "CHR ''r''" POST "''/v1/tokens''" "''new''"]
  by (simp add: serve_route_def toy_issue_def) (simp add: toy_request_def)

section \<open>The audit log\<close>

text \<open>One record per answer. When the log can be written, every answered request appends
  exactly one record: the method, the route template (never the raw path), the project
  segment of project routes only, the status answered, and as token either nothing or the
  name of an identity the presented token was accepted as.\<close>
theorem one_record_per_answer:
  assumes "ct_ok L" and "handle L W K req w = (Val rsp, w')" and "audit_io w = []"
  shows "\<exists>ts name. audit_log w' = audit_log w @ [\<lparr>ae_ts = ts, ae_token = name, ae_method = method_str (rq_method req),
      ae_path = (case match_route (rq_path req) of None \<Rightarrow> ''(unmatched)'' | Some r \<Rightarrow> template r),
      ae_project = logged_project (map_option template (match_route (rq_path req))) (rq_path req),
      ae_status = rs_status rsp\<rparr>] \<and>
    (name = None \<or> (\<exists>a. accepted L W req (wclock w) (wdb w) a \<and> name = Some (at_name a)))"
proof -
  let ?route = "case match_route (rq_path req) of None \<Rightarrow> retP (plain_status 404) | Some r \<Rightarrow> serve_route L W K req r"
  have tmpl: "(case map_option template x of None \<Rightarrow> a | Some t \<Rightarrow> t) = (case x of None \<Rightarrow> a | Some r \<Rightarrow> template r)" for x a
    by (cases x) simp_all
  from assms(2) [unfolded handle_def audit_middleware_def Let_def tmpl]
  obtain name w1 r1 w2 where n: "resolve_token_name L W (rq_auth req) w = (Val name, w1)"
    and r: "?route w1 = (Val r1, w2)" and rsp: "rsp = strip_head req r1"
    and rec: "audit_record L (rq_method req)
        (case match_route (rq_path req) of None \<Rightarrow> ''(unmatched)'' | Some r \<Rightarrow> template r)
        (logged_project (map_option template (match_route (rq_path req))) (rq_path req)) name (rs_status rsp) w2 =
        (Val () :: (app_error, unit) outcome, w')"
    by (auto simp: bindP_Val_iff)
  have k1: "keeps f (resolve_token_name L W (rq_auth req))" if "outside_db f" for f :: "'a server_scheme \<Rightarrow> 'c"
    using that by (intro keeps_resolve_token_name) (simp_all add: outside_db_def)
  have k2: "keeps f ?route" if "outside_db f" for f :: "'a server_scheme \<Rightarrow> 'c"
    using that by (auto intro: keeps_serve_route keeps_retP split: option.splits)
  have "audit_log w2 = audit_log w" "audit_io w2 = audit_io w"
    using keepsD' [OF k1 n] keepsD' [OF k2 r] audit_outside by metis+
  with audit_record_Val [OF rec] assms(3) resolve_token_name_Val [OF assms(1) n] show ?thesis
    by auto
qed

definition toy_ping :: request where
  "toy_ping = \<lparr>rq_method = GET, rq_path = ''/v1/health'', rq_auth = None, rq_content_type = None, rq_body = []\<rparr>"

lemma toy_ping_route: "match_route (rq_path toy_ping) = Some RHealth"
  by (simp add: toy_ping_def match_route_def)

lemma toy_ping_runs: "\<exists>w'. handle toy_lib toy_web toy_key toy_ping toy_server = (Val health, w')"
proof -
  have "resolve_token_name toy_lib toy_web (rq_auth toy_ping) toy_server = (Val None :: (app_error, string option) outcome, toy_server)"
    by (simp add: resolve_token_name_def toy_ping_def extract_bearer_def)
  moreover have "serve_route toy_lib toy_web toy_key toy_ping RHealth toy_server = (Val health, toy_server)"
    by (simp add: serve_route_def toy_ping_def)
  moreover have "\<exists>w'. audit_record toy_lib GET p pr t st toy_server = (Val () :: (app_error, unit) outcome, w')" for p pr t st
    by (simp add: audit_record_def bindP_def now_rfc3339_ok [OF toy_format0 [folded toy_server_simps(6), folded toy_server_simps(5)]] Let_def)
  moreover have "strip_head toy_ping r = r" for r
    by (simp add: strip_head_def toy_ping_def)
  moreover have "rq_method toy_ping = GET" by (simp add: toy_ping_def)
  ultimately show ?thesis
    by (auto simp: handle_def audit_middleware_def Let_def bindP_def toy_ping_route split: prod.splits outcome.splits)
      (metis outcome.distinct outcome.inject prod.inject)+
qed

theorem one_record_per_answer_witness:
  "\<exists>w' ts. handle toy_lib toy_web toy_key toy_ping toy_server = (Val health, w') \<and>
     audit_log w' = [\<lparr>ae_ts = ts, ae_token = None, ae_method = ''GET'', ae_path = ''/v1/health'', ae_project = None, ae_status = 200\<rparr>]"
proof -
  from toy_ping_runs obtain w' where run: "handle toy_lib toy_web toy_key toy_ping toy_server = (Val health, w')" ..
  have "audit_io toy_server = []" "audit_log toy_server = []" by (simp_all add: toy_server_def)
  with one_record_per_answer [OF toy_ct run] run show ?thesis
    by (auto simp: toy_ping_route [unfolded toy_ping_def, simplified] accepted_def toy_ping_def extract_bearer_def
        logged_project_def PROJECT_PREFIX_def strip_prefix_def health_def respond_def)
qed

text \<open>C35: a logged segment is bounded and stays text: at most 64 bytes, a prefix of the segment,
  valid UTF-8 again, at most 3 bytes shorter than the limit, and the segment itself when it
  fits.\<close>
theorem logged_segment_is_bounded:
  assumes "is_str s"
  shows "is_str (truncate_for_log s) \<and> length (truncate_for_log s) \<le> 64 \<and>
    (\<exists>rest. s = truncate_for_log s @ rest) \<and> min (length s) 64 \<le> length (truncate_for_log s) + 3 \<and>
    (length s \<le> 64 \<longrightarrow> truncate_for_log s = s)"
proof -
  let ?i = "min (length s) 64" and ?e = "boundary_before s (min (length s) 64)"
  note b = boundary_before_spec [of s ?i]
  have "?e \<le> length s" using b by simp
  then have len: "length (truncate_for_log s) = ?e" by (simp add: truncate_for_log_def)
  have "utf8_valid (take ?e (str_bytes s))"
    using assms b by (intro utf8_valid_take) (auto simp: is_str_def is_char_boundary_bytes)
  then have "is_str (truncate_for_log s)" by (simp add: is_str_def truncate_for_log_def str_bytes_def take_map)
  moreover have "?i \<le> ?e + 3" using boundary_before_near [OF assms, of ?i] by simp
  moreover have "s = truncate_for_log s @ drop ?e s" by (simp add: truncate_for_log_def)
  moreover have "length s \<le> 64 \<Longrightarrow> truncate_for_log s = s"
  proof -
    assume "length s \<le> 64"
    then have "?i = length s" by simp
    moreover have "is_char_boundary s (length s)" by (simp add: is_char_boundary_def)
    ultimately have "length s \<le> ?e" using b by (metis order_refl)
    then show ?thesis by (simp add: truncate_for_log_def)
  qed
  ultimately show ?thesis using b len by auto
qed

theorem logged_segment_is_bounded_witness:
  "length (truncate_for_log (replicate 70 CHR ''a'')) \<le> 64 \<and> 61 \<le> length (truncate_for_log (replicate 70 CHR ''a''))"
proof -
  have "is_str (replicate 70 CHR ''a'')" by (rule ascii_is_str) (simp add: ascii_str_def)
  from logged_segment_is_bounded [OF this] show ?thesis by simp
qed

text \<open>The truncation loop ends. The while loop that steps back from byte 64 to a character
  boundary ends for every segment, valid UTF-8 or not, never steps below 0, stops at the first
  boundary it meets, and its result is where the logged segment is cut.\<close>
theorem truncation_loop_ends:
  "\<exists>e. boundary_loop s (min (length s) 64) = Some e \<and> truncate_for_log s = take e s \<and> e \<le> min (length s) 64 \<and>
     is_char_boundary s e \<and> (\<forall>j. e < j \<longrightarrow> j \<le> min (length s) 64 \<longrightarrow> \<not> is_char_boundary s j)"
  using boundary_loop_eq [of s "min (length s) 64"] boundary_before_spec [of s "min (length s) 64"]
  unfolding truncate_for_log_def by (intro exI [of _ "boundary_before s (min (length s) 64)"]) (auto simp: not_le)

text \<open>A two-byte character across the limit.\<close>

theorem truncation_loop_ends_witness:
  "boundary_loop (replicate 63 CHR ''a'' @ [CHR 0xC3, CHR 0xA9]) 64 = Some 63"
proof -
  let ?s = "replicate 63 CHR ''a'' @ [CHR 0xC3, CHR 0xA9]"
  have over: "\<not> is_char_boundary ?s 64" and at: "is_char_boundary ?s 63"
    by (simp_all add: is_char_boundary_def nth_append utf8_cont_def char_byte_def)
  from truncation_loop_ends [of ?s] obtain e where e: "boundary_loop ?s 64 = Some e" "e \<le> 64" "is_char_boundary ?s e"
    and least: "\<And>j. e < j \<Longrightarrow> j \<le> 64 \<Longrightarrow> \<not> is_char_boundary ?s j" by auto
  have "\<not> e < 63" using least [of 63] at by auto
  moreover have "e \<noteq> 64" using e(3) over by blast
  ultimately have "e = 63" using e(2) by linarith
  with e(1) show ?thesis by simp
qed

end
