(* ===== verification/Lockstep.thy ===== *)
theory Lockstep
  imports Prelude
begin

text \<open>
  Two runs side by side: \<open>lockstep R Q m n\<close> says that from states related by \<open>R\<close> the procedures end
  alike, with results related by \<open>Q\<close> and again in related states. There is a rule for each
  combinator (collection \<open>lock\<close>).
\<close>

section \<open>Runs in lockstep\<close>

fun same_end :: "('a \<Rightarrow> 'b \<Rightarrow> bool) \<Rightarrow> ('e, 'a) outcome \<Rightarrow> ('e, 'b) outcome \<Rightarrow> bool" where
  "same_end Q (Val x) (Val y) \<longleftrightarrow> Q x y"
| "same_end Q (Fail e) (Fail f) \<longleftrightarrow> e = f"
| "same_end Q Panic Panic \<longleftrightarrow> True"
| "same_end Q _ _ \<longleftrightarrow> False"

definition lockstep :: "('s \<Rightarrow> 's \<Rightarrow> bool) \<Rightarrow> ('a \<Rightarrow> 'b \<Rightarrow> bool) \<Rightarrow> ('s, 'e, 'a) proc \<Rightarrow> ('s, 'e, 'b) proc \<Rightarrow> bool" where
  "lockstep R Q m n \<longleftrightarrow> (\<forall>s t. R s t \<longrightarrow> same_end Q (fst (m s)) (fst (n t)) \<and> R (snd (m s)) (snd (n t)))"

named_theorems lock

lemma lockstepI:
  "(\<And>s t. R s t \<Longrightarrow> same_end Q (fst (m s)) (fst (n t)) \<and> R (snd (m s)) (snd (n t))) \<Longrightarrow> lockstep R Q m n"
  by (simp add: lockstep_def)

lemma lockstepD: "lockstep R Q m n \<Longrightarrow> R s t \<Longrightarrow> same_end Q (fst (m s)) (fst (n t)) \<and> R (snd (m s)) (snd (n t))"
  by (simp add: lockstep_def)

lemma same_end_eq: "same_end (=) a b \<Longrightarrow> a = b"
  by (cases a; cases b) auto

lemma lock_ret [lock]: "Q x y \<Longrightarrow> lockstep R Q (retP x) (retP y)"
  by (simp add: lockstep_def)

lemma lock_throw [lock]: "lockstep R Q (throwP e) (throwP e)"
  by (simp add: lockstep_def)

lemma lock_panic [lock]: "lockstep R Q panicP panicP"
  by (simp add: lockstep_def)

lemma lock_bind:
  assumes m: "lockstep R Q m n" and f: "\<And>x y. Q x y \<Longrightarrow> lockstep R S (f x) (g y)"
  shows "lockstep R S (bindP m f) (bindP n g)"
proof (rule lockstepI)
  fix s t assume "R s t"
  from lockstepD [OF m this] have e: "same_end Q (fst (m s)) (fst (n t))" and r: "R (snd (m s)) (snd (n t))" by auto
  show "same_end S (fst (bindP m f s)) (fst (bindP n g t)) \<and> R (snd (bindP m f s)) (snd (bindP n g t))"
  proof (cases "fst (m s)")
    case (Val x)
    with e obtain y where y: "fst (n t) = Val y" "Q x y" by (cases "fst (n t)") auto
    with lockstepD [OF f [OF y(2)] r] Val show ?thesis by (cases "m s"; cases "n t") (simp add: bindP_def)
  next
    case (Fail x)
    with e r show ?thesis by (cases "m s"; cases "n t"; cases "fst (n t)") (auto simp: bindP_def)
  next
    case Panic
    with e r show ?thesis by (cases "m s"; cases "n t"; cases "fst (n t)") (auto simp: bindP_def)
  qed
qed

lemma lock_same:
  assumes "lockstep R (=) m n" and "\<And>x. lockstep R S (f x) (g x)"
  shows "lockstep R S (bindP m f) (bindP n g)"
  using assms by (intro lock_bind [where Q = "(=)"]) auto

lemma lock_if [lock]:
  "(b \<Longrightarrow> lockstep R Q m n) \<Longrightarrow> (\<not> b \<Longrightarrow> lockstep R Q m' n') \<Longrightarrow> lockstep R Q (if b then m else m') (if b then n else n')"
  by simp

lemma lock_map_err [lock]:
  assumes "lockstep R Q m n"
  shows "lockstep R Q (mapErrP g m) (mapErrP g n)"
proof (rule lockstepI)
  fix s t assume "R s t"
  from lockstepD [OF assms this] show
    "same_end Q (fst (mapErrP g m s)) (fst (mapErrP g n t)) \<and> R (snd (mapErrP g m s)) (snd (mapErrP g n t))"
    by (cases "m s"; cases "n t"; cases "fst (m s)"; cases "fst (n t)") (auto simp: mapErrP_def)
qed

lemma lock_lift [lock]: "lockstep R (=) (liftP r) (liftP r)"
  by (cases r) (simp_all add: lock)

lemma lock_ok_or [lock]: "lockstep R (=) (okOrP e r) (okOrP e r)"
  by (cases r) (simp_all add: lock)

lemma lock_ok_or_rel: "rel_option Q r r' \<Longrightarrow> lockstep R Q (okOrP e r) (okOrP e r')"
  by (cases r; cases r') (simp_all add: lock)

lemma lock_prod [lock]: "(\<And>a b. lockstep R Q (f a b) (g a b)) \<Longrightarrow> lockstep R Q (case x of (a, b) \<Rightarrow> f a b) (case x of (a, b) \<Rightarrow> g a b)"
  by (cases x) simp

lemma lock_option [lock]:
  "lockstep R Q m n \<Longrightarrow> (\<And>a. lockstep R Q (f a) (g a)) \<Longrightarrow>
   lockstep R Q (case x of None \<Rightarrow> m | Some a \<Rightarrow> f a) (case x of None \<Rightarrow> n | Some a \<Rightarrow> g a)"
  by (cases x) simp_all

lemma lock_getP: "(\<And>s t. R s t \<Longrightarrow> Q (f s) (g t)) \<Longrightarrow> lockstep R Q (getP f) (getP g)"
  by (simp add: lockstep_def getP_def)

text \<open>A procedure chosen by a part of the state that the relation fixes.\<close>

lemma lock_state:
  assumes "\<And>s t. R s t \<Longrightarrow> f s = f t" and "\<And>x. lockstep R Q (m x) (m x)"
  shows "lockstep R Q (\<lambda>s. m (f s) s) (\<lambda>s. m (f s) s)"
proof (rule lockstepI)
  fix s t assume r: "R s t"
  from assms(1) [OF this] lockstepD [OF assms(2) r]
  show "same_end Q (fst (m (f s) s)) (fst (m (f t) t)) \<and> R (snd (m (f s) s)) (snd (m (f t) t))" by metis
qed

end
