(* ===== verification/Twins.thy ===== *)
theory Twins
  imports Lockstep RequestEffects
begin

text \<open>
  Two databases that differ in what other projects hold: \<open>alike\<close> is what a caller confined to
  one project may see of them, and every statement on the project's rows keeps it. The runs
  of two servers on them are compared in \<open>TwinServers\<close>.
\<close>

section \<open>Databases alike for one project\<close>

text \<open>What there is to know about a project: when it was created, and its rows without their ids.\<close>

definition shown :: "secret_row \<Rightarrow> string \<times> byte list \<times> byte list \<times> int" where
  "shown r = (sr_key r, sr_nonce r, sr_ciphertext r, sr_version r)"

definition project_rows :: "database \<Rightarrow> int \<Rightarrow> (string \<times> byte list \<times> byte list \<times> int) list" where
  "project_rows d pid = map shown (filter (\<lambda>r. sr_project_id r = pid) (db_secrets d))"

definition project_view :: "database \<Rightarrow> string \<Rightarrow> (string \<times> (string \<times> byte list \<times> byte list \<times> int) list) option" where
  "project_view d p = map_option (\<lambda>r. (pr_created_at r, project_rows d (pr_id r))) (find (\<lambda>r. pr_name r = p) (db_projects d))"

definition alike :: "string \<Rightarrow> token_row list \<Rightarrow> database \<Rightarrow> database \<Rightarrow> bool" where
  "alike p T d d' \<longleftrightarrow> db_tokens d = T \<and> db_tokens d' = T \<and> project_view d p = project_view d' p \<and> db_wf d \<and> db_wf d'"

text \<open>The two ids of the project, under which the same rows are found.\<close>

definition same_rows :: "string \<Rightarrow> token_row list \<Rightarrow> int \<Rightarrow> int \<Rightarrow> database \<Rightarrow> database \<Rightarrow> bool" where
  "same_rows p T pid pid' d d' \<longleftrightarrow> alike p T d d' \<and> find_project d p = Some pid \<and> find_project d' p = Some pid'"

lemma project_viewD: "find_project d p = Some pid \<Longrightarrow> \<exists>c. project_view d p = Some (c, project_rows d pid)"
  by (auto simp: project_view_def find_project_def)

lemma find_project_mem: "find_project d p = Some pid \<Longrightarrow> pid \<in> pr_id ` set (db_projects d)"
  by (auto simp: find_project_def dest: find_Some_in)

lemma same_rowsD:
  assumes "same_rows p T pid pid' d d'"
  shows "project_rows d pid = project_rows d' pid'" "alike p T d d'" "db_wf d" "db_wf d'"
    "pid \<in> pr_id ` set (db_projects d)" "pid' \<in> pr_id ` set (db_projects d')"
proof -
  from assms have a: "alike p T d d'" and f: "find_project d p = Some pid" "find_project d' p = Some pid'"
    by (simp_all add: same_rows_def)
  from a show "alike p T d d'" "db_wf d" "db_wf d'" by (simp_all add: alike_def)
  from f show "pid \<in> pr_id ` set (db_projects d)" "pid' \<in> pr_id ` set (db_projects d')"
    by (simp_all add: find_project_mem)
  from a have "project_view d p = project_view d' p" by (simp add: alike_def)
  with f [THEN project_viewD] show "project_rows d pid = project_rows d' pid'" by auto
qed

lemma alike_project_id: "alike p T d d' \<Longrightarrow> rel_option (\<lambda>pid pid'. same_rows p T pid pid' d d') (find_project d p) (find_project d' p)"
  by (cases "find (\<lambda>r. pr_name r = p) (db_projects d)"; cases "find (\<lambda>r. pr_name r = p) (db_projects d')")
    (auto simp: same_rows_def alike_def project_view_def find_project_def)

text \<open>A change of the secrets that is the same on the project's rows keeps the databases alike.\<close>

lemma same_rows_change:
  assumes "same_rows p T pid pid' d d'"
    and "project_rows (d\<lparr>db_secrets := rs\<rparr>) pid = project_rows (d'\<lparr>db_secrets := rs'\<rparr>) pid'"
    and "db_wf (d\<lparr>db_secrets := rs\<rparr>)" and "db_wf (d'\<lparr>db_secrets := rs'\<rparr>)"
  shows "same_rows p T pid pid' (d\<lparr>db_secrets := rs\<rparr>) (d'\<lparr>db_secrets := rs'\<rparr>)"
  using assms by (auto simp: same_rows_def alike_def project_view_def find_project_def)

section \<open>The statements on a project, in terms of its rows\<close>

lemma map_insort_key: "map g (insort_key (f \<circ> g) x xs) = insort_key f (g x) (map g xs)"
  by (induction xs) auto

lemma map_sort_key: "map g (sort_key (f \<circ> g) xs) = sort_key f (map g xs)"
  by (induction xs) (simp_all add: map_insort_key [unfolded comp_def] comp_def)

lemma secret_rows_of_view:
  "secret_rows_of d pid = map (\<lambda>(k, n, c, v). \<lparr>row_key = k, row_nonce = n, row_ciphertext = c\<rparr>) (sort_key fst (project_rows d pid))"
proof -
  have "sort_key sr_key rs = sort_key (fst \<circ> shown) rs" for rs
    by (rule arg_cong [where f = "\<lambda>f. sort_key f rs"]) (simp add: shown_def fun_eq_iff)
  then show ?thesis
    by (simp add: secret_rows_of_def project_rows_def map_sort_key [symmetric]) (simp add: shown_def)
qed

lemma find_rows_view:
  "map_option shown (find (row_at pid key) rs) = find (\<lambda>q. fst q = key) (map shown (filter (\<lambda>r. sr_project_id r = pid) rs))"
  by (induction rs) (simp_all add: row_at_def shown_def)

text \<open>The upsert on what is shown of the rows.\<close>

definition put_shown :: "string \<Rightarrow> byte list \<Rightarrow> byte list \<Rightarrow> (string \<times> byte list \<times> byte list \<times> int) list \<Rightarrow> (string \<times> byte list \<times> byte list \<times> int) list" where
  "put_shown key n c qs = (if find (\<lambda>q. fst q = key) qs = None then qs @ [(key, n, c, 1)]
     else map (\<lambda>(k, n', c', v). if k = key then (k, n, c, v + 1) else (k, n', c', v)) qs)"

lemma upsert_rows_view:
  "map shown (filter (\<lambda>r. sr_project_id r = pid) (upsert_rows pid key n c ts rs)) =
   put_shown key n c (map shown (filter (\<lambda>r. sr_project_id r = pid) rs))"
proof (cases "find (row_at pid key) rs")
  case None
  with find_rows_view [of pid key rs] show ?thesis by (simp add: upsert_rows_def put_shown_def) (simp add: shown_def)
next
  case (Some r)
  let ?g = "\<lambda>r. if row_at pid key r then r\<lparr>sr_nonce := n, sr_ciphertext := c, sr_version := sr_version r + 1, sr_updated_at := ts\<rparr> else r"
  have "map shown (filter (\<lambda>r. sr_project_id r = pid) (map ?g rs)) =
      map (\<lambda>(k, n', c', v). if k = key then (k, n, c, v + 1) else (k, n', c', v)) (map shown (filter (\<lambda>r. sr_project_id r = pid) rs))"
    by (induction rs) (simp_all add: row_at_def shown_def)
  moreover from Some find_rows_view [of pid key rs] have
    "find (\<lambda>q. fst q = key) (map shown (filter (\<lambda>r. sr_project_id r = pid) rs)) \<noteq> None"
    by (metis option.distinct(1) option.simps(9))
  ultimately show ?thesis using Some by (simp add: upsert_rows_def put_shown_def)
qed

lemma delete_rows_view:
  "map shown (filter (\<lambda>r. sr_project_id r = pid) (delete_rows pid key rs)) =
   filter (\<lambda>q. fst q \<noteq> key) (map shown (filter (\<lambda>r. sr_project_id r = pid) rs))"
  by (induction rs) (simp_all add: delete_rows_def row_at_def shown_def)

lemma affected_view:
  "length (filter (row_at pid key) rs) = length (filter (\<lambda>q. fst q = key) (map shown (filter (\<lambda>r. sr_project_id r = pid) rs)))"
  by (induction rs) (simp_all add: row_at_def shown_def)

section \<open>Statements on databases alike\<close>

lemma upsert_stmt_alike:
  assumes "same_rows p T pid pid' d d'"
  shows "rel_sum (=) (rel_prod (=) (same_rows p T pid pid')) (upsert_stmt pid k n c ts d) (upsert_stmt pid' k n c ts d')"
proof -
  note r = same_rowsD [OF assms]
  let ?d = "d\<lparr>db_secrets := upsert_rows pid k n c ts (db_secrets d)\<rparr>"
  let ?d' = "d'\<lparr>db_secrets := upsert_rows pid' k n c ts (db_secrets d')\<rparr>"
  from r have st: "upsert_stmt pid k n c ts d = Inr ((), ?d)" "upsert_stmt pid' k n c ts d' = Inr ((), ?d')"
    by (simp_all add: upsert_stmt_def)
  have "same_rows p T pid pid' ?d ?d'"
  proof (rule same_rows_change [OF assms])
    show "project_rows ?d pid = project_rows ?d' pid'"
      using r(1) by (simp add: project_rows_def upsert_rows_view)
    show "db_wf ?d" "db_wf ?d'" using db_wf_upsert [OF r(3) st(1)] db_wf_upsert [OF r(4) st(2)] by auto
  qed
  with st show ?thesis by simp
qed

lemma delete_rows_alike:
  assumes "same_rows p T pid pid' d d'"
  shows "same_rows p T pid pid' (d\<lparr>db_secrets := delete_rows pid k (db_secrets d)\<rparr>) (d'\<lparr>db_secrets := delete_rows pid' k (db_secrets d')\<rparr>)"
    and "length (filter (row_at pid k) (db_secrets d)) = length (filter (row_at pid' k) (db_secrets d'))"
proof -
  note r = same_rowsD [OF assms]
  show "length (filter (row_at pid k) (db_secrets d)) = length (filter (row_at pid' k) (db_secrets d'))"
    using r(1) by (simp add: affected_view project_rows_def)
  show "same_rows p T pid pid' (d\<lparr>db_secrets := delete_rows pid k (db_secrets d)\<rparr>) (d'\<lparr>db_secrets := delete_rows pid' k (db_secrets d')\<rparr>)"
    using r(1) by (intro same_rows_change [OF assms] db_wf_delete r(3,4)) (simp add: project_rows_def delete_rows_view)
qed

lemma find_secret_alike:
  assumes "same_rows p T pid pid' d d'"
  shows "rel_option (\<lambda>r r'. shown r = shown r') (find_secret d pid k) (find_secret d' pid' k)"
proof -
  have "map_option shown (find_secret d pid k) = map_option shown (find_secret d' pid' k)"
    using same_rowsD(1) [OF assms] by (simp add: find_secret_def find_rows_view project_rows_def)
  then show ?thesis by (cases "find_secret d pid k"; cases "find_secret d' pid' k") auto
qed

text \<open>A project just created has no rows, in both databases.\<close>

lemma new_project_rows:
  assumes "db_wf d"
  shows "project_rows d (next_rowid (map pr_id (db_projects d))) = []"
proof -
  have "sr_project_id r \<noteq> next_rowid (map pr_id (db_projects d))" if "r \<in> set (db_secrets d)" for r
  proof -
    from assms that have "sr_project_id r \<in> set (map pr_id (db_projects d))" by (auto simp: db_wf_def)
    with next_rowid_fresh show ?thesis by metis
  qed
  then show ?thesis by (simp add: project_rows_def filter_empty_conv)
qed

lemma insert_project_view:
  assumes "db_wf d" and "insert_project p ts d = Inr ((), e)"
  shows "project_view e p = Some (ts, []) \<and> db_tokens e = db_tokens d"
proof -
  let ?r = "\<lparr>pr_id = next_rowid (map pr_id (db_projects d)), pr_name = p, pr_created_at = ts\<rparr>"
  from assms(2) have n: "p \<notin> pr_name ` set (db_projects d)" and e: "e = d\<lparr>db_projects := db_projects d @ [?r]\<rparr>"
    by (auto simp: insert_project_def split: if_splits)
  from n have "find (\<lambda>r. pr_name r = p) (db_projects d) = None" by (auto simp: find_None_all)
  then have "find (\<lambda>r. pr_name r = p) (db_projects e) = Some ?r" by (simp add: e find_append)
  moreover have "project_rows e (pr_id ?r) = []" using new_project_rows [OF assms(1)] by (simp add: e project_rows_def)
  ultimately show ?thesis by (simp add: project_view_def e)
qed

lemma known_project: "p \<in> pr_name ` set (db_projects d) \<longleftrightarrow> project_view d p \<noteq> None"
  by (auto simp: project_view_def find_None_all)

lemma insert_project_alike:
  assumes "alike p T d d'"
  shows "rel_sum (=) (rel_prod (=) (alike p T)) (insert_project p ts d) (insert_project p ts d')"
proof (cases "p \<in> pr_name ` set (db_projects d)")
  case True
  with assms show ?thesis by (simp add: insert_project_def known_project alike_def)
next
  case False
  with assms have "p \<notin> pr_name ` set (db_projects d')" by (simp add: known_project alike_def)
  with False obtain e e' where e: "insert_project p ts d = Inr ((), e)" and e': "insert_project p ts d' = Inr ((), e')"
    by (simp add: insert_project_def)
  from assms have wf: "db_wf d" "db_wf d'" by (simp_all add: alike_def)
  show ?thesis
    using assms insert_project_view [OF wf(1) e] insert_project_view [OF wf(2) e']
      db_wf_insert_project [OF wf(1) e] db_wf_insert_project [OF wf(2) e']
    by (simp add: e e' alike_def)
qed

text \<open>The project list a caller confined to \<open>p\<close> gets.\<close>

lemma filter_sort_key: "filter P (sort_key f xs) = sort_key f (filter P xs)"
  by (simp add: filter_sort)

lemma one_project:
  assumes "distinct (map pr_name ps)"
  shows "filter (\<lambda>r. pr_name r = p) ps = (case find (\<lambda>r. pr_name r = p) ps of None \<Rightarrow> [] | Some r \<Rightarrow> [r])"
  using assms
proof (induction ps)
  case (Cons a ps)
  show ?case
  proof (cases "pr_name a = p")
    case True
    with Cons.prems have "\<forall>r \<in> set ps. p \<noteq> pr_name r" by (simp add: image_iff)
    then have "filter (\<lambda>r. pr_name r = p) ps = []" by (auto simp: filter_empty_conv)
    with True show ?thesis by simp
  qed (use Cons in simp)
qed simp

lemma listed_projects_view:
  assumes "db_wf d"
  shows "filter (\<lambda>q. p = p_name q) (map (\<lambda>r. \<lparr>p_name = pr_name r, p_created_at = pr_created_at r\<rparr>) (sort_key pr_name (db_projects d))) =
    (case project_view d p of None \<Rightarrow> [] | Some (c, rows) \<Rightarrow> [\<lparr>p_name = p, p_created_at = c\<rparr>])"
proof -
  from assms have "distinct (map pr_name (db_projects d))" by (simp add: db_wf_def projects_wf_def)
  from one_project [OF this, of p] show ?thesis
    by (auto simp: filter_map comp_def filter_sort_key eq_commute [of p] project_view_def dest: find_Some_in split: option.splits)
qed

end
