(* ===== verification/TwinServers.thy ===== *)
theory TwinServers
  imports Twins
begin

text \<open>
  Two servers side by side, equal in everything but their databases, which are \<open>alike\<close> for one
  project: the handlers of \<open>crates/secrets-server/src/handlers.rs\<close>, authentication, the router
  and the audit layer are in lockstep for the requests of callers confined to that project, so
  the callers get the same answers from both.
\<close>

section \<open>Steps of two servers\<close>

text \<open>Two servers that agree in everything but their tables, which the relation compares.\<close>

definition twins :: "(database \<Rightarrow> database \<Rightarrow> bool) \<Rightarrow> 'm server_scheme \<Rightarrow> 'm server_scheme \<Rightarrow> bool" where
  "twins A s t \<longleftrightarrow> (\<exists>d. t = s\<lparr>wdb := d\<rparr> \<and> A (wdb s) d)"

lemma twinsE:
  assumes "twins A s t"
  obtains d where "t = s\<lparr>wdb := d\<rparr>" and "A (wdb s) d"
  using assms unfolding twins_def by blast

lemma twinsI: "A (wdb s) d \<Longrightarrow> twins A s (s\<lparr>wdb := d\<rparr>)"
  unfolding twins_def by blast

lemma twins_parts:
  assumes "twins A s t"
  shows "wio t = wio s" "wtick t = wtick s" "wclock t = wclock s" "entropy t = entropy s" "poisoned t = poisoned s"
    "audit_log t = audit_log s" "audit_io t = audit_io s" "A (wdb s) (wdb t)"
  using assms by (auto simp: twins_def)

lemma twins_upd:
  fixes s :: "'m server_scheme"
  assumes "twins A s t"
  shows "twins A (s\<lparr>wio := i\<rparr>) (t\<lparr>wio := i\<rparr>)" "twins A (s\<lparr>wtick := n\<rparr>) (t\<lparr>wtick := n\<rparr>)"
    "twins A (s\<lparr>entropy := e\<rparr>) (t\<lparr>entropy := e\<rparr>)" "twins A (s\<lparr>poisoned := b\<rparr>) (t\<lparr>poisoned := b\<rparr>)"
    "twins A (s\<lparr>audit_io := a, audit_log := l\<rparr>) (t\<lparr>audit_io := a, audit_log := l\<rparr>)"
    "B x y \<Longrightarrow> twins B (s\<lparr>wdb := x\<rparr>) (t\<lparr>wdb := y\<rparr>)"
proof -
  from assms obtain d where t: "t = s\<lparr>wdb := d\<rparr>" and a: "A (wdb s) d" by (rule twinsE)
  have swap: "s\<lparr>wdb := d, wio := i\<rparr> = s\<lparr>wio := i, wdb := d\<rparr>" "s\<lparr>wdb := d, wtick := n\<rparr> = s\<lparr>wtick := n, wdb := d\<rparr>"
    "s\<lparr>wdb := d, entropy := e\<rparr> = s\<lparr>entropy := e, wdb := d\<rparr>" "s\<lparr>wdb := d, poisoned := b\<rparr> = s\<lparr>poisoned := b, wdb := d\<rparr>"
    "s\<lparr>wdb := d, audit_io := a, audit_log := l\<rparr> = s\<lparr>audit_io := a, audit_log := l, wdb := d\<rparr>"
    by (cases s; simp)+
  show "twins A (s\<lparr>wio := i\<rparr>) (t\<lparr>wio := i\<rparr>)" "twins A (s\<lparr>wtick := n\<rparr>) (t\<lparr>wtick := n\<rparr>)"
    "twins A (s\<lparr>entropy := e\<rparr>) (t\<lparr>entropy := e\<rparr>)" "twins A (s\<lparr>poisoned := b\<rparr>) (t\<lparr>poisoned := b\<rparr>)"
    "twins A (s\<lparr>audit_io := a, audit_log := l\<rparr>) (t\<lparr>audit_io := a, audit_log := l\<rparr>)"
    unfolding t swap using a by (intro twinsI; simp)+
  show "B x y \<Longrightarrow> twins B (s\<lparr>wdb := x\<rparr>) (t\<lparr>wdb := y\<rparr>)"
    using twinsI [of B "s\<lparr>wdb := x\<rparr>" y] by (simp add: t)
qed

lemma lock_sql:
  assumes "\<And>d d'. A d d' \<Longrightarrow> rel_sum (=) (rel_prod Q A) (st d) (st' d')"
  shows "lockstep (twins A) Q (sql st) (sql st')"
proof (rule lockstepI)
  fix s t :: "'m server_scheme" assume st: "twins A s t"
  note p = twins_parts [OF st] and u = twins_upd [OF st]
  from assms [OF p(8)] u(1) [of "tl (wio s)"] twins_upd(6) [OF u(1), of A]
  show "same_end Q (fst (sql st s)) (fst (sql st' t)) \<and> twins A (snd (sql st s)) (snd (sql st' t))"
    by (cases "st (wdb s)"; cases "st' (wdb t)") (auto simp: sql_def Let_def p(1))
qed

lemma lock_query: "(\<And>d d'. A d d' \<Longrightarrow> Q (f d) (g d')) \<Longrightarrow> lockstep (twins A) Q (query f) (query g)"
  unfolding query_def by (rule lock_sql) simp

lemma lock_now_utc [lock]: "lockstep (twins A) (=) now_utc now_utc"
  by (rule lockstepI) (simp add: now_utc_def twins_parts twins_upd)

lemma lock_fill_bytes [lock]: "lockstep (twins A) (=) (fill_bytes n) (fill_bytes n)"
  by (rule lockstepI) (simp add: fill_bytes_def twins_parts twins_upd)

lemma lock_with_db [lock]:
  assumes "lockstep (twins A) Q m n"
  shows "lockstep (twins A) Q (with_db tag m) (with_db tag n)"
proof (rule lockstepI)
  fix s t :: "'a server_scheme" assume st: "twins A s t"
  from lockstepD [OF assms st] have e: "same_end Q (fst (m s)) (fst (n t))" and r: "twins A (snd (m s)) (snd (n t))" by auto
  then show "same_end Q (fst (with_db tag m s)) (fst (with_db tag n t)) \<and> twins A (snd (with_db tag m s)) (snd (with_db tag n t))"
    using st by (cases "m s"; cases "n t"; cases "fst (m s)"; cases "fst (n t)") (auto simp: with_db_def twins_parts [OF st] intro: twins_upd(4))
qed

lemma twins_mono: "twins A s t \<Longrightarrow> (\<And>d d'. A d d' \<Longrightarrow> B d d') \<Longrightarrow> twins B s t"
  unfolding twins_def by blast

text \<open>Looking up the project; from then on both servers work on the rows of one project.\<close>

lemma lock_project:
  fixes f g :: "int \<Rightarrow> ('m server_scheme, app_error, 'a) proc"
  assumes "name = p" and "\<And>pid pid'. lockstep (twins (same_rows p T pid pid')) Q (f pid) (g pid')"
  shows "lockstep (twins (alike p T)) Q
    (bindP (bindP (mapErrP from_sql (project_id name)) (\<lambda>r. okOrP NotFound r)) f)
    (bindP (bindP (mapErrP from_sql (project_id name)) (\<lambda>r. okOrP NotFound r)) g)"
  unfolding \<open>name = p\<close>
proof (rule lockstepI)
  let ?m = "\<lambda>h :: int \<Rightarrow> ('m server_scheme, app_error, 'a) proc. bindP (bindP (mapErrP from_sql (project_id p)) (\<lambda>r. okOrP NotFound r)) h"
  fix s t :: "'m server_scheme" assume st: "twins (alike p T) s t"
  let ?s = "s\<lparr>wio := tl (wio s)\<rparr>" and ?t = "t\<lparr>wio := tl (wio s)\<rparr>"
  have run: "?m h u = (if wio u \<noteq> [] \<and> hd (wio u) then (Fail (from_sql SqlFailure), u\<lparr>wio := tl (wio u)\<rparr>)
      else case find_project (wdb u) p of None \<Rightarrow> (Fail NotFound, u\<lparr>wio := tl (wio u)\<rparr>)
        | Some i \<Rightarrow> h i (u\<lparr>wio := tl (wio u)\<rparr>))" for h :: "int \<Rightarrow> ('m server_scheme, app_error, 'a) proc" and u
    by (simp add: bindP_def mapErrP_def project_id_def query_def sql_def Let_def okOrP_def throwP_def retP_def split: option.splits)
  note p = twins_parts [OF st]
  have tw: "twins (alike p T) ?s ?t" using st by (rule twins_upd)
  show "same_end Q (fst (?m f s)) (fst (?m g t)) \<and> twins (alike p T) (snd (?m f s)) (snd (?m g t))"
  proof (cases "find_project (wdb s) p")
    case None
    with alike_project_id [OF p(8)] tw show ?thesis by (cases "wio s = []") (simp_all add: run p)
  next
    case (Some i)
    with alike_project_id [OF p(8)] obtain j where j: "find_project (wdb t) p = Some j" "same_rows p T i j (wdb s) (wdb t)"
      by (cases "find_project (wdb t) p") auto
    from st j(2) have "twins (same_rows p T i j) s t" unfolding twins_def by auto
    then have "twins (same_rows p T i j) ?s ?t" by (rule twins_upd)
    from lockstepD [OF assms(2) this] have "same_end Q (fst (f i ?s)) (fst (g j ?t))" and
      "twins (alike p T) (snd (f i ?s)) (snd (g j ?t))" by (auto elim: twins_mono dest: same_rowsD(2))
    with Some j tw show ?thesis by (cases "wio s = []") (simp_all add: run p)
  qed
qed

section \<open>The handlers in lockstep\<close>

lemma lock_body_of [lock]: "lockstep R (=) (body_of W parse req) (body_of W parse req)"
  unfolding body_of_def by (intro lock)

lemma lock_now_rfc3339 [lock]: "lockstep (twins A) (=) (now_rfc3339 L) (now_rfc3339 L)"
  unfolding now_rfc3339_def by (rule lock lock_same refl)+

lemma lock_encrypt [lock]: "lockstep (twins A) (=) (encrypt L K pt a) (encrypt L K pt a)"
  unfolding encrypt_def by (rule lock lock_same refl)+

lemma lock_scope:
  assumes "at_scope a = Some p" and "name = p \<Longrightarrow> lockstep R Q (f ()) (g ())"
  shows "lockstep R Q (bindP (liftP (ensure_scope a name)) f) (bindP (liftP (ensure_scope a name)) g)"
  using assms by (cases "name = p") (simp_all add: ensure_scope_def liftP_def lock)

lemma lock_admin:
  "at_scope a = Some p \<Longrightarrow> lockstep R Q (bindP (liftP (ensure_admin a)) f) (bindP (liftP (ensure_admin a)) g)"
  by (simp add: ensure_admin_def liftP_def lock)

lemma lock_version:
  "lockstep (twins (same_rows p T pid pid')) (=)
    (sql (\<lambda>d. case find_secret d pid k of None \<Rightarrow> Inl SqlNoRows | Some r \<Rightarrow> Inr (sr_version r, d)))
    (sql (\<lambda>d. case find_secret d pid' k of None \<Rightarrow> Inl SqlNoRows | Some r \<Rightarrow> Inr (sr_version r, d)))"
proof (rule lock_sql)
  fix d d' assume s: "same_rows p T pid pid' d d'"
  from find_secret_alike [OF s, of k] s show "rel_sum (=) (rel_prod (=) (same_rows p T pid pid'))
      (case find_secret d pid k of None \<Rightarrow> Inl SqlNoRows | Some r \<Rightarrow> Inr (sr_version r, d))
      (case find_secret d' pid' k of None \<Rightarrow> Inl SqlNoRows | Some r \<Rightarrow> Inr (sr_version r, d'))"
    by (cases "find_secret d pid k"; cases "find_secret d' pid' k") (simp_all add: shown_def)
qed

lemma lock_upsert [lock]:
  "lockstep (twins (same_rows p T pid pid')) (=) (upsert_secret L pid k n c) (upsert_secret L pid' k n c)"
  unfolding upsert_secret_def
  by (rule lock_same lock_now_rfc3339 lock_version lock_sql upsert_stmt_alike | assumption)+

lemma lock_delete [lock]:
  "lockstep (twins (same_rows p T pid pid')) (=) (delete_secret_row pid k) (delete_secret_row pid' k)"
  unfolding delete_secret_row_def
  by (intro lock_same lock lock_sql refl) (simp add: delete_rows_alike)

lemma lock_rows [lock]:
  "lockstep (twins (same_rows p T pid pid')) (=) (list_secret_rows pid) (list_secret_rows pid')"
  unfolding list_secret_rows_def by (rule lock_query) (simp add: secret_rows_of_view same_rowsD(1))

lemmas lock_steps = lock_project lock_scope lock_admin lock lock_same refl

lemma lock_create_row [lock]: "name = p \<Longrightarrow> lockstep (twins (alike p T)) (=) (create_project_row L name) (create_project_row L name)"
  unfolding create_project_row_def by hypsubst (rule lock_same lock_now_rfc3339 lock_sql insert_project_alike | assumption)+

lemma lock_listed [lock]:
  assumes "at_scope a = Some p"
  shows "lockstep (twins (alike p T)) (\<lambda>ps ps'. filter (\<lambda>q. p = p_name q) ps = filter (\<lambda>q. p = p_name q) ps') list_projects_rows list_projects_rows"
  unfolding list_projects_rows_def by (rule lock_query) (simp add: listed_projects_view alike_def)

text \<open>Whether the project exists.\<close>

lemma lock_exists:
  assumes "name = p" and "lockstep (twins (alike p T)) Q (f None) (g None)"
    and "\<And>i j. lockstep (twins (alike p T)) Q (f (Some i)) (g (Some j))"
  shows "lockstep (twins (alike p T)) Q (bindP (mapErrP from_sql (project_id name)) f) (bindP (mapErrP from_sql (project_id name)) g)"
proof (rule lock_bind)
  show "lockstep (twins (alike p T)) (rel_option (\<lambda>_ _. True)) (mapErrP from_sql (project_id name)) (mapErrP from_sql (project_id name))"
    unfolding project_id_def assms(1)
    by (rule lock_map_err lock_query)+ (auto dest!: alike_project_id elim!: option.rel_mono_strong)
  fix i j :: "int option" assume "rel_option (\<lambda>_ _. True) i j"
  with assms(2,3) show "lockstep (twins (alike p T)) Q (f i) (g j)" by (cases i; cases j) auto
qed

lemma lock_create_project:
  assumes "at_scope a = Some p"
  shows "lockstep (twins (alike p T)) (=) (create_project L W a req) (create_project L W a req)"
  unfolding create_project_def
  by (rule lock_exists assms lock_scope lock lock_same refl | assumption | simp)+

lemma lock_list_projects:
  assumes "at_scope a = Some p"
  shows "lockstep (twins (alike p T)) (=) (list_projects a) (list_projects a)"
  unfolding list_projects_def
  by (rule lock_with_db lock_bind [OF lock_map_err [OF lock_listed [OF assms]]] lock_ret)+ (simp add: assms)

lemma lock_get_secrets:
  "at_scope a = Some p \<Longrightarrow> lockstep (twins (alike p T)) (=) (get_secrets L K a name) (get_secrets L K a name)"
  unfolding get_secrets_def by (rule lock_steps | assumption)+

lemma lock_put_secret:
  "at_scope a = Some p \<Longrightarrow> lockstep (twins (alike p T)) (=) (put_secret L W K a name k req) (put_secret L W K a name k req)"
  unfolding put_secret_def by (rule lock_steps | assumption)+

lemma lock_delete_secret:
  "at_scope a = Some p \<Longrightarrow> lockstep (twins (alike p T)) (=) (delete_secret a name k) (delete_secret a name k)"
  unfolding delete_secret_def by (rule lock_steps | assumption)+

lemma lock_tokens:
  assumes "at_scope a = Some p"
  shows "lockstep (twins (alike p T)) (=) (create_token L W a req) (create_token L W a req)"
    "lockstep (twins (alike p T)) (=) (list_tokens a) (list_tokens a)"
    "lockstep (twins (alike p T)) (=) (revoke_token a name) (revoke_token a name)"
  unfolding create_token_def mint_token_def list_tokens_def revoke_token_def
  using assms by (simp_all add: ensure_admin_def liftP_def lock)

section \<open>Requests in lockstep\<close>

text \<open>Every stored token that the request can present belongs to the project.\<close>

definition confined :: "lib \<Rightarrow> web \<Rightarrow> string \<Rightarrow> token_row list \<Rightarrow> request \<Rightarrow> bool" where
  "confined L W p T req \<longleftrightarrow> (case extract_bearer W (rq_auth req) of
     None \<Rightarrow> True
   | Some t \<Rightarrow> \<forall>r \<in> set T. ct_eq L (tk_hash r) (hash_token L t) \<longrightarrow> tk_scope r = Some p)"

lemma auth_scan_Some:
  "auth_scan L now h rows found = Some a \<Longrightarrow> found = Some a \<or> (\<exists>r \<in> set rows. ct_eq L (tk_hash r) h \<and> a = identity_of r)"
  by (induction rows arbitrary: found) (fastforce simp: identity_of_def split: if_splits)+

lemma lock_authenticate:
  assumes "\<forall>r \<in> set T. ct_eq L (tk_hash r) h \<longrightarrow> tk_scope r = Some p"
  shows "lockstep (twins (alike p T)) (\<lambda>x y. x = y \<and> (\<forall>a. x = Some a \<longrightarrow> at_scope a = Some p)) (authenticate L h) (authenticate L h)"
proof -
  have rows: "lockstep (twins (alike p T)) (\<lambda>x y. x = filter active T \<and> x = y) (query (\<lambda>d. filter active (db_tokens d))) (query (\<lambda>d. filter active (db_tokens d)))"
    by (rule lock_query) (simp add: alike_def)
  show ?thesis
    unfolding authenticate_def
    by (rule lock_bind [OF rows] lock_same lock)+ (use assms in \<open>auto simp: identity_of_def dest!: auth_scan_Some\<close>)
qed

lemma lock_resolve [lock]:
  assumes "confined L W p T req"
  shows "lockstep (twins (alike p T)) (=) (resolve_token_name L W (rq_auth req)) (resolve_token_name L W (rq_auth req))"
proof -
  have opt: "lockstep R (=) (optional m) (optional m)" if "lockstep R (=) m m" for R :: "'s \<Rightarrow> 's \<Rightarrow> bool" and m :: "('s, 'e, 'b option) proc"
  proof (rule lockstepI)
    fix s t assume "R s t"
    from lockstepD [OF that this] show "same_end (=) (fst (optional m s)) (fst (optional m t)) \<and> R (snd (optional m s)) (snd (optional m t))"
      by (cases "m s"; cases "m t"; cases "fst (m s)"; cases "fst (m t)") (auto simp: optional_def)
  qed
  show ?thesis
  proof (cases "extract_bearer W (rq_auth req)")
    case (Some t)
    with assms have "\<forall>r \<in> set T. ct_eq L (tk_hash r) (hash_token L t) \<longrightarrow> tk_scope r = Some p" by (simp add: confined_def)
    with Some show ?thesis
      unfolding resolve_token_name_def
      by (intro opt lock_with_db lock_bind [OF lock_map_err [OF lock_authenticate]] lock_ret | simp)+
  qed (simp add: resolve_token_name_def lock)
qed

lemma lock_from_request:
  assumes "confined L W p T req"
  shows "lockstep (twins (alike p T)) (\<lambda>a b. a = b \<and> at_scope a = Some p) (from_request_parts L W (rq_auth req)) (from_request_parts L W (rq_auth req))"
proof (cases "extract_bearer W (rq_auth req)")
  case (Some t)
  with assms have "\<forall>r \<in> set T. ct_eq L (tk_hash r) (hash_token L t) \<longrightarrow> tk_scope r = Some p" by (simp add: confined_def)
  note auth = lock_map_err [OF lock_authenticate [OF this]]
  have okor: "lockstep (twins (alike p T)) (\<lambda>a b. a = b \<and> at_scope a = Some p) (okOrP Unauthorized x) (okOrP Unauthorized y)"
    if "x = y \<and> (\<forall>a. x = Some a \<longrightarrow> at_scope a = Some p)" for x y
    using that by (cases x; cases y) (simp_all add: okOrP_def lock)
  have "okOrP Unauthorized (Some t) = retP t" by (simp add: okOrP_def)
  with Some show ?thesis
    by (simp add: from_request_parts_def) (intro lock_with_db lock_bind [OF auth] okor)
qed (simp add: from_request_parts_def okOrP_def lock)

lemma lock_into_response:
  assumes "lockstep R (=) m n"
  shows "lockstep R (=) (into_response m) (into_response n)"
proof (rule lockstepI)
  fix s t assume "R s t"
  from lockstepD [OF assms this] show "same_end (=) (fst (into_response m s)) (fst (into_response n t)) \<and>
      R (snd (into_response m s)) (snd (into_response n t))"
    by (cases "m s"; cases "n t"; cases "fst (m s)"; cases "fst (n t)") (auto simp: into_response_def)
qed

lemma lock_with_path:
  "(\<And>segs. lockstep R (=) (f segs) (f segs)) \<Longrightarrow> lockstep R (=) (with_path W segs f) (with_path W segs f)"
  by (simp add: with_path_def lock split: option.split prod.split)

lemma lock_endpoint:
  "endpoint L W K req r m = Some h \<Longrightarrow> at_scope a = Some p \<Longrightarrow> lockstep (twins (alike p T)) (=) (h a) (h a)"
  by (cases "(L, W, K, req, r, m)" rule: endpoint.cases)
    (auto intro!: lock_with_path lock_create_project lock_list_projects lock_get_secrets lock_put_secret lock_delete_secret lock_tokens)

lemma lock_serve_route:
  assumes "confined L W p T req"
  shows "lockstep (twins (alike p T)) (=) (serve_route L W K req r :: ('m server_scheme, app_error, response) proc) (serve_route L W K req r)"
proof (cases "endpoint L W K req r (rq_method req) :: (authed_token \<Rightarrow> ('m server_scheme, app_error, response) proc) option")
  case None
  then show ?thesis by (simp add: serve_route_def lock)
next
  case (Some h)
  have "lockstep (twins (alike p T)) (=) (authed L W req h) (authed L W req h)"
    unfolding authed_def
    by (rule lock_into_response, rule lock_bind [OF lock_from_request [OF assms]]) (auto intro: lock_endpoint [OF Some])
  with Some show ?thesis by (simp add: serve_route_def lock)
qed

lemma lock_audit_record [lock]: "lockstep (twins A) (=) (audit_record L m pth pr t st) (audit_record L m pth pr t st)"
proof -
  let ?append = "\<lambda>e w :: 'a server_scheme. (Val () :: ('b, unit) outcome, w\<lparr>audit_io := tl (audit_io w), audit_log := (if audit_io w \<noteq> [] \<and> hd (audit_io w) then audit_log w else audit_log w @ [e])\<rparr>)"
  have "lockstep (twins A) (=) (?append e) (?append e)" for e
  proof (rule lockstepI)
    fix s t :: "'a server_scheme" assume st: "twins A s t"
    show "same_end (=) (fst (?append e s)) (fst (?append e t)) \<and> twins A (snd (?append e s)) (snd (?append e t))"
      using twins_upd(5) [OF st, where a = "tl (audit_io s)" and l = "if audit_io s \<noteq> [] \<and> hd (audit_io s) then audit_log s else audit_log s @ [e]"]
      by (simp only: twins_parts [OF st] fst_conv snd_conv same_end.simps simp_thms)
  qed
  then show ?thesis unfolding audit_record_def Let_def by (rule lock_same [OF lock_now_rfc3339])
qed

lemma lock_handle:
  assumes "confined L W p T req"
  shows "lockstep (twins (alike p T)) (=) (handle L W K req) (handle L W K req)"
  unfolding handle_def audit_middleware_def Let_def
  by (rule lock_same lock_resolve lock_option lock_ret lock_serve_route assms lock_audit_record refl)+

text \<open>The answers to a sequence of requests, each to the state the previous one left.\<close>

fun answers :: "lib \<Rightarrow> web \<Rightarrow> master_key \<Rightarrow> request list \<Rightarrow> 'm server_scheme \<Rightarrow> (app_error, response) outcome list \<times> 'm server_scheme" where
  "answers L W K [] w = ([], w)"
| "answers L W K (req # reqs) w = (case handle L W K req w of (a, w1) \<Rightarrow>
     (case answers L W K reqs w1 of (as, w2) \<Rightarrow> (a # as, w2)))"

lemma twin_answers:
  assumes "\<forall>req \<in> set reqs. confined L W p T req" and "twins (alike p T) s t"
  shows "fst (answers L W K reqs s) = fst (answers L W K reqs t) \<and> twins (alike p T) (snd (answers L W K reqs s)) (snd (answers L W K reqs t))"
  using assms
proof (induction reqs arbitrary: s t)
  case (Cons req reqs)
  then have "confined L W p T req" by simp
  from lockstepD [OF lock_handle [OF this] Cons.prems(2)]
  have e: "fst (handle L W K req s) = fst (handle L W K req t)" and
    r: "twins (alike p T) (snd (handle L W K req s)) (snd (handle L W K req t))" by (auto dest: same_end_eq)
  from Cons.IH [OF _ r] Cons.prems(1) have
    "fst (answers L W K reqs (snd (handle L W K req s))) = fst (answers L W K reqs (snd (handle L W K req t))) \<and>
     twins (alike p T) (snd (answers L W K reqs (snd (handle L W K req s)))) (snd (answers L W K reqs (snd (handle L W K req t))))"
    by simp
  with e show ?case by (simp add: case_prod_beta)
qed simp

end
