(* ===== verification/TwinProperties.thy ===== *)
theory TwinProperties
  imports TwinServers Samples
begin

text \<open>
  Confidentiality between projects: what a caller confined to one project is answered does not
  depend on the rest of the vault.
\<close>

text \<open>C5: A caller confined to one project learns nothing of the others. Take two servers that differ
  in anything the databases hold besides the tokens and that project: other projects, their secrets,
  row ids, metadata. Under any sequence of requests whose bearer tokens, if they match a stored row at
  all, match rows scoped to the project, both servers give the same answers (panics included), write the
  same audit records, and remain alike. No assumption is made on the cryptography, the clock or the
  failures of statements and audit writes, which are the same for both.\<close>
theorem confined_callers_see_one_project:
  fixes w :: "'m server_scheme"
  assumes "alike p T (wdb w) d" and "\<forall>req \<in> set reqs. confined L W p T req"
  shows "fst (answers L W K reqs (w\<lparr>wdb := d\<rparr>)) = fst (answers L W K reqs w) \<and>
    audit_log (snd (answers L W K reqs (w\<lparr>wdb := d\<rparr>))) = audit_log (snd (answers L W K reqs w)) \<and>
    alike p T (wdb (snd (answers L W K reqs w))) (wdb (snd (answers L W K reqs (w\<lparr>wdb := d\<rparr>))))"
proof -
  note run = twin_answers [OF assms(2) twinsI [of "alike p T", OF assms(1)], of K]
  from twins_parts(6,8) [OF conjunct2 [OF run]] conjunct1 [OF run] show ?thesis by (intro conjI) simp_all
qed

text \<open>A vault in which the second project is older, has another id and holds a secret.\<close>

definition toy_other :: database where
  "toy_other = toy_db\<lparr>db_projects := [\<lparr>pr_id = 5, pr_name = ''web'', pr_created_at = ''x''\<rparr>, \<lparr>pr_id = 7, pr_name = ''app'', pr_created_at = []\<rparr>],
     db_secrets := [\<lparr>sr_id = 1, sr_project_id = 5, sr_key = ''P'', sr_nonce = replicate 24 1,
        sr_ciphertext = toy_cipher ''web'' ''P'' ''w'', sr_version = 3, sr_updated_at = []\<rparr>,
       \<lparr>sr_id = 2, sr_project_id = 7, sr_key = ''K'', sr_nonce = replicate 24 1,
        sr_ciphertext = toy_cipher ''app'' ''K'' ''v'', sr_version = 1, sr_updated_at = []\<rparr>]\<rparr>"

lemma toy_other_alike: "alike ''app'' (db_tokens toy_db) toy_db toy_other"
  by (simp add: alike_def toy_db_wf)
    (simp add: toy_other_def toy_db_def db_wf_def projects_wf_def secrets_wf_def project_view_def project_rows_def shown_def)

lemma toy_confined: "confined toy_lib toy_web ''app'' (db_tokens toy_db) (toy_request m path ''c'' body)"
proof -
  have "extract_bearer toy_web (rq_auth (toy_request m path ''c'' body)) = Some ''c''" by (rule toy_bearer) simp
  then show ?thesis
    by (simp add: confined_def ct_eq_iff [OF toy_ct]) (simp add: toy_db_def toy_hash_inject)
qed

text \<open>Listing the projects, changing and reading a secret, and trying the other project.\<close>

definition toy_session :: "request list" where
  "toy_session = [toy_request GET ''/v1/projects'' ''c'' [], toy_request PUT ''/v1/projects/app/secrets/K'' ''c'' ''n'',
     toy_request GET ''/v1/projects/app/secrets'' ''c'' [], toy_request GET ''/v1/projects/web/secrets'' ''c'' []]"

theorem confined_callers_see_one_project_witness:
  "fst (answers toy_lib toy_web toy_key toy_session (toy_server\<lparr>wdb := toy_other\<rparr>)) =
   fst (answers toy_lib toy_web toy_key toy_session toy_server)"
proof -
  have "alike ''app'' (db_tokens toy_db) (wdb toy_server) toy_other" by (simp add: toy_other_alike)
  moreover have "\<forall>req \<in> set toy_session. confined toy_lib toy_web ''app'' (db_tokens toy_db) req"
    by (simp add: toy_session_def toy_confined)
  ultimately show ?thesis by (rule confined_callers_see_one_project [THEN conjunct1])
qed

end
