(* ===== verification/AuditText.thy ===== *)
theory AuditText
  imports Handlers
begin

text \<open>
  The audit log as the file holds it (\<open>AuditLog::record\<close> of
  \<open>crates/secrets-server/src/audit.rs\<close>): a record is serialised as one JSON object on a line of
  its own and appended; a write that fails has written a part of the line. The renderer of
  JSON is the parameter \<open>render\<close> (\<open>serde_json::to_string\<close>, compact form).
\<close>

section \<open>Writing\<close>

text \<open>The derived serialisation of \<open>Entry\<close>: fields in order of declaration, \<open>project\<close> left out
  when it is \<open>None\<close>.\<close>

definition entry_json :: "audit_entry \<Rightarrow> json" where
  "entry_json e = JObj ([(''ts'', JStr (ae_ts e)), (''token'', opt_json (ae_token e)),
     (''method'', JStr (ae_method e)), (''path'', JStr (ae_path e))] @
     (case ae_project e of None \<Rightarrow> [] | Some p \<Rightarrow> [(''project'', JStr p)]) @
     [(''status'', JInt (int (ae_status e)))])"

definition NEWLINE :: byte where
  "NEWLINE = 10"

definition audit_line :: "(json \<Rightarrow> byte list option) \<Rightarrow> audit_entry \<Rightarrow> byte list option" where
  "audit_line render e = map_option (\<lambda>s. s @ [NEWLINE]) (render (entry_json e))"

text \<open>A record that cannot be serialised is dropped; \<open>torn\<close> is \<open>Some n\<close> when the write fails after
  \<open>n\<close> bytes, and the request goes on either way.\<close>

definition append_record :: "(json \<Rightarrow> byte list option) \<Rightarrow> nat option \<Rightarrow> audit_entry \<Rightarrow> byte list \<Rightarrow> byte list" where
  "append_record render torn e log = (case audit_line render e of
     None \<Rightarrow> log
   | Some l \<Rightarrow> log @ (case torn of None \<Rightarrow> l | Some n \<Rightarrow> take n l))"

fun append_records :: "(json \<Rightarrow> byte list option) \<Rightarrow> (nat option \<times> audit_entry) list \<Rightarrow> byte list \<Rightarrow> byte list" where
  "append_records render [] log = log"
| "append_records render ((torn, e) # rest) log = append_records render rest (append_record render torn e log)"

section \<open>Reading\<close>

text \<open>The lines of a file; what follows the last line end is a line if it is not empty.\<close>

fun lines_from :: "byte list \<Rightarrow> byte list \<Rightarrow> byte list list" where
  "lines_from acc [] = (if acc = [] then [] else [acc])"
| "lines_from acc (b # bs) = (if b = NEWLINE then acc # lines_from [] bs else lines_from (acc @ [b]) bs)"

definition file_lines :: "byte list \<Rightarrow> byte list list" where
  "file_lines = lines_from []"

text \<open>A file in which a new record begins a line.\<close>

definition at_line_start :: "byte list \<Rightarrow> bool" where
  "at_line_start log \<longleftrightarrow> log = [] \<or> last log = NEWLINE"

lemma lines_from_append:
  "NEWLINE \<notin> set s \<Longrightarrow> lines_from acc (s @ bs) = lines_from (acc @ s) bs"
  by (induction s arbitrary: acc) auto

lemma lines_from_line: "NEWLINE \<notin> set s \<Longrightarrow> lines_from acc (s @ NEWLINE # bs) = (acc @ s) # lines_from [] bs"
  by (simp add: lines_from_append)

lemma lines_from_start:
  "xs \<noteq> [] \<Longrightarrow> last xs = NEWLINE \<Longrightarrow> lines_from acc (xs @ bs) = lines_from acc xs @ lines_from [] bs"
proof (induction xs arbitrary: acc)
  case (Cons x xs)
  show ?case
  proof (cases "xs = []")
    case False
    with Cons show ?thesis by simp
  qed (use Cons.prems in simp)
qed simp

lemma file_lines_append: "at_line_start log \<Longrightarrow> file_lines (log @ bs) = file_lines log @ file_lines bs"
  by (cases "log = []") (simp_all add: file_lines_def at_line_start_def lines_from_start)

section \<open>What is relied on of the renderer\<close>

text \<open>A record whose texts are strings is rendered, without a line end in it, and records with
  different contents are rendered differently.\<close>

definition entry_texts :: "audit_entry \<Rightarrow> bool" where
  "entry_texts e \<longleftrightarrow> is_str (ae_ts e) \<and> pred_option is_str (ae_token e) \<and> is_str (ae_method e) \<and> is_str (ae_path e) \<and>
     pred_option is_str (ae_project e)"

definition render_ok :: "(json \<Rightarrow> byte list option) \<Rightarrow> bool" where
  "render_ok render \<longleftrightarrow>
     (\<forall>e. entry_texts e \<longrightarrow> (\<exists>s. render (entry_json e) = Some s \<and> s \<noteq> [] \<and> NEWLINE \<notin> set s)) \<and>
     (\<forall>e e'. entry_texts e \<longrightarrow> entry_texts e' \<longrightarrow> render (entry_json e) = render (entry_json e') \<longrightarrow> entry_json e = entry_json e')"

lemma render_okE:
  assumes "render_ok render" and "entry_texts e"
  obtains s where "render (entry_json e) = Some s" and "s \<noteq> []" and "NEWLINE \<notin> set s"
  using assms unfolding render_ok_def by blast

lemma entry_json_inject: "entry_json e = entry_json e' \<longleftrightarrow> e = e'"
proof
  assume "entry_json e = entry_json e'"
  then show "e = e'"
    by (cases e; cases e') (auto simp: entry_json_def opt_json_def split: option.splits)
qed simp

lemma render_inject:
  "render_ok render \<Longrightarrow> entry_texts e \<Longrightarrow> entry_texts e' \<Longrightarrow> render (entry_json e) = render (entry_json e') \<Longrightarrow> e = e'"
  unfolding render_ok_def by (metis entry_json_inject)

section \<open>Whole lines\<close>

text \<open>The line of a record, without its end.\<close>

definition line_of :: "(json \<Rightarrow> byte list option) \<Rightarrow> audit_entry \<Rightarrow> byte list" where
  "line_of render e = the (render (entry_json e))"

lemma append_whole:
  assumes "render_ok render" and "entry_texts e"
  shows "append_record render None e log = log @ line_of render e @ [NEWLINE]"
    and "at_line_start (append_record render None e log)"
    and "file_lines (line_of render e @ [NEWLINE]) = [line_of render e]"
  by (rule render_okE [OF assms];
      simp add: append_record_def audit_line_def line_of_def at_line_start_def file_lines_def lines_from_line)+

lemma append_records_lines:
  assumes "render_ok render"
  shows "at_line_start log \<Longrightarrow> list_all entry_texts es \<Longrightarrow>
    file_lines (append_records render (map (Pair None) es) log) = file_lines log @ map (line_of render) es"
proof (induction es arbitrary: log)
  case (Cons e es)
  then have e: "entry_texts e" and es: "list_all entry_texts es" by simp_all
  note w = append_whole [OF assms e]
  from Cons.IH [OF w(2) es, of log]
  have "file_lines (append_records render (map (Pair None) (e # es)) log) =
      file_lines (log @ line_of render e @ [NEWLINE]) @ map (line_of render) es" by (simp add: w(1))
  also have "file_lines (log @ line_of render e @ [NEWLINE]) = file_lines log @ [line_of render e]"
    by (simp add: file_lines_append [OF Cons.prems(1)] w(3))
  finally show ?case by simp
qed simp

lemma line_of_inject:
  "render_ok render \<Longrightarrow> entry_texts e \<Longrightarrow> entry_texts e' \<Longrightarrow> line_of render e = line_of render e' \<Longrightarrow> e = e'"
proof -
  assume ok: "render_ok render" and e: "entry_texts e" "entry_texts e'" and eq: "line_of render e = line_of render e'"
  from render_okE [OF ok e(1)] obtain s where "render (entry_json e) = Some s" by blast
  moreover from render_okE [OF ok e(2)] obtain s' where "render (entry_json e') = Some s'" by blast
  ultimately show "e = e'" using eq by (intro render_inject [OF ok e]) (simp add: line_of_def)
qed

lemma lines_inject:
  assumes "render_ok render"
  shows "list_all entry_texts es \<Longrightarrow> list_all entry_texts es' \<Longrightarrow> map (line_of render) es = map (line_of render) es' \<Longrightarrow> es = es'"
proof (induction es arbitrary: es')
  case (Cons e es)
  then obtain e' es1 where es': "es' = e' # es1" by (cases es') auto
  from Cons.prems es' have "entry_texts e" "entry_texts e'" "line_of render e = line_of render e'" by simp_all
  then have "e = e'" by (rule line_of_inject [OF assms])
  moreover have "es = es1" using Cons.prems es' by (intro Cons.IH) simp_all
  ultimately show ?case using es' by simp
qed simp

text \<open>A write torn inside the line glues the next record to what it left.\<close>

lemma torn_lines:
  assumes ok: "render_ok render" and e: "entry_texts e" and e': "entry_texts e'"
    and n: "n \<le> length (line_of render e)" and start: "at_line_start log"
  shows "file_lines (append_record render None e' (append_record render (Some n) e log)) =
    file_lines log @ [take n (line_of render e) @ line_of render e']"
proof -
  from render_okE [OF ok e] obtain s where s: "render (entry_json e) = Some s" "NEWLINE \<notin> set s" by blast
  from render_okE [OF ok e'] obtain s' where s': "render (entry_json e') = Some s'" "NEWLINE \<notin> set s'" by blast
  have "append_record render (Some n) e log = log @ take n s"
    using n s(1) by (simp add: append_record_def audit_line_def line_of_def)
  then have "append_record render None e' (append_record render (Some n) e log) = log @ (take n s @ s') @ [NEWLINE]"
    using s'(1) by (simp add: append_record_def audit_line_def)
  moreover have "NEWLINE \<notin> set (take n s @ s')" using s(2) s'(2) by (auto dest: in_set_takeD)
  ultimately show ?thesis
    using s(1) s'(1) by (simp only: file_lines_append [OF start]) (simp add: file_lines_def lines_from_line line_of_def del: append_assoc)
qed

end
