(* ===== verification/AuditProperties.thy ===== *)
theory AuditProperties
  imports AuditText
begin

text \<open>
  The properties of the audit log as a file, on any renderer of JSON that keeps records apart
  and on one line; \<open>toy_render_entry\<close> is such a renderer.
\<close>

section \<open>A renderer\<close>

text \<open>Each value with a mark of its kind and a full stop, bytes as two letters.\<close>

definition nibbles :: "string \<Rightarrow> byte list" where
  "nibbles s = concat (map (\<lambda>c. [64 + of_nat (of_char c div 16), 64 + of_nat (of_char c mod 16)]) s)"

fun toy_value :: "json \<Rightarrow> byte list" where
  "toy_value (JStr s) = 83 # nibbles s"
| "toy_value JNull = [84]"
| "toy_value (JInt i) = 85 # replicate (nat i) 49"
| "toy_value _ = []"

definition stopped_by :: "byte list list \<Rightarrow> byte list" where
  "stopped_by xs = concat (map (\<lambda>x. x @ [46]) xs)"

definition toy_render_entry :: "json \<Rightarrow> byte list option" where
  "toy_render_entry j = (case j of JObj kvs \<Rightarrow> Some (stopped_by (map (toy_value \<circ> snd) kvs)) | _ \<Rightarrow> None)"

lemma nibble: "(of_nat (of_char (c :: char) div 16) :: byte) < 16" "(of_nat (of_char c mod 16) :: byte) < 16"
proof -
  have "of_char c < (256 :: nat)" by simp
  then have "of_char c div 16 < (16 :: nat)" "of_char c mod 16 < (16 :: nat)" by (simp_all add: less_mult_imp_div_less)
  then show "(of_nat (of_char c div 16) :: byte) < 16" "(of_nat (of_char c mod 16) :: byte) < 16"
    by (simp_all add: word_less_nat_alt unat_of_nat)
qed

lemma nibbles_bytes: "b \<in> set (nibbles s) \<Longrightarrow> b \<noteq> 46 \<and> b \<noteq> NEWLINE"
proof -
  have "64 + x \<noteq> 46 \<and> 64 + x \<noteq> (10 :: byte)" if "x < 16" for x :: byte
    using that by (auto simp: word_less_nat_alt word_unat_eq_iff unat_word_ariths)
  then show "b \<in> set (nibbles s) \<Longrightarrow> b \<noteq> 46 \<and> b \<noteq> NEWLINE"
    using nibble by (auto simp: nibbles_def NEWLINE_def)
qed

lemma nibbles_inject: "nibbles s = nibbles t \<Longrightarrow> s = t"
proof (induction s arbitrary: t)
  case Nil
  then show ?case by (cases t) (simp_all add: nibbles_def)
next
  case (Cons c s)
  then obtain d u where t: "t = d # u" by (cases t) (simp_all add: nibbles_def)
  have bound: "of_char x < (256 :: nat)" for x :: char by simp
  have small: "of_char x div 16 < (2 :: nat) ^ 8" "of_char x mod 16 < (2 :: nat) ^ 8" for x :: char
    using bound [of x] by (simp_all add: le_less_trans [OF div_le_dividend] le_less_trans [OF mod_less_eq_dividend])
  from Cons.prems t have "(of_nat (of_char c div 16) :: byte) = of_nat (of_char d div 16)"
    "(of_nat (of_char c mod 16) :: byte) = of_nat (of_char d mod 16)" and rest: "nibbles s = nibbles u"
    by (simp_all add: nibbles_def)
  then have "of_char c div 16 = (of_char d div 16 :: nat)" "of_char c mod 16 = (of_char d mod 16 :: nat)"
    using small [of c] small [of d] by (simp_all add: word_unat_eq_iff unat_of_nat)
  then have "of_char c = (of_char d :: nat)" by (metis div_mult_mod_eq)
  then show ?case using Cons.IH [OF rest] t by simp
qed

lemma toy_value_bytes: "b \<in> set (toy_value j) \<Longrightarrow> b \<noteq> 46 \<and> b \<noteq> NEWLINE"
  by (cases j) (auto simp: NEWLINE_def dest: nibbles_bytes)

lemma stopped_by_inject:
  "\<forall>x \<in> set xs \<union> set ys. 46 \<notin> set x \<Longrightarrow> stopped_by xs = stopped_by ys \<Longrightarrow> xs = ys"
proof (induction xs arbitrary: ys)
  case Nil
  then show ?case by (cases ys) (simp_all add: stopped_by_def)
next
  case (Cons x xs)
  then obtain y zs where ys: "ys = y # zs" by (cases ys) (simp_all add: stopped_by_def)
  have head: "takeWhile (\<lambda>b. b \<noteq> 46) (u @ 46 # r) = u" if "46 \<notin> set u" for u r :: "byte list"
    using that by (induction u) auto
  from Cons.prems ys have eq: "x @ 46 # stopped_by xs = y @ 46 # stopped_by zs" and "46 \<notin> set x" "46 \<notin> set y"
    by (simp_all add: stopped_by_def)
  with head [of x] head [of y] have "x = y" by metis
  with eq Cons.IH [of zs] Cons.prems ys show ?case by simp
qed

lemma entry_values:
  "entry_json e = JObj kvs \<Longrightarrow> map (toy_value \<circ> snd) kvs =
     [toy_value (JStr (ae_ts e)), toy_value (opt_json (ae_token e)), toy_value (JStr (ae_method e)), toy_value (JStr (ae_path e))] @
     (case ae_project e of None \<Rightarrow> [] | Some p \<Rightarrow> [toy_value (JStr p)]) @ [toy_value (JInt (int (ae_status e)))]"
  by (auto simp: entry_json_def split: option.splits)

lemma toy_render_entry_ok: "render_ok toy_render_entry"
  unfolding render_ok_def
proof (intro conjI allI impI)
  fix e
  have "toy_render_entry (entry_json e) = Some (stopped_by (map (toy_value \<circ> snd) (case entry_json e of JObj kvs \<Rightarrow> kvs)))"
    by (simp add: toy_render_entry_def entry_json_def)
  moreover have "NEWLINE \<notin> set (stopped_by (map (toy_value \<circ> snd) kvs))" for kvs :: "(string \<times> json) list"
    by (auto simp: stopped_by_def NEWLINE_def dest: toy_value_bytes [unfolded NEWLINE_def])
  moreover have "stopped_by (map (toy_value \<circ> snd) (case entry_json e of JObj kvs \<Rightarrow> kvs)) \<noteq> []"
    by (simp add: entry_json_def stopped_by_def)
  ultimately show "\<exists>s. toy_render_entry (entry_json e) = Some s \<and> s \<noteq> [] \<and> NEWLINE \<notin> set s" by blast
next
  fix e e' assume eq: "toy_render_entry (entry_json e) = toy_render_entry (entry_json e')"
  obtain kvs kvs' where k: "entry_json e = JObj kvs" "entry_json e' = JObj kvs'" by (simp add: entry_json_def)
  with eq have "map (toy_value \<circ> snd) kvs = map (toy_value \<circ> snd) kvs'"
    by (intro stopped_by_inject) (auto simp: toy_render_entry_def dest: toy_value_bytes)
  moreover have "toy_value (opt_json a) = toy_value (opt_json b) \<Longrightarrow> a = b" for a b
    by (cases a; cases b) (auto simp: opt_json_def dest: nibbles_inject)
  ultimately have "e = e'"
    unfolding entry_values [OF k(1)] entry_values [OF k(2)]
    by (cases e; cases e') (auto simp: replicate_eq_replicate dest: nibbles_inject split: option.splits)
  then show "entry_json e = entry_json e'" by simp
qed

section \<open>Properties\<close>

text \<open>C22: the audit file reads back. Records appended whole to a file whose last line is ended are
  its next lines, one each and in order, whatever bytes their texts hold, and no other records
  give these lines: a name or a path chosen by a client cannot forge, split or hide a record.\<close>
theorem audit_file_reads_back:
  assumes "render_ok render" and "at_line_start log" and "list_all entry_texts es"
    and "new = append_records render (map (Pair None) es) log"
  shows "at_line_start new \<and> file_lines new = file_lines log @ map (line_of render) es \<and>
    (\<forall>es'. list_all entry_texts es' \<and> file_lines (append_records render (map (Pair None) es') log) = file_lines new \<longrightarrow> es' = es)"
proof -
  have "at_line_start (append_records render (map (Pair None) xs) log)" if "list_all entry_texts xs" "at_line_start log" for xs log
    using that by (induction xs arbitrary: log) (simp_all add: append_whole(2) [OF assms(1)])
  moreover have "es' = es" if "list_all entry_texts es'" "file_lines (append_records render (map (Pair None) es') log) = file_lines new" for es'
    using that append_records_lines [OF assms(1,2)] assms(3,4) by (intro lines_inject [OF assms(1)]) simp_all
  ultimately show ?thesis using append_records_lines [OF assms(1,2,3)] assms by blast
qed

definition toy_entry :: audit_entry where
  "toy_entry = \<lparr>ae_ts = ''t'', ae_token = None, ae_method = ''GET'', ae_path = ''(unmatched)'', ae_project = Some [CHR 0x0A], ae_status = 404\<rparr>"

lemma toy_entry_texts: "entry_texts toy_entry"
  by (simp add: entry_texts_def toy_entry_def ascii_is_str ascii_str_def)

theorem audit_file_reads_back_witness:
  "file_lines (append_records toy_render_entry (map (Pair None) [toy_entry, toy_entry]) []) =
     [line_of toy_render_entry toy_entry, line_of toy_render_entry toy_entry]"
  using audit_file_reads_back [OF toy_render_entry_ok, of "[]" "[toy_entry, toy_entry]", OF _ _ refl] toy_entry_texts
  by (simp add: at_line_start_def file_lines_def)

text \<open>C23: a torn record takes the next one with it. When the write of a record fails inside its
  line and the next record is written whole, the file gains a single line made of both, so one
  failed write costs two records.\<close>
theorem torn_record_shares_a_line:
  assumes "render_ok render" and "entry_texts e" and "entry_texts e'" and "0 < n" and "n \<le> length (line_of render e)"
    and "at_line_start log"
  shows "file_lines (append_records render [(Some n, e), (None, e')] log) = file_lines log @ [take n (line_of render e) @ line_of render e'] \<and>
    take n (line_of render e) @ line_of render e' \<noteq> line_of render e'"
  using torn_lines [OF assms(1-3,5,6)] assms(4,5) by auto

theorem torn_record_shares_a_line_witness:
  "file_lines (append_records toy_render_entry [(Some 1, toy_entry), (None, toy_entry)] []) =
     [take 1 (line_of toy_render_entry toy_entry) @ line_of toy_render_entry toy_entry]"
proof -
  obtain s where "toy_render_entry (entry_json toy_entry) = Some s" "s \<noteq> []"
    using render_okE [OF toy_render_entry_ok toy_entry_texts] by blast
  then have "1 \<le> length (line_of toy_render_entry toy_entry)" by (cases s) (simp_all add: line_of_def)
  from torn_record_shares_a_line [OF toy_render_entry_ok toy_entry_texts toy_entry_texts _ this, of "[]"] show ?thesis
    by (simp add: at_line_start_def file_lines_def)
qed

end
