(* ===== verification/Concurrent.thy ===== *)
theory Concurrent
  imports RequestEffects "HOL-Library.Multiset"
begin

text \<open>
  The requests of one server interleaved. The server runs a multi-threaded runtime over one
  \<open>AppState\<close> (\<open>crates/secrets-server/src/app.rs\<close>, \<open>commands.rs\<close>: \<open>serve\<close>), and a request
  takes the database mutex several times, each time for one short section: to resolve the
  token name for the log (\<open>audit.rs\<close>), to accept the token (\<open>auth.rs\<close>), and in the handler
  (\<open>handlers.rs\<close>); \<open>create_token\<close> reads the clock and the random generator before it takes the
  lock, and the audit record is written under the lock of the log. Between two sections other
  requests may run theirs. A request is therefore a stage, \<open>advance\<close> runs its next section,
  and a schedule is the list of whose turn it is.
\<close>

section \<open>Stages of a request\<close>

type_synonym 'm handler = "authed_token \<Rightarrow> ('m server_scheme, app_error, response) proc"

text \<open>What a request holds between two sections: the token name for the log, the accepted
  token, the token minted by \<open>create_token\<close>, the answer.\<close>

datatype stage =
    Arrived
  | Named "string option"
  | Admitted "string option" authed_token
  | Minted "string option" "create_token_body \<times> string option \<times> string"
  | Answering "string option" response
  | Finished "(app_error, response) outcome"

text \<open>The stage after a section that may fail or panic.\<close>

definition next_stage :: "('a \<Rightarrow> stage) \<Rightarrow> (app_error \<Rightarrow> stage) \<Rightarrow> (app_error, 'a) outcome \<times> 's \<Rightarrow> stage \<times> 's" where
  "next_stage f g rw = (case fst rw of Val x \<Rightarrow> f x | Fail e \<Rightarrow> g e | Panic \<Rightarrow> Finished Panic, snd rw)"

definition answering :: "request \<Rightarrow> string option \<Rightarrow> response \<Rightarrow> stage" where
  "answering req n rsp = Answering n (strip_head req rsp)"

definition refused :: "request \<Rightarrow> string option \<Rightarrow> app_error \<Rightarrow> stage" where
  "refused req n e = answering req n (error_response e)"

definition route_template :: "request \<Rightarrow> string" where
  "route_template req = (case match_route (rq_path req) of None \<Rightarrow> ''(unmatched)'' | Some r \<Rightarrow> template r)"

definition route_project :: "request \<Rightarrow> string option" where
  "route_project req = logged_project (map_option template (match_route (rq_path req))) (rq_path req)"

text \<open>\<open>POST /v1/tokens\<close> is the one handler with a section of its own before the lock.\<close>

definition mints :: "request \<Rightarrow> route \<Rightarrow> bool" where
  "mints req r \<longleftrightarrow> r = RTokens \<and> rq_method req = POST"

fun advance :: "lib \<Rightarrow> web \<Rightarrow> master_key \<Rightarrow> request \<Rightarrow> stage \<Rightarrow> 'm server_scheme \<Rightarrow> stage \<times> 'm server_scheme" where
  "advance L W K req Arrived w =
     next_stage Named (\<lambda>e. Finished (Fail e)) (resolve_token_name L W (rq_auth req) w)"
| "advance L W K req (Named n) w = (case match_route (rq_path req) of
     None \<Rightarrow> (answering req n (plain_status 404), w)
   | Some r \<Rightarrow>
       if r = RHealth then (answering req n (if rq_method req \<in> {GET, HEAD} then health else plain_status 405), w)
       else if endpoint L W K req r (rq_method req) = (None :: 'm handler option)
         then (answering req n (plain_status 405), w)
       else next_stage (Admitted n) (refused req n) (from_request_parts L W (rq_auth req) w))"
| "advance L W K req (Admitted n a) w = (case match_route (rq_path req) of
     None \<Rightarrow> (answering req n (plain_status 404), w)
   | Some r \<Rightarrow>
       if mints req r then next_stage (Minted n) (refused req n) (mint_token L W a req w)
       else (case endpoint L W K req r (rq_method req) of
          None \<Rightarrow> (answering req n (plain_status 405), w)
        | Some h \<Rightarrow> next_stage (answering req n) (refused req n) (h a w)))"
| "advance L W K req (Minted n minted) w = next_stage (answering req n) (refused req n) (issue_token L minted w)"
| "advance L W K req (Answering n rsp) w =
     next_stage (\<lambda>_. Finished (Val rsp)) (\<lambda>e. Finished (Fail e))
       (audit_record L (rq_method req) (route_template req) (route_project req) n (rs_status rsp) w)"
| "advance L W K req (Finished r) w = (Finished r, w)"

section \<open>The order of the stages\<close>

datatype phase = Naming | Authenticating | Handling | Storing | Recording | Done

fun phase_rank :: "phase \<Rightarrow> nat" where
  "phase_rank Naming = 0"
| "phase_rank Authenticating = 1"
| "phase_rank Handling = 2"
| "phase_rank Storing = 3"
| "phase_rank Recording = 4"
| "phase_rank Done = 5"

lemma phase_rank_inject: "phase_rank p = phase_rank q \<Longrightarrow> p = q"
  by (cases p; cases q) simp_all

instantiation phase :: linorder
begin

definition less_eq_phase :: "phase \<Rightarrow> phase \<Rightarrow> bool" where
  "less_eq_phase p q \<longleftrightarrow> phase_rank p \<le> phase_rank q"

definition less_phase :: "phase \<Rightarrow> phase \<Rightarrow> bool" where
  "less_phase p q \<longleftrightarrow> phase_rank p < phase_rank q"

instance
  by standard (auto simp: less_eq_phase_def less_phase_def intro: phase_rank_inject)

end

fun phase_of :: "stage \<Rightarrow> phase" where
  "phase_of Arrived = Naming"
| "phase_of (Named n) = Authenticating"
| "phase_of (Admitted n a) = Handling"
| "phase_of (Minted n x) = Storing"
| "phase_of (Answering n rsp) = Recording"
| "phase_of (Finished r) = Done"

lemma phase_simps [simp]: "phase_of (answering req n rsp) = Recording" "phase_of (refused req n e) = Recording"
  by (simp_all add: answering_def refused_def)

lemma Done_iff [simp]: "phase_of st = Done \<longleftrightarrow> (\<exists>r. st = Finished r)"
  by (cases st) auto

lemma next_stage_rank:
  "(\<And>x. n < phase_rank (phase_of (f x))) \<Longrightarrow> (\<And>e. n < phase_rank (phase_of (g e))) \<Longrightarrow> n < 5 \<Longrightarrow>
   n < phase_rank (phase_of (fst (next_stage f g rw)))"
  by (auto simp: next_stage_def split: outcome.splits)

text \<open>Every section takes the request forward.\<close>

lemma advance_forward: "phase_of st \<noteq> Done \<Longrightarrow> phase_of st < phase_of (fst (advance L W K req st w))"
  unfolding less_phase_def
  by (cases st) (auto intro!: next_stage_rank split: option.splits)

section \<open>The pool of requests\<close>

type_synonym 'm pool = "(request \<times> stage) list \<times> 'm server_scheme"

definition turn :: "lib \<Rightarrow> web \<Rightarrow> master_key \<Rightarrow> nat \<Rightarrow> 'm pool \<Rightarrow> 'm pool" where
  "turn L W K i c = (if i < length (fst c)
     then (let (req, st) = fst c ! i; (st', w') = advance L W K req st (snd c) in ((fst c)[i := (req, st')], w'))
     else c)"

fun schedule :: "lib \<Rightarrow> web \<Rightarrow> master_key \<Rightarrow> nat list \<Rightarrow> 'm pool \<Rightarrow> 'm pool" where
  "schedule L W K [] c = c"
| "schedule L W K (i # is) c = schedule L W K is (turn L W K i c)"

text \<open>What happened on the way: whose turn it was and the server state before and after.\<close>

type_synonym 'm event = "nat \<times> 'm server_scheme \<times> 'm server_scheme"

fun events :: "lib \<Rightarrow> web \<Rightarrow> master_key \<Rightarrow> nat list \<Rightarrow> 'm pool \<Rightarrow> 'm event list" where
  "events L W K [] c = []"
| "events L W K (i # is) c = (i, snd c, snd (turn L W K i c)) # events L W K is (turn L W K i c)"

definition arriving :: "request list \<Rightarrow> 'm server_scheme \<Rightarrow> 'm pool" where
  "arriving reqs w = (map (\<lambda>req. (req, Arrived)) reqs, w)"

lemma schedule_snoc: "schedule L W K (is @ [i]) c = turn L W K i (schedule L W K is c)"
  by (induction "is" arbitrary: c) simp_all

lemma schedule_append: "schedule L W K (is @ js) c = schedule L W K js (schedule L W K is c)"
  by (induction "is" arbitrary: c) simp_all

lemma events_snoc: "events L W K (is @ [i]) c =
    events L W K is c @ [(i, snd (schedule L W K is c), snd (schedule L W K (is @ [i]) c))]"
  by (induction "is" arbitrary: c) simp_all

lemma turn_requests [simp]: "map fst (fst (turn L W K i c)) = map fst (fst c)"
  by (simp add: turn_def case_prod_beta Let_def map_update)
    (metis length_map list_update_id nth_map)

lemma schedule_requests: "map fst (fst (schedule L W K is c)) = map fst (fst c)"
  by (induction "is" arbitrary: c) simp_all

lemma schedule_length [simp]: "length (fst (schedule L W K is c)) = length (fst c)"
  by (metis length_map schedule_requests)

lemma schedule_request: "i < length (fst c) \<Longrightarrow> fst (fst (schedule L W K is c) ! i) = fst (fst c ! i)"
  by (metis nth_map schedule_length schedule_requests)

lemma arriving_simps [simp]: "length (fst (arriving reqs w)) = length reqs" "snd (arriving reqs w) = w"
  "i < length reqs \<Longrightarrow> fst (arriving reqs w) ! i = (reqs ! i, Arrived)"
  by (simp_all add: arriving_def)

lemma events_append: "events L W K (is @ js) c = events L W K is c @ events L W K js (schedule L W K is c)"
  by (induction "is" arbitrary: c) simp_all

lemma events_turns: "(j, u, u') \<in> set (events L W K is c) \<Longrightarrow> j \<in> set is"
  by (induction "is" arbitrary: c) (simp, metis Pair_inject events.simps(2) list.set_intros set_ConsD)

text \<open>A relation every section of the pool's requests establishes holds from the start of a
  schedule to the states on its way.\<close>

lemma events_relate:
  fixes c :: "'m pool"
  assumes refl: "\<And>d. R d d" and trans: "\<And>d d' d''. R d d' \<Longrightarrow> R d' d'' \<Longrightarrow> R d d''"
    and step: "\<And>req st st' s s'. Q req \<Longrightarrow> advance L W K req st (s :: 'm server_scheme) = (st', s') \<Longrightarrow> R (wdb s) (wdb s')"
  shows "\<forall>req \<in> set (map fst (fst c)). Q req \<Longrightarrow> (j, u, u') \<in> set (events L W K is c) \<Longrightarrow> R (wdb (snd c)) (wdb u)"
proof (induction "is" arbitrary: c)
  case (Cons i "is")
  have one: "R (wdb (snd c)) (wdb (snd (turn L W K i c)))"
  proof (cases "i < length (fst c)")
    case True
    obtain req st where it: "fst c ! i = (req, st)" by (cases "fst c ! i")
    obtain st' s' where run: "advance L W K req st (snd c) = (st', s')" by (cases "advance L W K req st (snd c)")
    from True it have "req \<in> set (map fst (fst c))" by (metis fst_conv in_set_conv_nth length_map nth_map)
    with Cons.prems(1) have "Q req" by blast
    from step [OF this run] True it run show ?thesis by (simp add: turn_def)
  qed (simp add: turn_def refl)
  from Cons.prems(2) consider "u = snd c" | "(j, u, u') \<in> set (events L W K is (turn L W K i c))" by auto
  then show ?case
  proof cases
    case 2
    have "\<forall>req \<in> set (map fst (fst (turn L W K i c))). Q req" using Cons.prems(1) by (simp only: turn_requests)
    from trans [OF one Cons.IH [OF this 2]] show ?thesis .
  qed (simp add: refl)
qed simp

text \<open>An induction rule: a fact of a pool, its requests and what happened so far that holds on
  arrival and is kept by every turn holds after every schedule.\<close>

lemma schedule_invariant:
  assumes "P [] (arriving reqs w)"
    and "\<And>H ps s i req st st' s'. P H (ps, s) \<Longrightarrow> map fst ps = reqs \<Longrightarrow> i < length ps \<Longrightarrow> ps ! i = (req, st) \<Longrightarrow>
      advance L W K req st s = (st', s') \<Longrightarrow> P (H @ [(i, s, s')]) (ps[i := (req, st')], s')"
    and "\<And>H c i. P H c \<Longrightarrow> P (H @ [(i, snd c, snd c)]) c"
  shows "P (events L W K is (arriving reqs w)) (schedule L W K is (arriving reqs w))"
proof (induction "is" rule: rev_induct)
  case (snoc i "is")
  let ?c = "schedule L W K is (arriving reqs w)" and ?H = "events L W K is (arriving reqs w)"
  show ?case
  proof (cases "i < length (fst ?c)")
    case True
    obtain req st where it: "fst ?c ! i = (req, st)" by (cases "fst ?c ! i")
    obtain st' s' where adv: "advance L W K req st (snd ?c) = (st', s')" by (cases "advance L W K req st (snd ?c)")
    have "turn L W K i ?c = ((fst ?c)[i := (req, st')], s')" using True it adv by (simp add: turn_def)
    moreover have "map fst (fst ?c) = reqs" by (simp add: schedule_requests) (simp add: arriving_def comp_def)
    ultimately show ?thesis using assms(2) [of ?H "fst ?c" "snd ?c", OF _ _ True it adv] snoc
      by (simp add: schedule_snoc events_snoc)
  next
    case False
    then have "turn L W K i ?c = ?c" by (simp add: turn_def)
    then show ?thesis using assms(3) [OF snoc] by (simp add: schedule_snoc events_snoc)
  qed
qed (simp add: assms(1))

end
