(* ===== verification/ConcurrentRuns.thy ===== *)
theory ConcurrentRuns
  imports Concurrent
begin

text \<open>
  What a schedule can lead to. A request scheduled alone is \<open>handle\<close>; interleaved with others
  every stage it reaches is explained by its own sections so far (\<open>explained\<close>), so that an
  answer is that of its handler at one instant, under a token accepted before.
\<close>

section \<open>A request alone\<close>

lemma into_response_idem [simp]: "into_response (into_response m) = into_response m"
  by (simp add: into_response_def fun_eq_iff split: prod.splits outcome.splits)

lemma into_response_ret [simp]: "into_response (retP rsp) = retP rsp"
  by (simp add: into_response_def fun_eq_iff)

fun sections :: "lib \<Rightarrow> web \<Rightarrow> master_key \<Rightarrow> request \<Rightarrow> nat \<Rightarrow> stage \<Rightarrow> 'm server_scheme \<Rightarrow> stage \<times> 'm server_scheme" where
  "sections L W K req 0 st w = (st, w)"
| "sections L W K req (Suc n) st w = (case advance L W K req st w of (st', w') \<Rightarrow> sections L W K req n st' w')"

text \<open>From a stage on, \<open>k\<close> sections run the rest of the request, which is the procedure \<open>m\<close>.\<close>

definition completes ::
    "lib \<Rightarrow> web \<Rightarrow> master_key \<Rightarrow> request \<Rightarrow> nat \<Rightarrow> stage \<Rightarrow> ('m server_scheme, app_error, response) proc \<Rightarrow> bool" where
  "completes L W K req k st m \<longleftrightarrow> (\<forall>n \<ge> k. \<forall>w. sections L W K req n st w = (Finished (fst (m w)), snd (m w)))"

lemma completes_finished: "completes L W K req k (Finished r) (\<lambda>w. (r, w))"
proof -
  have "sections L W K req n (Finished r) w = (Finished r, w)" for n and w :: "'a server_scheme"
    by (induction n) simp_all
  then show ?thesis by (simp add: completes_def)
qed

lemma completes_mono: "completes L W K req k st m \<Longrightarrow> k \<le> k' \<Longrightarrow> completes L W K req k' st m"
  by (simp add: completes_def)

text \<open>One section and what follows each of its outcomes.\<close>

definition handling :: "('a \<Rightarrow> ('s, 'e, 'b) proc) \<Rightarrow> ('f \<Rightarrow> ('s, 'e, 'b) proc) \<Rightarrow> ('s, 'f, 'a) proc \<Rightarrow> ('s, 'e, 'b) proc" where
  "handling F G m = (\<lambda>s. case m s of (Val x, s') \<Rightarrow> F x s' | (Fail e, s') \<Rightarrow> G e s' | (Panic, s') \<Rightarrow> (Panic, s'))"

lemma completes_step:
  assumes "\<And>w. advance L W K req st w = next_stage f g (m w)"
    and "\<And>x. completes L W K req k (f x) (F x)" and "\<And>e. completes L W K req k (g e) (G e)"
  shows "completes L W K req (Suc k) st (handling F G m)"
  unfolding completes_def
proof (intro allI impI)
  fix n w assume "Suc k \<le> n"
  then obtain n' where n: "n = Suc n'" "k \<le> n'" by (cases n) auto
  obtain r w' where m: "m w = (r, w')" by (cases "m w")
  have "sections L W K req n st w = sections L W K req n' (fst (next_stage f g (m w))) (snd (next_stage f g (m w)))"
    by (simp add: n(1) assms(1) case_prod_beta)
  also have "\<dots> = (Finished (fst (handling F G m w)), snd (handling F G m w))"
    using assms(2,3) n(2) completes_finished [of L W K req k Panic]
    by (cases r) (auto simp: m next_stage_def handling_def completes_def)
  finally show "sections L W K req n st w = (Finished (fst (handling F G m w)), snd (handling F G m w))" .
qed

definition recording :: "lib \<Rightarrow> request \<Rightarrow> string option \<Rightarrow> response \<Rightarrow> ('m server_scheme, app_error, response) proc" where
  "recording L req n rsp = bindP (audit_record L (rq_method req) (route_template req) (route_project req) n (rs_status rsp)) (\<lambda>_. retP rsp)"

lemma completes_answering: "completes L W K req 1 (answering req n rsp) (recording L req n (strip_head req rsp))"
proof -
  have rec: "recording L req n rsp = handling (\<lambda>_. \<lambda>w. (Val rsp, w)) (\<lambda>e. \<lambda>w. (Fail e, w))
      (audit_record L (rq_method req) (route_template req) (route_project req) n (rs_status rsp))" for rsp
    by (simp add: recording_def handling_def bindP_def fun_eq_iff split: prod.splits outcome.splits)
  show ?thesis
    unfolding answering_def One_nat_def rec
    by (rule completes_step) (simp, (rule completes_finished)+)
qed

text \<open>The rest of the request after its handler.\<close>

definition closing :: "lib \<Rightarrow> request \<Rightarrow> string option \<Rightarrow> ('m server_scheme, app_error, response) proc \<Rightarrow>
    ('m server_scheme, app_error, response) proc" where
  "closing L req n m = bindP (into_response m) (\<lambda>rsp. recording L req n (strip_head req rsp))"

lemma completes_handler:
  assumes "\<And>w. advance L W K req st w = next_stage (answering req n) (refused req n) (m w)"
  shows "completes L W K req 2 st (closing L req n m)"
proof -
  have "closing L req n m = handling (\<lambda>rsp. recording L req n (strip_head req rsp))
      (\<lambda>e. recording L req n (strip_head req (error_response e))) m"
    by (simp add: closing_def handling_def into_response_def bindP_def fun_eq_iff split: prod.splits outcome.splits)
  moreover have "completes L W K req (Suc 1) st \<dots>"
    by (rule completes_step [OF assms]) (simp_all add: refused_def completes_answering [unfolded One_nat_def])
  ultimately show ?thesis by (simp add: numeral_2_eq_2)
qed

lemma closing_ret: "recording L req n (strip_head req rsp) = closing L req n (retP rsp)"
  by (simp add: closing_def into_response_def bindP_def fun_eq_iff)

lemma closing_throw: "recording L req n (strip_head req (error_response e)) = closing L req n (throwP e)"
  by (simp add: closing_def into_response_def bindP_def fun_eq_iff)

lemma closing_bind:
  "closing L req n (bindP m f) = handling (\<lambda>x. closing L req n (f x)) (\<lambda>e. closing L req n (throwP e)) m"
  by (simp add: closing_def handling_def into_response_def bindP_def fun_eq_iff split: prod.splits outcome.splits)

lemma completes_refused: "completes L W K req 1 (refused req n e) (closing L req n (throwP e))"
  using completes_answering [of L W K req n "error_response e"] by (simp add: refused_def closing_throw)

text \<open>What a request does once its token is accepted.\<close>

lemma completes_admitted:
  assumes "match_route (rq_path req) = Some r" and "endpoint L W K req r (rq_method req) = Some h"
  shows "completes L W K req 3 (Admitted n a) (closing L req n (h a))"
proof (cases "mints req r")
  case False
  with assms have "completes L W K req 2 (Admitted n a) (closing L req n (h a))"
    by (intro completes_handler) simp
  then show ?thesis by (rule completes_mono) simp
next
  case True
  with assms(2) have h: "h a = bindP (mint_token L W a req) (issue_token L)"
    by (auto simp: mints_def create_token_def)
  have "completes L W K req (Suc 2) (Admitted n a) (closing L req n (h a))"
    unfolding h closing_bind
  proof (rule completes_step)
    show "advance L W K req (Admitted n a) w = next_stage (Minted n) (refused req n) (mint_token L W a req w)" for w
      using assms(1) True by simp
    show "completes L W K req 2 (Minted n x) (closing L req n (issue_token L x))" for x
      by (rule completes_handler) simp
    show "completes L W K req 2 (refused req n e) (closing L req n (throwP e))" for e
      by (rule completes_mono [OF completes_refused]) simp
  qed
  then show ?thesis by simp
qed

lemma completes_direct:
  fixes st :: stage
  assumes "\<And>w :: 'm server_scheme. advance L W K req st w = (answering req n rsp, w)"
  shows "completes L W K req 2 st (closing L req n (retP rsp) :: ('m server_scheme, app_error, response) proc)"
  unfolding completes_def
proof (intro allI impI)
  fix k :: nat and w :: "'m server_scheme" assume "2 \<le> k"
  then obtain k' where k: "k = Suc k'" "1 \<le> k'" by (cases k) auto
  then show "sections L W K req k st w = (Finished (fst (closing L req n (retP rsp) w)), snd (closing L req n (retP rsp) w))"
    using completes_answering [of L W K req n rsp, where 'a = 'm] by (simp add: assms completes_def closing_ret)
qed

lemma completes_named:
  "completes L W K req 4 (Named n)
     (closing L req n (case match_route (rq_path req) of None \<Rightarrow> retP (plain_status 404) | Some r \<Rightarrow> serve_route L W K req r)
       :: ('m server_scheme, app_error, response) proc)"
proof (cases "match_route (rq_path req)")
  case None
  then have "completes L W K req 2 (Named n) (closing L req n (retP (plain_status 404)))"
    by (intro completes_direct) simp
  from completes_mono [OF this, of 4] None show ?thesis by simp
next
  case (Some r)
  let ?h = "endpoint L W K req r (rq_method req) :: 'm handler option"
  show ?thesis
  proof (cases "r = RHealth \<or> ?h = None")
    case True
    with Some have "completes L W K req 2 (Named n) (closing L req n (serve_route L W K req r) :: ('m server_scheme, app_error, response) proc)"
      by (auto simp: serve_route_def intro!: completes_direct)
    from completes_mono [OF this, of 4] Some show ?thesis by simp
  next
    case False
    then obtain h where h: "?h = Some h" and r: "r \<noteq> RHealth" by auto
    have "closing L req n (serve_route L W K req r) = closing L req n (bindP (from_request_parts L W (rq_auth req)) h)"
      using h r by (simp add: serve_route_def authed_def closing_def into_response_idem)
    moreover have "completes L W K req (Suc 3) (Named n) (closing L req n (bindP (from_request_parts L W (rq_auth req)) h))"
      unfolding closing_bind
    proof (rule completes_step)
      show "advance L W K req (Named n) w = next_stage (Admitted n) (refused req n) (from_request_parts L W (rq_auth req) w)"
        for w :: "'m server_scheme"
        using Some h r by simp
      show "completes L W K req 3 (Admitted n a) (closing L req n (h a))" for a
        by (rule completes_admitted [OF Some h])
      show "completes L W K req 3 (refused req n e) (closing L req n (throwP e))" for e
        by (rule completes_mono [OF completes_refused]) simp
    qed
    ultimately show ?thesis using Some by simp
  qed
qed

text \<open>A request that no other request interrupts is \<open>handle\<close>.\<close>

lemma completes_handle: "completes L W K req 5 Arrived (handle L W K req :: ('m server_scheme, app_error, response) proc)"
proof -
  let ?m = "(case match_route (rq_path req) of None \<Rightarrow> retP (plain_status 404) | Some r \<Rightarrow> serve_route L W K req r)
    :: ('m server_scheme, app_error, response) proc"
  have tmpl: "route_template req = (case map_option template (match_route (rq_path req)) of None \<Rightarrow> ''(unmatched)'' | Some t \<Rightarrow> t)"
    by (simp add: route_template_def split: option.splits)
  have closed: "into_response ?m = ?m"
    by (simp add: serve_route_def authed_def into_response_idem into_response_ret split: option.splits)
  have "handle L W K req = handling (\<lambda>n. closing L req n ?m) (\<lambda>e. throwP e) (resolve_token_name L W (rq_auth req))"
    unfolding handle_def audit_middleware_def Let_def closing_def closed recording_def tmpl route_project_def
    by (simp add: handling_def bindP_def fun_eq_iff split: prod.splits outcome.splits)
  moreover have "completes L W K req (Suc 4) Arrived \<dots>"
    by (rule completes_step) (simp, rule completes_named, simp add: throwP_def completes_finished)
  ultimately show ?thesis by simp
qed

end
