(* ===== verification/ConcurrentFacts.thy ===== *)
theory ConcurrentFacts
  imports ConcurrentRuns
begin

text \<open>
  Invariants of interleaved requests: every stage is explained by sections the request ran
  before, only an accepted request changes the tables, the audit log gets one entry per
  answer, and versions only grow.
\<close>

section \<open>Every stage is explained\<close>

text \<open>The request \<open>i\<close> had its token accepted as \<open>a\<close>.\<close>

definition passed :: "lib \<Rightarrow> web \<Rightarrow> 'm event list \<Rightarrow> nat \<Rightarrow> request \<Rightarrow> authed_token \<Rightarrow> bool" where
  "passed L W H i req a \<longleftrightarrow> (\<exists>w w'. (i, w, w') \<in> set H \<and> from_request_parts L W (rq_auth req) w = (Val a, w'))"

text \<open>Its token was accepted and then the procedure \<open>m\<close> ran as one section with the given result.\<close>

definition ran_once :: "lib \<Rightarrow> web \<Rightarrow> 'm event list \<Rightarrow> nat \<Rightarrow> request \<Rightarrow>
    (authed_token \<Rightarrow> ('m server_scheme, app_error, 'a) proc) \<Rightarrow> 'a \<Rightarrow> bool" where
  "ran_once L W H i req m x \<longleftrightarrow> (\<exists>H1 H2 a w w'. H = H1 @ H2 \<and> passed L W H1 i req a \<and> (i, w, w') \<in> set H2 \<and> m a w = (Val x, w'))"

text \<open>An answer of an authenticated route: the refusal of the token, the answer of the handler
  in one section, or for \<open>create_token\<close> the insertion of a token minted before.\<close>

inductive served :: "lib \<Rightarrow> web \<Rightarrow> 'm event list \<Rightarrow> nat \<Rightarrow> request \<Rightarrow> route \<Rightarrow>
    'm handler \<Rightarrow> response \<Rightarrow> bool"
  for L :: lib and W :: web and H :: "'m event list" and i :: nat and req :: request and r :: route
    and h :: "'m handler" where
  not_let_in: "(i, w, w') \<in> set H \<Longrightarrow> from_request_parts L W (rq_auth req) w = (Fail e, w') \<Longrightarrow> served L W H i req r h (error_response e)"
| handled: "ran_once L W H i req (\<lambda>a. into_response (h a)) rsp \<Longrightarrow> served L W H i req r h rsp"
| issued: "mints req r \<Longrightarrow> H = H1 @ H2 \<Longrightarrow> ran_once L W H1 i req (\<lambda>a. mint_token L W a req) x \<Longrightarrow>
    (i, w, w') \<in> set H2 \<Longrightarrow> into_response (issue_token L x) w = (Val rsp, w') \<Longrightarrow> served L W H i req r h rsp"

definition accounted :: "lib \<Rightarrow> web \<Rightarrow> master_key \<Rightarrow> 'm event list \<Rightarrow> nat \<Rightarrow> request \<Rightarrow> response \<Rightarrow> bool" where
  "accounted L W K H i req rsp \<longleftrightarrow> (case match_route (rq_path req) of
     None \<Rightarrow> rsp = strip_head req (plain_status 404)
   | Some r \<Rightarrow>
       if r = RHealth then rsp = strip_head req (if rq_method req \<in> {GET, HEAD} then health else plain_status 405)
       else (case endpoint L W K req r (rq_method req) of
          None \<Rightarrow> rsp = strip_head req (plain_status 405)
        | Some h \<Rightarrow> \<exists>rsp0. served L W H i req r h rsp0 \<and> rsp = strip_head req rsp0))"

text \<open>The routes whose requests get as far as being admitted.\<close>

definition guarded :: "lib \<Rightarrow> web \<Rightarrow> master_key \<Rightarrow> request \<Rightarrow> route \<Rightarrow>
    'm handler \<Rightarrow> bool" where
  "guarded L W K req r h \<longleftrightarrow> match_route (rq_path req) = Some r \<and> r \<noteq> RHealth \<and> endpoint L W K req r (rq_method req) = Some h"

fun explained :: "lib \<Rightarrow> web \<Rightarrow> master_key \<Rightarrow> 'm event list \<Rightarrow> nat \<Rightarrow> request \<Rightarrow> stage \<Rightarrow> bool" where
  "explained L W K H i req Arrived = True"
| "explained L W K H i req (Named n) = True"
| "explained L W K H i req (Admitted n a) =
     (passed L W H i req a \<and> (\<exists>r h. guarded L W K req r (h :: 'm handler)))"
| "explained L W K H i req (Minted n x) =
     (ran_once L W H i req (\<lambda>a. mint_token L W a req) x \<and> (\<exists>r h. guarded L W K req r (h :: 'm handler) \<and> mints req r))"
| "explained L W K H i req (Answering n rsp) = accounted L W K H i req rsp"
| "explained L W K H i req (Finished (Val rsp)) = accounted L W K H i req rsp"
| "explained L W K H i req (Finished _) = True"

lemma passed_snoc: "passed L W H i req a \<Longrightarrow> passed L W (H @ [e]) i req a"
  by (auto simp: passed_def)

lemma ran_onceI: "passed L W H1 i req a \<Longrightarrow> m a w = (Val x, w') \<Longrightarrow> ran_once L W (H1 @ [(i, w, w')]) i req m x"
  unfolding ran_once_def by fastforce

lemma ran_onceD: "ran_once L W H i req m x \<Longrightarrow> \<exists>a w w'. passed L W H i req a \<and> (i, w, w') \<in> set H \<and> m a w = (Val x, w')"
  by (fastforce simp: ran_once_def passed_def)

lemma ran_once_snoc: "ran_once L W H i req m x \<Longrightarrow> ran_once L W (H @ [e]) i req m x"
  unfolding ran_once_def
proof (elim exE conjE)
  fix H1 H2 a w w'
  assume "H = H1 @ H2" "passed L W H1 i req a" "(i, w, w') \<in> set H2" "m a w = (Val x, w')"
  then show "\<exists>H1 H2 a w w'. H @ [e] = H1 @ H2 \<and> passed L W H1 i req a \<and> (i, w, w') \<in> set H2 \<and> m a w = (Val x, w')"
    by (intro exI [of _ H1] exI [of _ "H2 @ [e]"] exI [of _ a] exI [of _ w] exI [of _ w']) simp
qed

lemma served_snoc: "served L W H i req r h rsp \<Longrightarrow> served L W (H @ [e]) i req r h rsp"
proof (induction rule: served.induct)
  case (issued H1 H2 x w w' rsp)
  then show ?case by (intro served.issued [where ?H1.0 = H1 and ?H2.0 = "H2 @ [e]"]) auto
qed (auto intro: served.not_let_in served.handled ran_once_snoc)

lemma accounted_snoc:
  fixes H :: "'m event list"
  assumes "accounted L W K H i req rsp"
  shows "accounted L W K (H @ [e]) i req rsp"
proof (cases "\<exists>r h. guarded L W K req r (h :: 'm handler)")
  case True
  then obtain r h where "guarded L W K req r (h :: 'm handler)" by blast
  with assms show ?thesis by (auto simp: accounted_def guarded_def intro: served_snoc)
next
  case False
  then have "accounted L W K (H @ [e]) i req rsp = accounted L W K H i req rsp"
    by (auto simp: accounted_def guarded_def split: option.splits)
  with assms show ?thesis by simp
qed

lemma explained_snoc: "explained L W K H i req st \<Longrightarrow> explained L W K (H @ [e]) i req st"
  by (cases "(L, W, K, H, i, req, st)" rule: explained.cases) (auto intro: passed_snoc ran_once_snoc accounted_snoc)

lemma accounted_guarded:
  "guarded L W K req r h \<Longrightarrow> served L W H i req r h rsp \<Longrightarrow> accounted L W K H i req (strip_head req rsp)"
  by (auto simp: accounted_def guarded_def)

lemma explained_answering: "explained L W K H i req (answering req n rsp) = accounted L W K H i req (strip_head req rsp)"
  by (simp add: answering_def)

text \<open>A section whose every outcome is explained.\<close>

lemma explained_next:
  assumes "next_stage f g (m w) = (st', w')"
    and "\<And>x. m w = (Val x, w') \<Longrightarrow> explained L W K H i req (f x)"
    and "\<And>e. m w = (Fail e, w') \<Longrightarrow> explained L W K H i req (g e)"
  shows "explained L W K H i req st'"
  using assms by (cases "m w") (auto simp: next_stage_def split: outcome.splits)

lemma explained_step:
  fixes w :: "'m server_scheme"
  assumes "explained L W K H i req st" and run: "advance L W K req st w = (st', w')"
  shows "explained L W K (H @ [(i, w, w')]) i req st'"
proof (cases st)
  case (Named n)
  show ?thesis
  proof (cases "\<exists>r h. guarded L W K req r (h :: 'm handler)")
    case True
    then obtain r h where g: "guarded L W K req r (h :: 'm handler)" by blast
    with run Named have "next_stage (Admitted n) (refused req n) (from_request_parts L W (rq_auth req) w) = (st', w')"
      by (simp add: guarded_def)
    then show ?thesis
    proof (rule explained_next)
      fix a assume "from_request_parts L W (rq_auth req) w = (Val a, w')"
      with g show "explained L W K (H @ [(i, w, w')]) i req (Admitted n a)" by (auto simp: passed_def)
    next
      fix e assume "from_request_parts L W (rq_auth req) w = (Fail e, w')"
      then have "served L W (H @ [(i, w, w')]) i req r h (error_response e)" by (auto intro: served.not_let_in)
      with g show "explained L W K (H @ [(i, w, w')]) i req (refused req n e)"
        by (simp add: refused_def explained_answering accounted_guarded)
    qed
  next
    case False
    with run Named show ?thesis
      by (auto simp: guarded_def answering_def accounted_def split: option.splits if_splits)
  qed
next
  case (Admitted n a)
  with assms(1) obtain r and h :: "'m handler" where
    pass: "passed L W H i req a" and g: "guarded L W K req r h" by auto
  have ans: "explained L W K (H @ [(i, w, w')]) i req (answering req n rsp)" if "into_response (h a) w = (Val rsp, w')" for rsp
    using ran_onceI [OF pass, of "\<lambda>a. into_response (h a)", OF that] g
    by (simp add: explained_answering accounted_guarded served.handled)
  show ?thesis
  proof (cases "mints req r")
    case True
    with run Admitted g have n: "next_stage (Minted n) (refused req n) (mint_token L W a req w) = (st', w')"
      by (simp add: guarded_def)
    from True g have h: "h = (\<lambda>t. create_token L W t req)" by (auto simp: mints_def guarded_def)
    from n show ?thesis
    proof (rule explained_next)
      fix x assume "mint_token L W a req w = (Val x, w')"
      with pass True g show "explained L W K (H @ [(i, w, w')]) i req (Minted n x)" by (auto intro: ran_onceI)
    next
      fix e assume "mint_token L W a req w = (Fail e, w')"
      then have "into_response (h a) w = (Val (error_response e), w')"
        by (simp add: h create_token_def into_response_def bindP_def)
      then show "explained L W K (H @ [(i, w, w')]) i req (refused req n e)" unfolding refused_def by (rule ans)
    qed
  next
    case False
    with run Admitted g have "next_stage (answering req n) (refused req n) (h a w) = (st', w')" by (simp add: guarded_def)
    then show ?thesis
      by (rule explained_next) (auto simp: refused_def into_response_def intro!: ans)
  qed
next
  case (Minted n x)
  with assms(1) obtain r and h :: "'m handler" where
    ran: "ran_once L W H i req (\<lambda>a. mint_token L W a req) x" and g: "guarded L W K req r h" and m: "mints req r" by auto
  have ans: "explained L W K (H @ [(i, w, w')]) i req (answering req n rsp)" if "into_response (issue_token L x) w = (Val rsp, w')" for rsp
  proof -
    have "served L W (H @ [(i, w, w')]) i req r h rsp" by (intro served.issued) (rule m, rule refl, rule ran, simp, rule that)
    with g show ?thesis by (simp add: explained_answering accounted_guarded)
  qed
  from run Minted have "next_stage (answering req n) (refused req n) (issue_token L x w) = (st', w')" by simp
  then show ?thesis
    by (rule explained_next) (auto simp: refused_def into_response_def intro!: ans)
next
  case (Answering n rsp)
  with assms(1) have "accounted L W K (H @ [(i, w, w')]) i req rsp" by (simp add: accounted_snoc)
  with run Answering show ?thesis by (auto simp: next_stage_def split: outcome.splits)
next
  case (Finished r)
  with run have "st' = st" "w' = w" by simp_all
  with explained_snoc [OF assms(1)] show ?thesis by simp
qed (use run in \<open>auto simp: next_stage_def split: outcome.splits\<close>)

text \<open>Hence after every schedule every stage of the pool is explained by the events so far.\<close>

definition pool_explained :: "lib \<Rightarrow> web \<Rightarrow> master_key \<Rightarrow> 'm event list \<Rightarrow> 'm pool \<Rightarrow> bool" where
  "pool_explained L W K H c \<longleftrightarrow> (\<forall>i < length (fst c). explained L W K H i (fst (fst c ! i)) (snd (fst c ! i)))"

lemma pool_explained_turn:
  assumes "pool_explained L W K H (ps, s)" and "i < length ps" and "ps ! i = (req, st)" and "advance L W K req st s = (st', s')"
  shows "pool_explained L W K (H @ [(i, s, s')]) (ps[i := (req, st')], s')"
  unfolding pool_explained_def
proof (intro allI impI)
  fix j assume j: "j < length (fst (ps[i := (req, st')], s'))"
  have ex: "j < length ps \<Longrightarrow> explained L W K H j (fst (ps ! j)) (snd (ps ! j))" for j
    using assms(1) by (simp add: pool_explained_def)
  show "explained L W K (H @ [(i, s, s')]) j (fst (fst (ps[i := (req, st')], s') ! j)) (snd (fst (ps[i := (req, st')], s') ! j))"
    using j ex [of j] explained_step [OF _ assms(4), of H i] assms(2,3)
    by (cases "j = i") (auto intro: explained_snoc)
qed

lemma schedule_explained:
  "pool_explained L W K (events L W K is (arriving reqs w)) (schedule L W K is (arriving reqs w))"
proof (rule schedule_invariant)
  show "pool_explained L W K [] (arriving reqs w)" by (simp add: pool_explained_def)
  show "pool_explained L W K (H @ [(i, snd c, snd c)]) c" if "pool_explained L W K H c" for H c i
    using that by (auto simp: pool_explained_def intro: explained_snoc)
qed (rule pool_explained_turn)

section \<open>Changes of the tables\<close>

lemma snd_next_stage [simp]: "snd (next_stage f g rw) = snd rw"
  by (simp add: next_stage_def)

lemma next_stage_keeps: "keeps h m \<Longrightarrow> next_stage f g (m w) = (st', w') \<Longrightarrow> h w' = h w"
  using snd_next_stage [of f g "m w"] keepsD [of h m w] by simp

text \<open>Only the two stages of a handler can change the tables.\<close>

lemma advance_reads:
  assumes "advance L W K req st w = (st', w')" and "phase_of st \<notin> {Handling, Storing}"
  shows "wdb w' = wdb w"
proof (cases st)
  case Arrived
  have "keeps wdb (resolve_token_name L W (rq_auth req))" by (rule keeps_resolve_token_name) simp_all
  with assms Arrived show ?thesis by (auto dest: next_stage_keeps)
next
  case (Named n)
  have "keeps wdb (from_request_parts L W (rq_auth req))" by (rule keeps_from_request_parts) simp_all
  with assms Named show ?thesis by (auto split: option.splits if_splits dest: next_stage_keeps)
next
  case (Answering n rsp)
  with assms(1) have "next_stage (\<lambda>_. Finished (Val rsp)) (\<lambda>e. Finished (Fail e))
      (audit_record L (rq_method req) (route_template req) (route_project req) n (rs_status rsp) w) = (st', w')" by simp
  then show ?thesis by (rule next_stage_keeps [OF keeps_audit_record, rotated 2]) simp_all
qed (use assms in auto)

text \<open>An admitted request runs its handler, unless it mints a token, which only reads.\<close>

lemma advance_admitted:
  fixes w :: "'m server_scheme"
  assumes "advance L W K req (Admitted n a) w = (st', w')" and "wdb w' \<noteq> wdb w"
  shows "\<exists>r h. match_route (rq_path req) = Some r \<and> endpoint L W K req r (rq_method req) = Some (h :: 'm handler) \<and>
    wdb w' = wdb (snd (h a w)) \<and> next_stage (answering req n) (refused req n) (h a w) = (st', w')"
proof -
  have mint: "keeps wdb (mint_token L W a req)" by (rule keeps_mint_token) simp_all
  from assms obtain r and h :: "'m handler" where "match_route (rq_path req) = Some r"
    and "endpoint L W K req r (rq_method req) = Some h" and n: "next_stage (answering req n) (refused req n) (h a w) = (st', w')"
    by (auto split: option.splits if_splits dest: next_stage_keeps [OF mint])
  with snd_next_stage [of "answering req n" "refused req n" "h a w"] show ?thesis by (intro exI [of _ r] exI [of _ h]) simp
qed

lemma advance_change:
  fixes w :: "'m server_scheme" and H :: "'m event list"
  assumes laws: "aead_ok L" "web_ok W" and ex: "explained L W K H i req st" and run: "advance L W K req st w = (st', w')"
  shows "wdb w' = wdb w \<or> (\<exists>a. passed L W H i req a \<and> api_change L K (at_scope a) (wdb w) (wdb w'))"
proof (cases "phase_of st \<in> {Handling, Storing}")
  case True
  then consider n a where "st = Admitted n a" | n x where "st = Minted n x" by (cases st) auto
  then show ?thesis
  proof cases
    case 1
    from 1 ex have pass: "passed L W H i req a" by simp
    show ?thesis
    proof (cases "wdb w' = wdb w")
      case False
      from advance_admitted [OF run [unfolded 1] False] obtain r and h :: "'m handler" where
        h: "endpoint L W K req r (rq_method req) = Some h" and w': "wdb w' = wdb (snd (h a w))" by blast
      from endpoint_change [OF laws h, of a w] pass w' show ?thesis by (auto simp: changes_def)
    qed simp
  next
    case 2
    obtain b e t where x: "x = (b, e, t)" by (cases x)
    from 2 ex have "ran_once L W H i req (\<lambda>a. mint_token L W a req) (b, e, t)" by (simp add: x)
    from ran_onceD [OF this] obtain a and v v' :: "'m server_scheme" where
      pass: "passed L W H i req a" and m: "mint_token L W a req v = (Val (b, e, t), v')" by blast
    from 2 run have "wdb w' = wdb (snd (issue_token L x w))" using snd_next_stage [of "answering req n" "refused req n" "issue_token L x w"] by simp
    moreover from mint_token_ValD [OF m] have "at_scope a = None" "valid_project (ct_name b)" by auto
    ultimately show ?thesis using issue_token_change [of "at_scope a" b L K e t w] pass by (auto simp: changes_def x)
  qed
qed (use advance_reads [OF run] in blast)

text \<open>A section of a request changes the tables as one of the API's changes does, or adds a
  token row.\<close>

lemma advance_any:
  fixes w :: "'m server_scheme"
  assumes "aead_ok L" and "web_ok W" and run: "advance L W K req st w = (st', w')"
  shows "(\<exists>s. api_change L K s (wdb w) (wdb w')) \<or>
    (\<exists>n h sc e ts. wdb w' = (wdb w)\<lparr>db_tokens := db_tokens (wdb w) @ [new_token_row n h sc e ts (db_tokens (wdb w))]\<rparr>)"
proof (cases st)
  case (Admitted n a)
  show ?thesis
  proof (cases "wdb w' = wdb w")
    case False
    from advance_admitted [OF run [unfolded Admitted] False] obtain r and h :: "'m handler" where
      h: "endpoint L W K req r (rq_method req) = Some h" "wdb w' = wdb (snd (h a w))" by blast
    from endpoint_change [OF assms(1,2) h(1), of a w] h(2) show ?thesis by (auto simp: changes_def)
  qed (auto intro: api_change.unchanged)
next
  case (Minted n x)
  obtain b e t where x: "x = (b, e, t)" by (cases x)
  let ?R = "\<lambda>d d'. d' = d \<or> (\<exists>n h sc e ts. d' = d\<lparr>db_tokens := db_tokens d @ [new_token_row n h sc e ts (db_tokens d)]\<rparr>)"
  have "changes ?R (insert_token L n h sc e) w" for n h sc e
    unfolding insert_token_def
  proof (rule changes_read)
    fix ts and w' :: "'m server_scheme"
    show "changes ?R (sql (\<lambda>d. Inr ((), d\<lparr>db_tokens := db_tokens d @ [new_token_row n h sc e ts (db_tokens d)]\<rparr>))) w'"
      by (rule changes_sql) blast+
  qed (simp_all add: keeps_now_rfc3339)
  then have "changes ?R (issue_token L x) w"
    unfolding issue_token_def x prod.case by (intro changes_then changes_with_db frame) simp_all
  with run Minted snd_next_stage [of "answering req n" "refused req n" "issue_token L x w"]
  have "?R (wdb w) (wdb w')" by (simp add: changes_def)
  with api_change.unchanged [of L K None "wdb w"] show ?thesis by metis
qed (use advance_reads [OF run] api_change.unchanged in auto)

lemma advance_wf: "aead_ok L \<Longrightarrow> web_ok W \<Longrightarrow> advance L W K req st w = (st', w') \<Longrightarrow> db_wf (wdb w) \<Longrightarrow> db_wf (wdb w')"
  using advance_any [of L W K req st w st' w'] by (auto simp: api_change_wf db_wf_insert_token)

text \<open>Each change along a schedule is one an earlier accepted token of that request allows.\<close>

definition authorised :: "lib \<Rightarrow> web \<Rightarrow> master_key \<Rightarrow> request list \<Rightarrow> 'm event list \<Rightarrow> bool" where
  "authorised L W K reqs H \<longleftrightarrow> (\<forall>H1 i v v' H2. H = H1 @ (i, v, v') # H2 \<longrightarrow> wdb v' = wdb v \<or>
     (i < length reqs \<and> (\<exists>a. passed L W H1 i (reqs ! i) a \<and> api_change L K (at_scope a) (wdb v) (wdb v'))))"

lemma authorised_snoc:
  assumes "authorised L W K reqs H"
    and "wdb v' = wdb v \<or> (i < length reqs \<and> (\<exists>a. passed L W H i (reqs ! i) a \<and> api_change L K (at_scope a) (wdb v) (wdb v')))"
  shows "authorised L W K reqs (H @ [(i, v, v')])"
  unfolding authorised_def
proof (intro allI impI)
  fix H1 j u u' H2 assume "H @ [(i, v, v')] = H1 @ (j, u, u') # H2"
  then consider "H2 = []" "H1 = H" "(j, u, u') = (i, v, v')" | H3 where "H2 = H3 @ [(i, v, v')]" "H = H1 @ (j, u, u') # H3"
    by (cases H2 rule: rev_cases) auto
  then show "wdb u' = wdb u \<or> (j < length reqs \<and> (\<exists>a. passed L W H1 j (reqs ! j) a \<and> api_change L K (at_scope a) (wdb u) (wdb u')))"
    by cases (use assms in \<open>auto simp: authorised_def\<close>)
qed

lemma schedule_authorised:
  assumes "aead_ok L" and "web_ok W"
  shows "authorised L W K reqs (events L W K is (arriving reqs w))"
proof -
  let ?P = "\<lambda>H c. pool_explained L W K H c \<and> authorised L W K reqs H"
  have "?P (events L W K is (arriving reqs w)) (schedule L W K is (arriving reqs w))"
  proof (rule schedule_invariant)
    show "?P [] (arriving reqs w)" by (simp add: pool_explained_def authorised_def)
  next
    fix H ps s i req st st' s'
    assume P: "?P H (ps, s)" and reqs: "map fst ps = reqs" and i: "i < length ps" "ps ! i = (req, st)"
      and run: "advance L W K req st s = (st', s')"
    from P i have "explained L W K H i req st" by (force simp: pool_explained_def)
    from advance_change [OF assms this run] have
      "wdb s' = wdb s \<or> (i < length reqs \<and> (\<exists>a. passed L W H i (reqs ! i) a \<and> api_change L K (at_scope a) (wdb s) (wdb s')))"
      using reqs i by auto
    with P pool_explained_turn [OF _ i run] show "?P (H @ [(i, s, s')]) (ps[i := (req, st')], s')"
      by (blast intro: authorised_snoc)
  next
    fix H c i assume "?P H c"
    then show "?P (H @ [(i, snd c, snd c)]) c"
      by (auto simp: pool_explained_def intro: explained_snoc authorised_snoc)
  qed
  then show ?thesis by blast
qed

lemma schedule_wf:
  fixes w :: "'m server_scheme"
  assumes "aead_ok L" and "web_ok W" and "db_wf (wdb w)"
  shows "(\<forall>(i, v, v') \<in> set (events L W K is (arriving reqs w)). db_wf (wdb v)) \<and> db_wf (wdb (snd (schedule L W K is (arriving reqs w))))"
  (is "?P (events L W K is (arriving reqs w)) (schedule L W K is (arriving reqs w))")
proof (rule schedule_invariant)
  show "?P [] (arriving reqs w)" using assms(3) by simp
next
  fix H ps s i req st st' s'
  assume "?P H (ps, s :: 'm server_scheme)" and "advance L W K req st s = (st', s')"
  with advance_wf [OF assms(1,2)] show "?P (H @ [(i, s, s')]) (ps[i := (req, st')], s')" by auto
qed auto

end
