(* ===== verification/ConcurrentEffects.thy ===== *)
theory ConcurrentEffects
  imports ConcurrentFacts
begin

text \<open>
  What a schedule as a whole does: each request changes the tables at most once, and the audit log gains exactly one entry per answer.
\<close>

section \<open>One change per request\<close>

definition commits :: "nat \<Rightarrow> 'm event list \<Rightarrow> 'm event list" where
  "commits i H = filter (\<lambda>(j, v, v'). j = i \<and> wdb v' \<noteq> wdb v) H"

lemma commits_snoc: "commits i (H @ [(j, v, v')]) = commits i H @ (if j = i \<and> wdb v' \<noteq> wdb v then [(j, v, v')] else [])"
  by (simp add: commits_def)

text \<open>The section that changes the tables takes the request from before its answer to it.\<close>

lemma advance_commits:
  assumes run: "advance L W K req st w = (st', w')" and "wdb w' \<noteq> wdb w"
  shows "phase_of st \<le> Storing \<and> Storing < phase_of st'"
proof -
  have ph: "phase_of st \<in> {Handling, Storing}" using advance_reads [OF run] assms(2) by blast
  have n: "Storing < phase_of st'" if "next_stage (answering req n) (refused req n) rw = (st', w')" for n rw
    using next_stage_rank [of 3 "answering req n" "refused req n" rw] that by (simp add: less_phase_def)
  have mint: "keeps wdb (mint_token L W a req)" for a by (rule keeps_mint_token) simp_all
  from ph run assms(2) n show ?thesis
    by (cases st) (auto simp: less_eq_phase_def split: option.splits if_splits dest: next_stage_keeps [OF mint])
qed

lemma schedule_commits:
  fixes w :: "'m server_scheme"
  shows "length (commits i (events L W K is (arriving reqs w))) \<le> 1"
proof -
  let ?P = "\<lambda>(H :: 'm event list) (c :: 'm pool). length (commits i H) \<le> (if i < length (fst c) \<and> Storing < phase_of (snd (fst c ! i)) then 1 else 0)"
  have "?P (events L W K is (arriving reqs w)) (schedule L W K is (arriving reqs w))"
  proof (rule schedule_invariant)
    show "?P [] (arriving reqs w)" by (simp add: commits_def)
    show "?P (H @ [(j, snd c, snd c)]) c" if "?P H c" for H c j using that by (simp add: commits_snoc)
  next
    fix H :: "'m event list" and ps j req st st' and s s' :: "'m server_scheme"
    assume P: "?P H (ps, s)" and j: "j < length ps" "ps ! j = (req, st)" and run: "advance L W K req st s = (st', s')"
    show "?P (H @ [(j, s, s')]) (ps[j := (req, st')], s')"
    proof (cases "j = i")
      case True
      have "Storing < phase_of st'" if "Storing < phase_of st"
        using advance_forward [of st L W K req s] run that by (cases "phase_of st = Done") auto
      with P j True advance_commits [OF run] show ?thesis
        by (auto simp: commits_snoc split: if_splits)
    qed (use P in \<open>simp add: commits_snoc\<close>)
  qed
  then show ?thesis by (simp split: if_splits)
qed

section \<open>One record per answer\<close>

type_synonym record_view = "string \<times> string \<times> string option \<times> nat"

definition entry_view :: "audit_entry \<Rightarrow> record_view" where
  "entry_view e = (ae_method e, ae_path e, ae_project e, ae_status e)"

text \<open>The record a finished request leaves, if it was answered.\<close>

fun recorded :: "request \<times> stage \<Rightarrow> record_view list" where
  "recorded (req, Finished (Val rsp)) = [(method_str (rq_method req), route_template req, route_project req, rs_status rsp)]"
| "recorded (req, st) = []"

lemma recorded_simps [simp]: "recorded (req, answering req n rsp) = []" "recorded (req, refused req n e) = []"
  by (simp_all add: answering_def refused_def)

text \<open>Every section but the last leaves the log alone.\<close>

lemma keeps_mint_issue:
  assumes "outside_db f"
  shows "keeps f (mint_token L W a req)" "keeps f (issue_token L x)"
proof -
  show "keeps f (mint_token L W a req)" using assms by (intro keeps_mint_token) (simp_all add: outside_db_def)
  have "keeps f (insert_token L n h sc e)" for n h sc e using assms by (rule keeps_writes(4))
  then show "keeps f (issue_token L x)"
    unfolding issue_token_def using assms
    by (intro frame keeps_with_db) (simp_all add: outside_db_def)
qed

lemma next_stage_unrecorded:
  assumes "next_stage f g rw = (st', w')"
    and "\<And>x. recorded (req, f x) = []" and "\<And>e. recorded (req, g e) = []"
  shows "recorded (req, st') = []"
  using assms by (auto simp: next_stage_def split: outcome.splits)

lemma advance_unrecorded:
  assumes "advance L W K req st w = (st', w')" and "\<And>n rsp. st \<noteq> Answering n rsp" and "phase_of st \<noteq> Done"
  shows "recorded (req, st') = []"
  using assms by (cases st) (auto split: option.splits if_splits elim!: next_stage_unrecorded)

lemma advance_quiet:
  fixes f :: "'m server_scheme \<Rightarrow> 'b"
  assumes f: "outside_db f" and run: "advance L W K req st w = (st', w')" and "\<And>n rsp. st \<noteq> Answering n rsp" and "phase_of st \<noteq> Done"
  shows "f w' = f w"
proof -
  have k: "keeps f (resolve_token_name L W (rq_auth req))" "keeps f (from_request_parts L W (rq_auth req))"
    using f by (auto intro!: keeps_resolve_token_name keeps_from_request_parts simp: outside_db_def)
  from run assms(3,4) show ?thesis
    by (cases st)
      (auto split: option.splits if_splits dest: next_stage_keeps [OF k(1)] next_stage_keeps [OF k(2)]
        next_stage_keeps [OF keeps_mint_issue(1) [OF f]] next_stage_keeps [OF keeps_mint_issue(2) [OF f]]
        next_stage_keeps [OF keeps_endpoint [OF f]])
qed

lemma audit_record_log:
  fixes L m p pr t c
  assumes "audit_io w = []"
  shows "case audit_record L m p pr t c w of
     (Val u, w') \<Rightarrow> audit_io w' = [] \<and> (\<exists>ts. audit_log w' = audit_log w @
       [\<lparr>ae_ts = ts, ae_token = t, ae_method = method_str m, ae_path = p, ae_project = pr, ae_status = c\<rparr>])
   | (_, w') \<Rightarrow> audit_io w' = [] \<and> audit_log w' = audit_log w"
  using assms by (simp add: audit_record_def bindP_def now_rfc3339_def now_utc_def Let_def split: option.splits)

lemma advance_recorded:
  fixes w :: "'m server_scheme"
  assumes io: "audit_io w = []" and run: "advance L W K req st w = (st', w')"
  shows "audit_io w' = [] \<and> map entry_view (audit_log w') =
    map entry_view (audit_log w) @ (if phase_of st = Done then [] else recorded (req, st'))"
proof (cases "phase_of st = Done \<or> (\<exists>n rsp. st = Answering n rsp)")
  case True
  then consider r where "st = Finished r" | n rsp where "st = Answering n rsp" by auto
  then show ?thesis
  proof cases
    case 2
    let ?m = "audit_record L (rq_method req) (route_template req) (route_project req) n (rs_status rsp)
      :: ('m server_scheme, app_error, unit) proc"
    obtain r w1 where m: "?m w = (r, w1)" by (cases "?m w")
    with run 2 have "w' = w1" "st' = (case r of Val _ \<Rightarrow> Finished (Val rsp) | Fail e \<Rightarrow> Finished (Fail e) | Panic \<Rightarrow> Finished Panic)"
      by (auto simp: next_stage_def)
    with audit_record_log [OF io, where L = L and m = "rq_method req" and p = "route_template req"
        and pr = "route_project req" and t = n and c = "rs_status rsp" and 'b = app_error] m 2
    show ?thesis by (cases r) (auto simp: entry_view_def)
  qed (use io run in auto)
next
  case False
  then have q: "\<And>n rsp. st \<noteq> Answering n rsp" "phase_of st \<noteq> Done" by auto
  from advance_quiet [OF audit_outside(1) run q] advance_quiet [OF audit_outside(2) run q] advance_unrecorded [OF run q] io
  show ?thesis by simp
qed

lemma mset_concat_update:
  assumes "i < length xs"
  shows "mset (concat (map f (xs[i := y]))) + mset (f (xs ! i)) = mset (concat (map f xs)) + mset (f y)"
proof -
  have "map f xs = map f (take i xs) @ f (xs ! i) # map f (drop (Suc i) xs)"
    using id_take_nth_drop [OF assms] by (metis list.simps(9) map_append)
  then show ?thesis using assms by (simp add: upd_conv_take_nth_drop)
qed

lemma schedule_recorded:
  assumes "audit_io w = []"
  shows "mset (map entry_view (audit_log (snd (schedule L W K is (arriving reqs w))))) =
    mset (map entry_view (audit_log w)) + mset (concat (map recorded (fst (schedule L W K is (arriving reqs w)))))"
proof -
  let ?P = "\<lambda>c. audit_io (snd c) = [] \<and>
     mset (map entry_view (audit_log (snd c))) = mset (map entry_view (audit_log w)) + mset (concat (map recorded (fst c)))"
  have "?P (schedule L W K is (arriving reqs w))"
  proof (rule schedule_invariant [where P = "\<lambda>H. ?P"])
    have "concat (map recorded (map (\<lambda>req. (req, Arrived)) reqs)) = []" by (induction reqs) simp_all
    then show "?P (arriving reqs w)" using assms by (simp add: arriving_def)
  next
    fix ps s i req st st' s'
    assume P: "?P (ps, s)" and i: "i < length ps" "ps ! i = (req, st)" and run: "advance L W K req st s = (st', s')"
    from P have "audit_io s = []" by simp
    note adv = advance_recorded [OF this run] and upd = mset_concat_update [OF i(1), of recorded "(req, st')"]
    show "?P (ps[i := (req, st')], s')"
    proof (cases "phase_of st = Done")
      case True
      with run have "st' = st" by auto
      with i have "ps[i := (req, st')] = ps" by (metis list_update_id)
      with adv P True show ?thesis by simp
    next
      case False
      then have "recorded (ps ! i) = []" using i by (cases st) auto
      with adv P False upd show ?thesis by simp
    qed
  qed
  then show ?thesis by blast
qed

end
