(* ===== verification/ConcurrentVersions.thy ===== *)
theory ConcurrentVersions
  imports ConcurrentEffects
begin

text \<open>
  Versions under interleaving: without a deletion the version of a key only grows, and every
  PUT that answers 200 moves it past all versions answered before, so two PUTs of one key
  never answer the same version.
\<close>

section \<open>Versions only grow\<close>

text \<open>The row of a key; its version is what a PUT answers, its opened content what a GET shows.\<close>

definition secret_at :: "database \<Rightarrow> string \<Rightarrow> string \<Rightarrow> secret_row option" where
  "secret_at d p k = Option.bind (find_project d p) (\<lambda>pid. find_secret d pid k)"

lemma versions_secret_at: "versions d p k = map_option sr_version (secret_at d p k)"
  by (cases "find_project d p") (simp_all add: versions_def secret_at_def)

lemma vault_secret_at: "vault L K d p = Some m \<Longrightarrow> m k = Option.bind (secret_at d p k) (opened L K p)"
  by (auto simp: vault_def secret_at_def)

text \<open>Every row stays as it is or goes to a higher version.\<close>

definition grows :: "database \<Rightarrow> database \<Rightarrow> bool" where
  "grows d d' \<longleftrightarrow> (\<forall>p k r. secret_at d p k = Some r \<longrightarrow> (\<exists>r'. secret_at d' p k = Some r' \<and> (r' = r \<or> sr_version r < sr_version r')))"

lemma growsD:
  "grows d d' \<Longrightarrow> secret_at d p k = Some r \<Longrightarrow> \<exists>r'. secret_at d' p k = Some r' \<and> (r' = r \<or> sr_version r < sr_version r')"
  unfolding grows_def by blast

lemma grows_refl: "grows d d"
  by (auto simp: grows_def)

lemma grows_trans: "grows d d' \<Longrightarrow> grows d' d'' \<Longrightarrow> grows d d''"
proof -
  assume g: "grows d d'" "grows d' d''"
  show "grows d d''"
    unfolding grows_def
  proof (intro allI impI)
    fix p k r assume "secret_at d p k = Some r"
    from growsD [OF g(1) this] obtain r' where r': "secret_at d' p k = Some r'" "r' = r \<or> sr_version r < sr_version r'" by blast
    from growsD [OF g(2) r'(1)] obtain r'' where "secret_at d'' p k = Some r''" "r'' = r' \<or> sr_version r' < sr_version r''" by blast
    with r'(2) show "\<exists>r'. secret_at d'' p k = Some r' \<and> (r' = r \<or> sr_version r < sr_version r')" by (intro exI [of _ r'']) auto
  qed
qed

lemma grows_versions: "grows d d' \<Longrightarrow> versions d p k = Some n \<Longrightarrow> \<exists>m \<ge> n. versions d' p k = Some m"
proof -
  assume g: "grows d d'" and "versions d p k = Some n"
  then obtain r where "secret_at d p k = Some r" and n: "n = sr_version r" by (auto simp: versions_secret_at)
  from growsD [OF g this(1)] obtain r' where "secret_at d' p k = Some r'" "r' = r \<or> sr_version r < sr_version r'" by blast
  then show ?thesis by (intro exI [of _ "sr_version r'"]) (auto simp: versions_secret_at n)
qed

lemma grows_insert_project:
  assumes "insert_project name ts d = Inr (u, d')"
  shows "grows d d'"
proof -
  from assms have d': "db_projects d' = db_projects d @
      [\<lparr>pr_id = next_rowid (map pr_id (db_projects d)), pr_name = name, pr_created_at = ts\<rparr>]" "db_secrets d' = db_secrets d"
    by (auto simp: insert_project_def split: if_splits)
  have "find_project d' p = Some pid" if "find_project d p = Some pid" for p pid
    using that by (auto simp: find_project_def d' find_append split: option.splits)
  moreover have "find_secret d' = find_secret d" by (simp add: find_secret_def d' fun_eq_iff)
  ultimately show ?thesis by (auto simp: grows_def secret_at_def bind_eq_Some_conv)
qed

lemma secret_at_upsert:
  "secret_at (d\<lparr>db_secrets := upsert_rows pid key n c ts (db_secrets d)\<rparr>) p k =
    (if find_project d p = Some pid \<and> k = key then
       Some (case secret_at d p k of
          None \<Rightarrow> \<lparr>sr_id = next_rowid (map sr_id (db_secrets d)), sr_project_id = pid, sr_key = key,
            sr_nonce = n, sr_ciphertext = c, sr_version = 1, sr_updated_at = ts\<rparr>
        | Some r \<Rightarrow> r\<lparr>sr_nonce := n, sr_ciphertext := c, sr_version := sr_version r + 1, sr_updated_at := ts\<rparr>)
     else secret_at d p k)"
  by (cases "find_project d p") (auto simp: secret_at_def find_secret_def find_upsert_same find_upsert_other)

lemma versions_upsert:
  "versions (d\<lparr>db_secrets := upsert_rows pid key n c ts (db_secrets d)\<rparr>) p k =
    (if find_project d p = Some pid \<and> k = key then Some (case versions d p k of None \<Rightarrow> 1 | Some m \<Rightarrow> m + 1) else versions d p k)"
  by (simp add: versions_secret_at secret_at_upsert split: option.splits)

lemma grows_upsert: "upsert_stmt pid key n c ts d = Inr (u, d') \<Longrightarrow> grows d d'"
  by (auto simp: grows_def secret_at_upsert dest!: upsert_stmt_Inr split: option.splits)

lemma grows_tokens: "grows d (d\<lparr>db_tokens := t\<rparr>)"
  by (simp add: grows_def secret_at_def find_project_def find_secret_def)

lemma throw_grows: "changes grows (throwP e) w"
  by (intro changes_keeps grows_refl frame)

lemma sql_grows: "(\<And>d x d'. stmt d = Inr (x, d') \<Longrightarrow> grows d d') \<Longrightarrow> changes grows (sql stmt) w"
  by (intro changes_sql grows_refl) blast

lemma create_project_grows: "changes grows (create_project L W token req) w"
  unfolding create_project_def create_project_row_def
  by (intro changes_write change_steps sql_grows grows_refl throw_grows read_frame frame) (auto intro: grows_insert_project)

lemma upsert_secret_grows: "changes grows (upsert_secret L pid k n c) w"
proof -
  have "keeps wdb (sql (\<lambda>d. case find_secret d pid k of None \<Rightarrow> Inl SqlNoRows | Some r \<Rightarrow> Inr (sr_version r, d)))"
    by (rule keeps_sql_read) (auto split: option.splits)
  then show ?thesis unfolding upsert_secret_def
    by (intro changes_read [OF grows_refl keeps_now_rfc3339] changes_then sql_grows) (auto intro: grows_upsert)
qed

lemma put_secret_grows: "changes grows (put_secret L W K token p k req) w"
  unfolding put_secret_def
  by (intro changes_write upsert_secret_grows change_steps grows_refl throw_grows read_frame frame) auto

lemma insert_token_grows: "changes grows (insert_token L name h sc e) w"
  unfolding insert_token_def
  by (intro changes_read sql_grows grows_refl keeps_now_rfc3339) (auto intro: grows_tokens)

lemma issue_token_grows: "changes grows (issue_token L x) w"
  unfolding issue_token_def case_prod_beta
  by (intro changes_then changes_with_db grows_refl frame) (simp add: insert_token_grows)

lemma revoke_token_grows: "changes grows (revoke_token token name) w"
  unfolding revoke_token_def revoke_token_rows_def
  by (intro changes_write change_steps sql_grows grows_refl throw_grows frame) (auto intro: grows_tokens)

text \<open>A request that may delete a secret.\<close>

definition deletes_secret :: "request \<Rightarrow> bool" where
  "deletes_secret req \<longleftrightarrow> rq_method req = DELETE \<and> (\<exists>p k. match_route (rq_path req) = Some (RSecret p k))"

lemma endpoint_grows:
  assumes "endpoint L W K req r m = Some h" and "\<And>p k. (r, m) \<noteq> (RSecret p k, DELETE)"
  shows "changes grows (h a) w"
proof -
  have with_path: "changes grows (with_path W segs f) w" if "\<And>p. changes grows (f p) w" for segs f and w :: "'a server_scheme"
    using that by (simp add: with_path_def changes_keeps grows_refl keeps_retP split: option.split prod.split)
  from assms show ?thesis
    by (cases "(L, W, K, req, r, m)" rule: endpoint.cases)
      (auto intro!: with_path put_secret_grows create_project_grows revoke_token_grows
        intro: changes_keeps [OF grows_refl] list_projects_keeps list_tokens_keeps get_secrets_keeps
        simp: create_token_def changes_read [OF grows_refl keeps_mint_token issue_token_grows])
qed

lemma advance_grows:
  fixes w :: "'m server_scheme"
  assumes run: "advance L W K req st w = (st', w')" and "\<not> deletes_secret req"
  shows "grows (wdb w) (wdb w')"
proof (cases "phase_of st \<in> {Handling, Storing}")
  case True
  have sect: "grows (wdb w) (wdb w')" if "next_stage f g (m w) = (st', w')" and "changes grows m w" for f g m
    using snd_next_stage [of f g "m w"] that by (simp add: changes_def)
  from True consider n a where "st = Admitted n a" | n x where "st = Minted n x" by (cases st) auto
  then show ?thesis
  proof cases
    case 1
    show ?thesis
    proof (cases "wdb w' = wdb w")
      case False
      from advance_admitted [OF run [unfolded 1] False] obtain r and h :: "'m handler" where
        h: "match_route (rq_path req) = Some r" "endpoint L W K req r (rq_method req) = Some h" "wdb w' = wdb (snd (h a w))" by blast
      with assms(2) have "changes grows (h a) w" by (intro endpoint_grows [OF h(2)]) (auto simp: deletes_secret_def)
      with h(3) show ?thesis by (simp add: changes_def)
    qed (simp add: grows_refl)
  next
    case 2
    with run show ?thesis by (intro sect [OF _ issue_token_grows]) auto
  qed
qed (use advance_reads [OF run] grows_refl in simp)

section \<open>Answers of PUT\<close>

text \<open>The project and key a PUT stores to, and the version an answer of PUT carries.\<close>

definition put_of :: "web \<Rightarrow> request \<Rightarrow> (string \<times> string) option" where
  "put_of W req = (case match_route (rq_path req) of
     Some (RSecret p k) \<Rightarrow> if rq_method req = PUT then (case (path_decode W p, path_decode W k) of
         (Some p', Some k') \<Rightarrow> Some (p', k') | _ \<Rightarrow> None) else None
   | _ \<Rightarrow> None)"

definition put_answer :: "string \<Rightarrow> int \<Rightarrow> response" where
  "put_answer k v = respond 200 (JObj [(''key'', JStr k), (''version'', JInt v)])"

fun answer_of :: "stage \<Rightarrow> response option" where
  "answer_of (Answering n rsp) = Some rsp"
| "answer_of (Finished (Val rsp)) = Some rsp"
| "answer_of st = None"

lemma put_answer_inject [simp]: "put_answer k v = put_answer k' v' \<longleftrightarrow> k = k' \<and> v = v'"
  by (simp add: put_answer_def respond_def)

lemma put_answer_not_error [simp]: "put_answer k v \<noteq> error_response e" "put_answer k v \<noteq> plain_status n" "put_answer k v \<noteq> path_rejected W x"
  by (cases e) (simp_all add: put_answer_def respond_def error_response_def plain_status_def path_rejected_def)

lemmas error_not_put_answer [simp] = put_answer_not_error [THEN not_sym]

lemma put_secret_version:
  assumes "put_secret L W K token p k req w = (Val rsp, w')"
  shows "\<exists>v. rsp = put_answer k v \<and> versions (wdb w') p k = Some v \<and>
    v = (case versions (wdb w) p k of None \<Rightarrow> 1 | Some m \<Rightarrow> m + 1)"
proof -
  from assms obtain v pid w1 n c w2 ver where
    pid: "project_id p w = (Val (Some pid), w1)"
    and enc: "encrypt L K (str_bytes v) (aad_bytes p k) w1 = (Val (n, c), w2)"
    and up: "upsert_secret L pid k n c w2 = (Val ver, w')"
    and rsp: "rsp = respond 200 (JObj [(''key'', JStr k), (''version'', JInt ver)])"
    by (auto simp: put_secret_def bindP_Val_iff with_db_Val_iff body_of_Val split: prod.splits)
  from pid have f: "find_project (wdb w) p = Some pid" and w1: "wdb w1 = wdb w"
    by (auto simp: project_id_def elim!: query_ValE)
  from enc have w2: "wdb w2 = wdb w" by (auto simp: encrypt_Val_iff w1)
  from upsert_secret_ValD [OF up] w2 obtain ts where
      w': "wdb w' = (wdb w)\<lparr>db_secrets := upsert_rows pid k n c ts (db_secrets (wdb w))\<rparr>"
    and ver: "ver = (case find_secret (wdb w) pid k of None \<Rightarrow> 1 | Some r \<Rightarrow> sr_version r + 1)" by auto
  have "ver = (case versions (wdb w) p k of None \<Rightarrow> 1 | Some m \<Rightarrow> m + 1)"
    by (simp add: ver versions_def f split: option.splits)
  with rsp f show ?thesis by (simp add: put_answer_def w' versions_upsert)
qed

text \<open>The section that answers a PUT with a version is the one that moves the key to it.\<close>

lemma put_section_runs:
  fixes w :: "'m server_scheme"
  assumes put: "put_of W req = Some (p, k)" and run: "advance L W K req st w = (st', w')"
    and old: "answer_of st = None" and new: "answer_of st' = Some (put_answer k' v)"
  shows "\<exists>a. put_secret L W K a p k req w = (Val (put_answer k' v), w')"
proof -
  from put obtain ps ks where r: "match_route (rq_path req) = Some (RSecret ps ks)" and m: "rq_method req = PUT"
    and dec: "path_decode W ps = Some p" "path_decode W ks = Some k"
    by (auto simp: put_of_def split: option.splits route.splits if_splits)
  have head: "strip_head req rsp = rsp" for rsp using m by (simp add: strip_head_def)
  have ans: "answer_of (answering req n rsp) = Some rsp" "answer_of (refused req n e) = Some (error_response e)" for n rsp e
    by (simp_all add: answering_def refused_def head)
  show ?thesis
  proof (cases st)
    case (Admitted n a)
    have "next_stage (answering req n) (refused req n) (put_secret L W K a p k req w) = (st', w')"
      using run Admitted r m by (simp add: mints_def with_path_def dec)
    with new have "put_secret L W K a p k req w = (Val (put_answer k' v), w')"
      by (cases "put_secret L W K a p k req w") (auto simp: next_stage_def ans split: outcome.splits)
    then show ?thesis ..
  next
    case (Minted n x)
    with run new have "issue_token L x w = (Val (put_answer k' v), w')"
      by (cases "issue_token L x w") (auto simp: next_stage_def ans split: outcome.splits)
    then show ?thesis by (cases x) (auto simp: issue_token_def bindP_Val_iff put_answer_def respond_def)
  next
    case (Finished x)
    then show ?thesis using run old new by (cases x) auto
  qed (use run new old r m ans in \<open>auto simp: next_stage_def split: outcome.splits option.splits if_splits\<close>)
qed

lemma put_section:
  assumes "put_of W req = Some (p, k)" and "advance L W K req st w = (st', w')"
    and "answer_of st = None" and "answer_of st' = Some (put_answer k' v)"
  shows "k' = k \<and> versions (wdb w') p k = Some v \<and> v = (case versions (wdb w) p k of None \<Rightarrow> 1 | Some m \<Rightarrow> m + 1)"
proof -
  from put_section_runs [OF assms] obtain a where "put_secret L W K a p k req w = (Val (put_answer k' v), w')" by blast
  from put_secret_version [OF this] show ?thesis by auto
qed

section \<open>No update is lost\<close>

text \<open>The version a request of the pool has answered for a key.\<close>

definition answered_version :: "web \<Rightarrow> request \<times> stage \<Rightarrow> string \<Rightarrow> string \<Rightarrow> int \<Rightarrow> bool" where
  "answered_version W rs p k v \<longleftrightarrow> put_of W (fst rs) = Some (p, k) \<and> answer_of (snd rs) = Some (put_answer k v)"

text \<open>Answered versions are reached in the database, and differ between requests.\<close>

definition versions_inv :: "web \<Rightarrow> 'm pool \<Rightarrow> bool" where
  "versions_inv W c \<longleftrightarrow> (\<forall>i p k v. i < length (fst c) \<longrightarrow> answered_version W (fst c ! i) p k v \<longrightarrow>
     (\<exists>m \<ge> v. versions (wdb (snd c)) p k = Some m) \<and>
     (\<forall>j. j < length (fst c) \<longrightarrow> j \<noteq> i \<longrightarrow> \<not> answered_version W (fst c ! j) p k v))"

lemma versions_inv_stored:
  "versions_inv W c \<Longrightarrow> i < length (fst c) \<Longrightarrow> answered_version W (fst c ! i) p k v \<Longrightarrow>
   \<exists>m \<ge> v. versions (wdb (snd c)) p k = Some m"
  unfolding versions_inv_def by blast

lemma versions_inv_distinct:
  "versions_inv W c \<Longrightarrow> i < length (fst c) \<Longrightarrow> j < length (fst c) \<Longrightarrow> j \<noteq> i \<Longrightarrow>
   answered_version W (fst c ! i) p k v \<Longrightarrow> \<not> answered_version W (fst c ! j) p k v"
  unfolding versions_inv_def by blast

lemma answer_stays:
  assumes "advance L W K req st w = (st', w')" and "answer_of st = Some rsp"
  shows "answer_of st' = None \<or> answer_of st' = Some rsp"
  using assms
  by (cases st) (auto simp: next_stage_def split: outcome.splits)

lemma versions_inv_turn:
  fixes s :: "'m server_scheme"
  assumes inv: "versions_inv W (ps, s)" and i: "i < length ps" "ps ! i = (req, st)"
    and run: "advance L W K req st s = (st', s')" and keep: "\<not> deletes_secret req"
  shows "versions_inv W (ps[i := (req, st')], s')"
proof -
  let ?ps = "ps[i := (req, st')]"
  have grow: "\<exists>m' \<ge> m. versions (wdb s') p k = Some m'" if "versions (wdb s) p k = Some m" for p k m
    using grows_versions [OF advance_grows [OF run keep] that] .
  have old: "(\<exists>m \<ge> v. versions (wdb s) p k = Some m) \<and> (\<forall>l. l < length ps \<longrightarrow> l \<noteq> j \<longrightarrow> \<not> answered_version W (ps ! l) p k v)"
    if "j < length ps" "answered_version W (ps ! j) p k v" for j p k v
    using inv that by (auto simp: versions_inv_def)
  have new: "(\<exists>m. versions (wdb s') p k = Some v) \<and> (\<forall>l < length ps. l \<noteq> i \<longrightarrow> \<not> answered_version W (ps ! l) p k v)"
    if a: "answered_version W (req, st') p k v" and f: "\<not> answered_version W (req, st) p k v" for p k v
  proof -
    from a f have put: "put_of W req = Some (p, k)" and st': "answer_of st' = Some (put_answer k v)" and "answer_of st \<noteq> Some (put_answer k v)"
      by (auto simp: answered_version_def)
    with answer_stays [OF run] have "answer_of st = None" by (cases "answer_of st") auto
    from put_section [OF put run this st'] have v: "versions (wdb s') p k = Some v"
      "v = (case versions (wdb s) p k of None \<Rightarrow> 1 | Some m \<Rightarrow> m + 1)" by auto
    have "\<not> answered_version W (ps ! l) p k v" if l: "l < length ps" for l
      using old [OF l, of p k v] v(2) by auto
    with v(1) show ?thesis by blast
  qed
  have step: "(\<exists>m \<ge> v. versions (wdb s') p k = Some m) \<and> (\<forall>l < length ps. l \<noteq> j \<longrightarrow> \<not> answered_version W (?ps ! l) p k v)"
    if j: "j < length ps" and a: "answered_version W (?ps ! j) p k v" for j p k v
  proof (cases "answered_version W (ps ! j) p k v")
    case True
    have "\<not> answered_version W (?ps ! l) p k v" if l: "l < length ps" "l \<noteq> j" for l
    proof (cases "l = i")
      case True
      with old [OF j \<open>answered_version W (ps ! j) p k v\<close>] l i have "\<not> answered_version W (req, st) p k v" by auto
      with new [of p k v] \<open>answered_version W (ps ! j) p k v\<close> j l True i show ?thesis by auto
    next
      case False
      with old [OF j \<open>answered_version W (ps ! j) p k v\<close>] l show ?thesis by simp
    qed
    moreover obtain m where "v \<le> m" "versions (wdb s) p k = Some m" using old [OF j True] by blast
    with grow [of p k m] have "\<exists>m \<ge> v. versions (wdb s') p k = Some m" by (meson order_trans)
    ultimately show ?thesis by blast
  next
    case False
    with a j i have "j = i" by (metis nth_list_update_neq)
    with new [of p k v] a False i show ?thesis by auto
  qed
  then show ?thesis by (simp add: versions_inv_def)
qed

lemma schedule_versions:
  fixes w :: "'m server_scheme"
  assumes "\<And>req. req \<in> set reqs \<Longrightarrow> \<not> deletes_secret req"
  shows "versions_inv W (schedule L W K is (arriving reqs w))"
proof (rule schedule_invariant [where P = "\<lambda>H. versions_inv W"])
  show "versions_inv W (arriving reqs w)" by (simp add: versions_inv_def answered_version_def)
  fix ps i req st st' and s s' :: "'m server_scheme"
  assume "versions_inv W (ps, s)" "map fst ps = reqs" "i < length ps" "ps ! i = (req, st)" "advance L W K req st s = (st', s')"
  moreover from this have "req \<in> set reqs" by (metis fst_conv in_set_conv_nth length_map nth_map)
  ultimately show "versions_inv W (ps[i := (req, st')], s')" using assms by (intro versions_inv_turn)
qed

end
