(* ===== verification/ConcurrentSamples.thy ===== *)
theory ConcurrentSamples
  imports ConcurrentVersions Samples
begin

text \<open>
  Requests on the toy server, section by section, and a schedule in which two PUTs and a GET
  of one key interleave.
\<close>

definition toy_get :: request where
  "toy_get = toy_request GET ''/v1/projects/app/secrets'' ''r'' []"

text \<open>The owner's request to revoke the token named \<open>ci\<close>.\<close>

definition toy_revoke :: request where
  "toy_revoke = toy_request DELETE ''/v1/tokens/ci'' ''r'' []"

text \<open>A state of the toy server with random bytes for \<open>n\<close> more encryptions.\<close>

definition fine :: "nat \<Rightarrow> server \<Rightarrow> bool" where
  "fine n w \<longleftrightarrow> healthy w \<and> audit_io w = [] \<and> wclock w = (\<lambda>_. 0) \<and> db_tokens (wdb w) = db_tokens toy_db \<and>
     find_project (wdb w) ''app'' = Some 1 \<and> db_wf (wdb w) \<and> readable toy_lib toy_key (wdb w) \<and> 24 * n \<le> length (entropy w)"

lemma fine_toy: "fine 2 toy_server"
  by (simp add: fine_def toy_healthy toy_find toy_db_wf toy_readable) (simp add: toy_server_def)

lemma fine_tick [simp]: "fine n (w\<lparr>wtick := t\<rparr>) = fine n w"
  by (simp add: fine_def healthy_def)

lemma toy_routes: "match_route (rq_path toy_put) = Some (RSecret ''app'' ''K'')" "match_route (rq_path toy_get) = Some (RSecrets ''app'')"
  "match_route (rq_path toy_revoke) = Some (RToken ''ci'')"
  "rq_method toy_put = PUT" "rq_method toy_get = GET" "rq_method toy_revoke = DELETE"
  by (simp_all add: toy_put_def toy_get_def toy_revoke_def toy_request_def match_route_def)

lemma toy_authenticate:
  assumes "fine n w"
  shows "authenticate toy_lib (hash_token toy_lib ''r'') w = (Val (Some toy_root), w\<lparr>wtick := Suc (wtick w)\<rparr>)"
  using assms toy_who [of 0 "CHR ''r''"]
  by (simp add: authenticate_Val_iff [OF toy_ct] fine_def healthy_def toy_root_def)

lemma toy_auth: "extract_bearer toy_web (rq_auth toy_put) = Some ''r''" "extract_bearer toy_web (rq_auth toy_get) = Some ''r''"
  "extract_bearer toy_web (rq_auth toy_revoke) = Some ''r''"
  unfolding toy_put_def toy_get_def toy_revoke_def by (rule toy_bearer, simp)+

lemma toy_named:
  assumes "fine n w" and "req \<in> {toy_put, toy_get, toy_revoke}"
  shows "advance toy_lib toy_web toy_key req Arrived w = (Named (Some ''root''), w\<lparr>wtick := Suc (wtick w)\<rparr>)"
  using assms toy_authenticate [OF assms(1)] toy_auth
  by (auto simp: fine_def resolve_token_name_def optional_def with_db_healthy mapErrP_def bindP_def next_stage_def toy_root_def)

lemma toy_admitted_at:
  assumes "fine n w" and "req \<in> {toy_put, toy_get, toy_revoke}"
  shows "advance toy_lib toy_web toy_key req (Named m) w = (Admitted m toy_root, w\<lparr>wtick := Suc (wtick w)\<rparr>)"
  using assms toy_authenticate [OF assms(1)] toy_auth
  by (auto simp: fine_def toy_routes from_request_parts_def with_db_healthy mapErrP_def bindP_def next_stage_def)

lemma put_secret_effect:
  assumes "put_secret L W K token p k req w = (Val rsp, w')"
  shows "entropy w' = drop 24 (entropy w) \<and> (\<exists>s. wdb w' = (wdb w)\<lparr>db_secrets := s\<rparr>)"
proof -
  from assms obtain v pid w1 n c w2 ver where
    pid: "project_id p w = (Val (Some pid), w1)"
    and enc: "encrypt L K (str_bytes v) (aad_bytes p k) w1 = (Val (n, c), w2)"
    and up: "upsert_secret L pid k n c w2 = (Val ver, w')"
    by (auto simp: put_secret_def bindP_Val_iff with_db_Val_iff body_of_Val split: prod.splits)
  have w1: "wdb w1 = wdb w" "entropy w1 = entropy w"
    using pid by (auto simp: project_id_def elim!: query_ValE)
  with enc have w2: "wdb w2 = wdb w" "entropy w2 = drop 24 (entropy w)" by (auto simp: encrypt_Val_iff)
  have "keeps entropy (upsert_secret L pid k n c)"
    unfolding upsert_secret_def by (intro frame read_frame keeps_sql; simp)
  from keepsD' [OF this up] upsert_secret_ValD [OF up] w2 show ?thesis by auto
qed

lemma toy_put_section:
  assumes "fine (Suc n) w"
  shows "\<exists>v w'. advance toy_lib toy_web toy_key toy_put (Admitted m toy_root) w = (Answering m (put_answer ''K'' v), w') \<and>
    fine n w' \<and> (\<exists>m. vault toy_lib toy_key (wdb w') ''app'' = Some (m(''K'' \<mapsto> ''v'')))"
proof -
  have h: "healthy w" and e: "24 \<le> length (entropy w)" and wf: "db_wf (wdb w)" and rd: "readable toy_lib toy_key (wdb w)"
    using assms by (simp_all add: fine_def)
  have "rfc3339_format toy_lib (wclock w (wtick w)) = Some (bytes_str (le_bytes 10 0))"
    using assms by (simp add: fine_def toy_format0)
  from put_secret_answer [OF h toy_aead toy_key_ok e this _ _ _ toy_put_body, of "''app''" "''K''" toy_root 1] assms
  obtain rsp w' where run: "put_secret toy_lib toy_web toy_key toy_root ''app'' ''K'' toy_put w = (Val rsp, w')" and h': "healthy w'"
    by (auto simp: fine_def toy_root_def scope_allows_def)
  from put_secret_version [OF run] obtain v where rsp: "rsp = put_answer ''K'' v" by blast
  from put_secret_effect [OF run] obtain s where ent: "entropy w' = drop 24 (entropy w)" and db: "wdb w' = (wdb w)\<lparr>db_secrets := s\<rparr>" by blast
  from put_secret_change [OF toy_aead toy_web_ok, of toy_key toy_root "''app''" "''K''" toy_put w] run
  have ch: "api_change toy_lib toy_key None (wdb w) (wdb w')" by (simp add: changes_def toy_root_def)
  have "audit_io w' = audit_io w" "wclock w' = wclock w"
    by (rule keepsD' [OF keeps_handlers(4) run]; simp add: outside_db_def)+
  with assms h' ent db api_change_wf [OF ch wf] api_change_readable [OF ch wf rd] have "fine n w'"
    by (auto simp: fine_def)
  moreover have "\<exists>m. vault toy_lib toy_key (wdb w') ''app'' = Some (m(''K'' \<mapsto> ''v''))"
    using put_secret_ValD [OF toy_aead toy_web_ok wf run] toy_put_body by auto
  moreover have "advance toy_lib toy_web toy_key toy_put (Admitted m toy_root) w = (Answering m (put_answer ''K'' v), w')"
    using run by (simp add: toy_routes mints_def with_path_def toy_web_def next_stage_def answering_def strip_head_def rsp)
  ultimately show ?thesis by blast
qed

lemma toy_get_section:
  assumes "fine n w"
  shows "\<exists>l. advance toy_lib toy_web toy_key toy_get (Admitted m toy_root) w = (Answering m (respond 200 (secrets_json l)), w)"
proof -
  from get_secrets_answer [of w toy_lib toy_key "''app''" toy_root] assms obtain l where
    "get_secrets toy_lib toy_key toy_root ''app'' w = (Val (respond 200 (secrets_json l)), w)"
    by (auto simp: fine_def toy_root_def scope_allows_def vault_def)
  then show ?thesis
    by (auto simp: toy_routes mints_def with_path_def toy_web_def next_stage_def answering_def strip_head_def)
qed

lemma toy_revoke_ends:
  "\<exists>w'. schedule toy_lib toy_web toy_key [0, 0, 0, 0] (arriving [toy_revoke] toy_server) =
     ([(toy_revoke, Finished (Val (respond 200 (JObj [(''revoked'', JInt 1)]))))], w')"
proof -
  let ?adv = "advance toy_lib toy_web toy_key toy_revoke" and ?n = "Some ''root''" and ?w = "toy_server\<lparr>wtick := 2\<rparr>"
  have fine: "fine 2 (toy_server\<lparr>wtick := t\<rparr>)" for t using fine_toy by simp
  have "valid_project ''ci''" by (simp add: valid_project_def is_ascii_alnum_def)
  moreover have "length (filter (\<lambda>r. tk_name r = ''ci'' \<and> active r) (db_tokens toy_db)) = 1"
    by (simp add: toy_db_def active_def)
  ultimately have run: "revoke_token toy_root ''ci'' ?w = (Val (respond 200 (JObj [(''revoked'', JInt 1)])),
      ?w\<lparr>wdb := toy_db\<lparr>db_tokens := revoke_rows ''ci'' (db_tokens toy_db)\<rparr>\<rparr>)" (is "_ = (Val ?rsp, ?v)")
    using toy_healthy
    by (simp add: revoke_token_def toy_root_def ensure_admin_def run_healthy healthy_def mapErrP_def revoke_token_rows_def sql_def)
  then have s3: "?adv (Admitted ?n toy_root) ?w = (Answering ?n ?rsp, ?v)"
    by (simp add: toy_routes mints_def with_path_def toy_web_def next_stage_def answering_def strip_head_def)
  have s4: "\<exists>w'. ?adv (Answering ?n ?rsp) ?v = (Finished (Val ?rsp), w')"
    by (simp add: audit_record_def bindP_def now_rfc3339_def now_utc_def toy_server_def toy_format0 Let_def next_stage_def)
  then show ?thesis
    using toy_named [OF fine_toy, of toy_revoke] toy_admitted_at [OF fine, of toy_revoke] s3
    by (auto simp: arriving_def turn_def numeral_2_eq_2 simp del: advance.simps)
qed

lemma toy_recording:
  assumes "fine n w"
  shows "\<exists>w'. advance toy_lib toy_web toy_key req (Answering m rsp) w = (Finished (Val rsp), w') \<and> fine n w' \<and> wdb w' = wdb w"
  using assms toy_format0
  by (simp add: audit_record_def bindP_def now_rfc3339_def now_utc_def fine_def healthy_def Let_def next_stage_def)

text \<open>Two PUTs and a GET: both PUTs are admitted before either stores, the GET reads between
  them, and the second PUT of the list stores first.\<close>

definition toy_race :: "request list" where
  "toy_race = [toy_put, toy_put, toy_get]"

definition toy_turns :: "nat list" where
  "toy_turns = [0, 1, 2, 0, 1, 2, 1, 2, 0, 2, 0, 1]"

lemma toy_race_ends:
  "\<exists>v0 v1 l w'. schedule toy_lib toy_web toy_key toy_turns (arriving toy_race toy_server) =
     ([(toy_put, Finished (Val (put_answer ''K'' v0))), (toy_put, Finished (Val (put_answer ''K'' v1))),
       (toy_get, Finished (Val (respond 200 (secrets_json l))))], w') \<and> fine 0 w'"
proof -
  let ?adv = "advance toy_lib toy_web toy_key" and ?n = "Some ''root''" and ?w = "toy_server\<lparr>wtick := 6\<rparr>"
  have fine: "fine 2 (toy_server\<lparr>wtick := t\<rparr>)" for t using fine_toy by simp
  have start: "schedule toy_lib toy_web toy_key [0, 1, 2, 0, 1, 2] (arriving toy_race toy_server) =
      ([(toy_put, Admitted ?n toy_root), (toy_put, Admitted ?n toy_root), (toy_get, Admitted ?n toy_root)], ?w)"
    by (simp add: toy_race_def arriving_def turn_def toy_named [OF fine_toy] toy_named [OF fine] toy_admitted_at [OF fine] eval_nat_numeral del: advance.simps)
  from toy_put_section [of 1 ?w ?n] fine obtain v1 w1 where p1: "?adv toy_put (Admitted ?n toy_root) ?w = (Answering ?n (put_answer ''K'' v1), w1)"
    and f1: "fine 1 w1" by (auto simp: numeral_2_eq_2)
  from toy_get_section [OF f1, of ?n] obtain l where g: "?adv toy_get (Admitted ?n toy_root) w1 = (Answering ?n (respond 200 (secrets_json l)), w1)" by blast
  from toy_put_section [of 0 w1 ?n] f1 obtain v0 w2 where p0: "?adv toy_put (Admitted ?n toy_root) w1 = (Answering ?n (put_answer ''K'' v0), w2)"
    and f2: "fine 0 w2" by auto
  from toy_recording [OF f2] obtain w3 where r2: "?adv toy_get (Answering ?n (respond 200 (secrets_json l))) w2 = (Finished (Val (respond 200 (secrets_json l))), w3)"
    and f3: "fine 0 w3" by blast
  from toy_recording [OF f3] obtain w4 where r0: "?adv toy_put (Answering ?n (put_answer ''K'' v0)) w3 = (Finished (Val (put_answer ''K'' v0)), w4)"
    and f4: "fine 0 w4" by blast
  from toy_recording [OF f4] obtain w5 where r1: "?adv toy_put (Answering ?n (put_answer ''K'' v1)) w4 = (Finished (Val (put_answer ''K'' v1)), w5)"
    and f5: "fine 0 w5" by blast
  have turns: "toy_turns = [0, 1, 2, 0, 1, 2] @ [1, 2, 0, 2, 0, 1]" by (simp add: toy_turns_def)
  have "schedule toy_lib toy_web toy_key toy_turns (arriving toy_race toy_server) =
      ([(toy_put, Finished (Val (put_answer ''K'' v0))), (toy_put, Finished (Val (put_answer ''K'' v1))),
        (toy_get, Finished (Val (respond 200 (secrets_json l))))], w5)"
    unfolding turns schedule_append start by (simp add: turn_def p1 g p0 r2 r0 r1 del: advance.simps)
  with f5 show ?thesis by blast
qed

text \<open>A PUT that has been answered before a GET begins.\<close>

definition toy_pair :: "request list" where
  "toy_pair = [toy_put, toy_get]"

definition toy_before :: "nat list" where
  "toy_before = [0, 0, 0, 0]"

definition toy_after :: "nat list" where
  "toy_after = [1, 1, 1, 1]"

lemma toy_pair_facts:
  "0 < length toy_pair" "1 < length toy_pair"
  "put_of toy_web (toy_pair ! 0) = Some (''app'', ''K'')"
  "json_body toy_web (parse_set_secret toy_web) (toy_pair ! 0) = Inr ''v''"
  "match_route (rq_path (toy_pair ! 1)) = Some (RSecrets ''app'')" "rq_method (toy_pair ! 1) = GET"
  "\<forall>req \<in> set toy_pair. \<not> deletes_secret req"
  using toy_put_body by (auto simp: toy_pair_def put_of_def toy_routes deletes_secret_def) (simp_all add: toy_web_def)

lemma toy_pair_ends:
  "\<exists>n l v w'. schedule toy_lib toy_web toy_key toy_before (arriving toy_pair toy_server) =
       ([(toy_put, Finished (Val (put_answer ''K'' n))), (toy_get, Arrived)], v) \<and>
     schedule toy_lib toy_web toy_key (toy_before @ toy_after) (arriving toy_pair toy_server) =
       ([(toy_put, Finished (Val (put_answer ''K'' n))), (toy_get, Finished (Val (respond 200 (secrets_json l))))], w') \<and>
     versions (wdb w') ''app'' ''K'' = Some n"
proof -
  let ?adv = "advance toy_lib toy_web toy_key" and ?n = "Some ''root''" and ?w = "toy_server\<lparr>wtick := 2\<rparr>"
  have fine: "fine 2 (toy_server\<lparr>wtick := t\<rparr>)" for t using fine_toy by simp
  from toy_put_section [of 1 ?w ?n] fine obtain n w1 where p: "?adv toy_put (Admitted ?n toy_root) ?w = (Answering ?n (put_answer ''K'' n), w1)"
    and f1: "fine 1 w1" by (auto simp: numeral_2_eq_2)
  have "put_of toy_web toy_put = Some (''app'', ''K'')" by (simp add: put_of_def toy_routes toy_web_def)
  from put_section [OF this p, of "''K''" n] have ver: "versions (wdb w1) ''app'' ''K'' = Some n" by simp
  from toy_recording [OF f1] obtain w2 where r: "?adv toy_put (Answering ?n (put_answer ''K'' n)) w1 = (Finished (Val (put_answer ''K'' n)), w2)"
    and f2: "fine 1 w2" and d2: "wdb w2 = wdb w1" by blast
  let ?w3 = "w2\<lparr>wtick := Suc (wtick w2)\<rparr>" and ?w4 = "w2\<lparr>wtick := Suc (Suc (wtick w2))\<rparr>"
  have fine': "fine 1 (w2\<lparr>wtick := t\<rparr>)" for t using f2 by simp
  from toy_get_section [OF fine' [of "Suc (Suc (wtick w2))"], of ?n] obtain l where
    g: "?adv toy_get (Admitted ?n toy_root) ?w4 = (Answering ?n (respond 200 (secrets_json l)), ?w4)" by blast
  from toy_recording [OF fine' [of "Suc (Suc (wtick w2))"], of toy_get ?n "respond 200 (secrets_json l)"] obtain w5 where
    e: "?adv toy_get (Answering ?n (respond 200 (secrets_json l))) ?w4 = (Finished (Val (respond 200 (secrets_json l))), w5)"
    and d5: "wdb w5 = wdb ?w4" by blast
  have first: "schedule toy_lib toy_web toy_key toy_before (arriving toy_pair toy_server) =
      ([(toy_put, Finished (Val (put_answer ''K'' n))), (toy_get, Arrived)], w2)"
    by (simp add: toy_before_def toy_pair_def arriving_def turn_def toy_named [OF fine_toy] toy_admitted_at [OF fine] p r
        numeral_2_eq_2 [symmetric] del: advance.simps)
  have "schedule toy_lib toy_web toy_key (toy_before @ toy_after) (arriving toy_pair toy_server) =
      ([(toy_put, Finished (Val (put_answer ''K'' n))), (toy_get, Finished (Val (respond 200 (secrets_json l))))], w5)"
    unfolding schedule_append first by (simp add: toy_after_def turn_def toy_named [OF f2] toy_admitted_at [OF fine'] g e del: advance.simps)
  moreover have "versions (wdb w5) ''app'' ''K'' = Some n" using ver d2 d5 by simp
  ultimately show ?thesis using first by blast
qed

end
