(* ===== verification/ConcurrentTokens.thy ===== *)
theory ConcurrentTokens
  imports ConcurrentFacts
begin

text \<open>
  The token table under interleaving: rows are added with fresh ids and revoked, and nothing
  else ever happens to them, so that a revoked row stays revoked in every later state.
\<close>

section \<open>What becomes of the rows\<close>

text \<open>\<open>d'\<close> is later than \<open>d\<close> as far as its tokens are concerned: the rows of \<open>d\<close>, some revoked
  meanwhile, and then rows with other ids.\<close>

definition tokens_since :: "database \<Rightarrow> database \<Rightarrow> bool" where
  "tokens_since d d' \<longleftrightarrow> (\<exists>f new. db_tokens d' = map f (db_tokens d) @ new \<and>
     (\<forall>r. f r = r \<or> f r = r\<lparr>tk_revoked := 1\<rparr>) \<and> (\<forall>r \<in> set new. tk_id r \<notin> tk_id ` set (db_tokens d)))"

lemma tokens_sinceI:
  "db_tokens d' = map f (db_tokens d) @ new \<Longrightarrow> (\<And>r. f r = r \<or> f r = r\<lparr>tk_revoked := 1\<rparr>) \<Longrightarrow>
   (\<And>r. r \<in> set new \<Longrightarrow> tk_id r \<notin> tk_id ` set (db_tokens d)) \<Longrightarrow> tokens_since d d'"
  unfolding tokens_since_def by blast

lemma tokens_since_same: "db_tokens d' = db_tokens d \<Longrightarrow> tokens_since d d'"
  by (rule tokens_sinceI [of _ "\<lambda>r. r" _ "[]"]) simp_all

lemma tokens_since_trans:
  assumes "tokens_since d d'" and "tokens_since d' d''"
  shows "tokens_since d d''"
proof -
  from assms(1) obtain f new where d': "db_tokens d' = map f (db_tokens d) @ new"
    and f: "\<And>r. f r = r \<or> f r = r\<lparr>tk_revoked := 1\<rparr>" and new: "\<And>r. r \<in> set new \<Longrightarrow> tk_id r \<notin> tk_id ` set (db_tokens d)"
    unfolding tokens_since_def by blast
  from assms(2) obtain g more where d'': "db_tokens d'' = map g (db_tokens d') @ more"
    and g: "\<And>r. g r = r \<or> g r = r\<lparr>tk_revoked := 1\<rparr>" and more: "\<And>r. r \<in> set more \<Longrightarrow> tk_id r \<notin> tk_id ` set (db_tokens d')"
    unfolding tokens_since_def by blast
  have gid: "tk_id (g r) = tk_id r" for r using g [of r] by (metis token_row.ext_inject token_row.surjective token_row.update_convs(6))
  have fid: "tk_id (f r) = tk_id r" for r using f [of r] by (metis token_row.ext_inject token_row.surjective token_row.update_convs(6))
  show ?thesis
  proof (rule tokens_sinceI [of _ "g \<circ> f" _ "map g new @ more"])
    show "db_tokens d'' = map (g \<circ> f) (db_tokens d) @ map g new @ more" by (simp add: d'' d')
    show "(g \<circ> f) r = r \<or> (g \<circ> f) r = r\<lparr>tk_revoked := 1\<rparr>" for r using f [of r] g [of "f r"] by auto
    show "tk_id r \<notin> tk_id ` set (db_tokens d)" if "r \<in> set (map g new @ more)" for r
    proof -
      from that consider r0 where "r0 \<in> set new" "r = g r0" | "r \<in> set more" by auto
      then show ?thesis
      proof cases
        case 1
        with new [of r0] gid show ?thesis by simp
      next
        case 2
        from more [OF this] show ?thesis by (auto simp: d' fid image_Un image_image)
      qed
    qed
  qed
qed

text \<open>A row that is active now was active then, or is new.\<close>

lemma active_since:
  assumes "tokens_since d d'" and "r \<in> set (db_tokens d')" and "active r"
  shows "r \<in> set (db_tokens d) \<or> tk_id r \<notin> tk_id ` set (db_tokens d)"
proof -
  from assms(1) obtain f new where d': "db_tokens d' = map f (db_tokens d) @ new"
    and f: "\<And>r. f r = r \<or> f r = r\<lparr>tk_revoked := 1\<rparr>" and new: "\<And>r. r \<in> set new \<Longrightarrow> tk_id r \<notin> tk_id ` set (db_tokens d)"
    unfolding tokens_since_def by blast
  from assms(2) consider r0 where "r0 \<in> set (db_tokens d)" "r = f r0" | "r \<in> set new" by (auto simp: d')
  then show ?thesis
  proof cases
    case 1
    with f [of r0] assms(3) show ?thesis by (auto simp: active_def)
  qed (use new in blast)
qed

lemma tokens_since_insert: "tokens_since d (d\<lparr>db_tokens := db_tokens d @ [new_token_row n h s e ts (db_tokens d)]\<rparr>)"
  using next_rowid_fresh [of "map tk_id (db_tokens d)"]
  by (intro tokens_sinceI [of _ "\<lambda>r. r" _ "[new_token_row n h s e ts (db_tokens d)]"]) (simp_all add: new_token_row_def)

lemma tokens_since_revoke: "tokens_since d (d\<lparr>db_tokens := revoke_rows name (db_tokens d)\<rparr>)"
  by (rule tokens_sinceI [of _ "\<lambda>r. if tk_name r = name \<and> active r then r\<lparr>tk_revoked := 1\<rparr> else r" _ "[]"])
    (simp_all add: revoke_rows_def)

lemma revoked_inactive: "r \<in> set (revoke_rows name rows) \<Longrightarrow> active r \<Longrightarrow> tk_name r \<noteq> name"
proof -
  assume "r \<in> set (revoke_rows name rows)" and act: "active r"
  then obtain x where "r = (if tk_name x = name \<and> active x then x\<lparr>tk_revoked := 1\<rparr> else x)"
    unfolding revoke_rows_def set_map by (elim imageE)
  then have "r = x\<lparr>tk_revoked := 1\<rparr> \<or> r = x \<and> \<not> (tk_name x = name \<and> active x)" by (simp split: if_split_asm)
  with act show ?thesis by (elim disjE conjE) (simp_all add: active_def)
qed

lemma api_change_tokens_since: "api_change L K s d d' \<Longrightarrow> tokens_since d d'"
  by (erule api_change.cases)
    (auto dest!: insert_project_Inr upsert_stmt_Inr intro: tokens_since_same tokens_since_insert tokens_since_revoke)

section \<open>Along a schedule\<close>

lemma advance_tokens_since:
  "aead_ok L \<Longrightarrow> web_ok W \<Longrightarrow> advance L W K req st w = (st', w') \<Longrightarrow> tokens_since (wdb w) (wdb w')"
  using advance_any [of L W K req st w st' w'] by (auto simp: tokens_since_insert intro: api_change_tokens_since)

lemma events_since_start:
  assumes "aead_ok L" and "web_ok W" and "(j, u, u') \<in> set (events L W K is c)"
  shows "tokens_since (wdb (snd c)) (wdb u)"
  by (rule events_relate [where R = tokens_since and Q = "\<lambda>_. True", OF _ tokens_since_trans advance_tokens_since [OF assms(1,2)] _ assms(3)])
    (simp_all add: tokens_since_same)

lemma events_since:
  assumes "aead_ok L" and "web_ok W"
  shows "events L W K is c = H1 @ (i, v, v') # H2 \<Longrightarrow> (j, u, u') \<in> set H2 \<Longrightarrow> tokens_since (wdb v') (wdb u)"
proof (induction "is" arbitrary: c H1)
  case (Cons k "is")
  show ?case
  proof (cases H1)
    case Nil
    with Cons.prems have "v' = snd (turn L W K k c)" "(j, u, u') \<in> set (events L W K is (turn L W K k c))" by auto
    with events_since_start [OF assms] show ?thesis by simp
  next
    case (Cons e H)
    with Cons.prems show ?thesis by (intro Cons.IH [of "turn L W K k c" H]) auto
  qed
qed simp

text \<open>Whoever is let in by the token check is let in by a row.\<close>

lemma from_request_row:
  assumes "ct_ok L" and "from_request_parts L W auth w = (Val a, w')"
  shows "\<exists>t r. extract_bearer W auth = Some t \<and> r \<in> set (db_tokens (wdb w)) \<and> active r \<and>
    tk_hash r = hash_token L t \<and> a = identity_of r"
proof -
  from assms(2) obtain t where "extract_bearer W auth = Some t"
    and "who L (wclock w (wtick w)) (hash_token L t) (db_tokens (wdb w)) = Some a"
    by (auto simp: from_request_parts_def bindP_Val_iff with_db_Val_iff authenticate_Val_iff [OF assms(1)])
  with who_SomeD show ?thesis by (fastforce simp: admits_def)
qed

end
