(* ===== verification/ConcurrentReads.thy ===== *)
theory ConcurrentReads
  imports ConcurrentVersions
begin

text \<open>
  Values under interleaving: once a PUT has been answered, its key holds its value or a later
  version, in every state from then on, as long as nothing is deleted.
\<close>

section \<open>A key that holds a value\<close>

text \<open>The key is at version \<open>n\<close> with value \<open>v\<close>, or at a later version.\<close>

definition holds :: "lib \<Rightarrow> master_key \<Rightarrow> string \<Rightarrow> string \<Rightarrow> int \<Rightarrow> string \<Rightarrow> database \<Rightarrow> bool" where
  "holds L K p k n v d \<longleftrightarrow> (\<exists>r. secret_at d p k = Some r \<and> n \<le> sr_version r \<and> (sr_version r = n \<longrightarrow> opened L K p r = Some v))"

lemma holds_grows: "holds L K p k n v d \<Longrightarrow> grows d d' \<Longrightarrow> holds L K p k n v d'"
proof -
  assume "holds L K p k n v d" and g: "grows d d'"
  then obtain r where r: "secret_at d p k = Some r" "n \<le> sr_version r" "sr_version r = n \<longrightarrow> opened L K p r = Some v"
    by (auto simp: holds_def)
  from growsD [OF g r(1)] obtain r' where "secret_at d' p k = Some r'" "r' = r \<or> sr_version r < sr_version r'" by blast
  with r show ?thesis by (auto simp: holds_def)
qed

lemma holds_version: "holds L K p k n v d \<Longrightarrow> \<exists>m \<ge> n. versions d p k = Some m"
  by (auto simp: holds_def versions_secret_at)

lemma holds_value: "holds L K p k n v d \<Longrightarrow> versions d p k = Some n \<Longrightarrow> vault L K d p = Some m \<Longrightarrow> m k = Some v"
  by (auto simp: holds_def versions_secret_at vault_secret_at)

text \<open>The section that answers a PUT makes its key hold its value.\<close>

lemma put_section_holds:
  fixes w :: "'m server_scheme"
  assumes "aead_ok L" and "web_ok W" and "db_wf (wdb w)"
    and put: "put_of W req = Some (p, k)" and run: "advance L W K req st w = (st', w')"
    and "answer_of st = None" and "answer_of st' = Some (put_answer k n)" and body: "json_body W (parse_set_secret W) req = Inr v"
  shows "holds L K p k n v (wdb w')"
proof -
  from put_section_runs [OF put run assms(6,7)] obtain a where ps: "put_secret L W K a p k req w = (Val (put_answer k n), w')" by blast
  from put_secret_version [OF this] obtain r where r: "secret_at (wdb w') p k = Some r" "sr_version r = n"
    by (auto simp: versions_secret_at)
  from put_secret_ValD [OF assms(1-3) ps] body obtain m where "vault L K (wdb w') p = Some (m(k \<mapsto> v))" by auto
  from vault_secret_at [OF this, of k] r show ?thesis by (auto simp: holds_def)
qed

section \<open>Along a schedule\<close>

text \<open>Every answered PUT of the pool holds in the database.\<close>

definition answers_hold :: "lib \<Rightarrow> web \<Rightarrow> master_key \<Rightarrow> 'm pool \<Rightarrow> bool" where
  "answers_hold L W K c \<longleftrightarrow> (\<forall>i p k n v. i < length (fst c) \<longrightarrow> answered_version W (fst c ! i) p k n \<longrightarrow>
     json_body W (parse_set_secret W) (fst (fst c ! i)) = Inr v \<longrightarrow> holds L K p k n v (wdb (snd c)))"

lemma answers_hold_turn:
  fixes s :: "'m server_scheme"
  assumes laws: "aead_ok L" "web_ok W" and wf: "db_wf (wdb s)"
    and inv: "answers_hold L W K (ps, s)" and i: "i < length ps" "ps ! i = (req, st)"
    and run: "advance L W K req st s = (st', s')" and keep: "\<not> deletes_secret req"
  shows "answers_hold L W K (ps[i := (req, st')], s')"
  unfolding answers_hold_def fst_conv snd_conv length_list_update
proof (intro allI impI)
  let ?ps = "ps[i := (req, st')]"
  fix j p k n v
  assume j: "j < length ps" and a: "answered_version W (?ps ! j) p k n"
    and body: "json_body W (parse_set_secret W) (fst (?ps ! j)) = Inr v"
  show "holds L K p k n v (wdb s')"
  proof (cases "answered_version W (ps ! j) p k n")
    case True
    have "fst (?ps ! j) = fst (ps ! j)" using i by (cases "j = i") simp_all
    with inv j True body have "holds L K p k n v (wdb s)" by (auto simp: answers_hold_def)
    then show ?thesis using advance_grows [OF run keep] by (rule holds_grows)
  next
    case False
    with a have "j = i" by (metis nth_list_update_neq)
    with a False i have put: "put_of W req = Some (p, k)" and new: "answer_of st' = Some (put_answer k n)"
      and "answer_of st \<noteq> Some (put_answer k n)" by (auto simp: answered_version_def)
    with answer_stays [OF run] have "answer_of st = None" by (cases "answer_of st") auto
    from put_section_holds [OF laws wf put run this new] body \<open>j = i\<close> i show ?thesis by simp
  qed
qed

lemma schedule_answers_hold:
  fixes w :: "'m server_scheme"
  assumes laws: "aead_ok L" "web_ok W" and wf: "db_wf (wdb w)" and keep: "\<And>req. req \<in> set reqs \<Longrightarrow> \<not> deletes_secret req"
  shows "answers_hold L W K (schedule L W K is (arriving reqs w))"
proof -
  let ?P = "\<lambda>(_ :: 'm event list) c :: 'm pool. db_wf (wdb (snd c)) \<and> answers_hold L W K c"
  have "?P (events L W K is (arriving reqs w)) (schedule L W K is (arriving reqs w))"
  proof (rule schedule_invariant)
    show "?P [] (arriving reqs w)" using wf by (simp add: answers_hold_def answered_version_def)
    fix H ps i req st st' and s s' :: "'m server_scheme"
    assume P: "?P H (ps, s)" and reqs: "map fst ps = reqs" and i: "i < length ps" "ps ! i = (req, st)"
      and run: "advance L W K req st s = (st', s')"
    from reqs i have "req \<in> set reqs" by (metis fst_conv in_set_conv_nth length_map nth_map)
    with P answers_hold_turn [OF laws _ _ i run] keep advance_wf [OF laws run]
    show "?P (H @ [(i, s, s')]) (ps[i := (req, st')], s')" by simp
  qed
  then show ?thesis by blast
qed

text \<open>In the states after a PUT was answered its key holds.\<close>

lemma answered_holds_after:
  fixes w :: "'m server_scheme"
  assumes laws: "aead_ok L" "web_ok W" and wf: "db_wf (wdb w)" and keep: "\<And>req. req \<in> set reqs \<Longrightarrow> \<not> deletes_secret req"
    and i: "i < length reqs" and put: "put_of W (reqs ! i) = Some (p, k)" and body: "json_body W (parse_set_secret W) (reqs ! i) = Inr v"
    and fin: "snd (fst (schedule L W K is (arriving reqs w)) ! i) = Finished (Val (put_answer k n))"
    and u: "(j, u, u') \<in> set (events L W K js (schedule L W K is (arriving reqs w)))"
  shows "holds L K p k n v (wdb u)"
proof -
  let ?c = "schedule L W K is (arriving reqs w)"
  have "answered_version W (fst ?c ! i) p k n" using put fin i by (simp add: answered_version_def schedule_request)
  with schedule_answers_hold [OF laws wf keep, of reqs K "is"] i body have "holds L K p k n v (wdb (snd ?c))"
    by (auto simp: answers_hold_def schedule_request)
  moreover have "grows (wdb (snd ?c)) (wdb u)"
    by (rule events_relate [where R = grows and Q = "\<lambda>req. \<not> deletes_secret req", OF grows_refl grows_trans advance_grows _ u])
      (use keep in \<open>simp_all add: schedule_requests arriving_def comp_def\<close>)
  ultimately show ?thesis by (rule holds_grows)
qed

end
