(* ===== verification/ConcurrentProperties.thy ===== *)
theory ConcurrentProperties
  imports ConcurrentSamples ConcurrentTokens ConcurrentReads
begin

text \<open>
  The properties of interleaved requests on one server: whatever the schedule,
  nothing is changed without an accepted token, no update is lost, reads see the writes answered
  before them, a revoked token stays refused, and the log has one entry per answer. The sections
  in which requests alternate are those of \<open>Concurrent\<close>, cut where the code takes and releases
  its locks.
\<close>

section \<open>One handler, one state\<close>

text \<open>The events of the race.\<close>

definition toy_events :: "unit event list" where
  "toy_events = events toy_lib toy_web toy_key toy_turns (arriving toy_race toy_server)"

lemma error_not_ok [simp]: "rs_status (error_response e) \<noteq> 200"
  by (cases e) (simp_all add: error_response_def)

text \<open>An answer 200 of a request that mints nothing is one run of its handler on one state.\<close>

lemma handler_ran:
  fixes h :: "'m handler" and w :: "'m server_scheme"
  assumes "i < length reqs" and "snd (fst (schedule L W K is (arriving reqs w)) ! i) = Finished (Val rsp)" and "rs_status rsp = 200"
    and "match_route (rq_path (reqs ! i)) = Some r" and "r \<noteq> RHealth \<and> \<not> mints (reqs ! i) r \<and> rq_method (reqs ! i) \<noteq> HEAD"
    and "endpoint L W K (reqs ! i) r (rq_method (reqs ! i)) = Some h"
  shows "\<exists>a u u'. (i, u, u') \<in> set (events L W K is (arriving reqs w)) \<and> into_response (h a) u = (Val rsp, u')"
proof -
  let ?H = "events L W K is (arriving reqs w)"
  have ex: "explained L W K ?H i (reqs ! i) (Finished (Val rsp))"
    using schedule_explained [of L W K "is" reqs w] assms(1,2) unfolding pool_explained_def
    by (metis arriving_simps(1,3) fst_conv schedule_length schedule_request)
  have head: "strip_head (reqs ! i) x = x" for x using assms(5) by (simp add: strip_head_def)
  from ex assms(5) have "served L W ?H i (reqs ! i) r h rsp" by (simp add: accounted_def assms(4,6) head)
  then show ?thesis
  proof (cases rule: served.cases)
    case handled
    from ran_onceD [OF this] show ?thesis by blast
  qed (use assms(3,5) in simp_all)
qed

lemma concurrent_snapshot:
  assumes "aead_ok L" and "web_ok W" and "db_wf (wdb w)" and "i < length reqs"
    and "snd (fst (schedule L W K is (arriving reqs w)) ! i) = Finished (Val rsp)" and "rs_status rsp = 200"
    and "match_route (rq_path (reqs ! i)) = Some (RSecrets s)" and "rq_method (reqs ! i) = GET"
  shows "\<exists>p u u' l. path_decode W s = Some p \<and> (i, u, u') \<in> set (events L W K is (arriving reqs w)) \<and>
    rsp = respond 200 (secrets_json l) \<and> bt_inv l \<and> vault L K (wdb u) p = Some (map_of l)"
proof -
  let ?h = "\<lambda>t. with_path W [(''name'', s)] (\<lambda>p. get_secrets L K t (p ! 0))"
  have "endpoint L W K (reqs ! i) (RSecrets s) (rq_method (reqs ! i)) = Some ?h" by (simp add: assms(8))
  from handler_ran [OF assms(4-7) _ this] assms(8) obtain a u u' where u: "(i, u, u') \<in> set (events L W K is (arriving reqs w))"
    and run: "into_response (?h a) u = (Val rsp, u')" by (auto simp: mints_def)
  from schedule_wf [OF assms(1-3), of K "is" reqs] u have wf: "db_wf (wdb u)" by auto
  from run assms(6) obtain p where p: "path_decode W s = Some p" and "get_secrets L K a p u = (Val rsp, u')"
    by (auto simp: into_response_def with_path_def path_rejected_def split: if_splits prod.splits outcome.splits)
  from get_secrets_ValD [OF wf this(2)] u p show ?thesis by blast
qed

text \<open>C20: concurrent reads are snapshots. Whatever other requests do meanwhile, a GET that answered
  200 returned, in key order, the whole project as the vault had it in one state of the
  server, never a mixture of two.\<close>
theorem concurrent_reads_are_snapshots:
  assumes "aead_ok L" and "web_ok W" and "db_wf (wdb w)" and "i < length reqs"
    and "snd (fst (schedule L W K is (arriving reqs w)) ! i) = Finished (Val rsp)" and "rs_status rsp = 200"
    and "match_route (rq_path (reqs ! i)) = Some (RSecrets s)" and "rq_method (reqs ! i) = GET"
  shows "\<exists>p u u' l. path_decode W s = Some p \<and> (i, u, u') \<in> set (events L W K is (arriving reqs w)) \<and>
    rsp = respond 200 (secrets_json l) \<and> bt_inv l \<and> vault L K (wdb u) p = Some (map_of l)"
  by (rule concurrent_snapshot [OF assms])

theorem concurrent_reads_are_snapshots_witness:
  "\<exists>u u' l. (2, u, u') \<in> set toy_events \<and> vault toy_lib toy_key (wdb u) ''app'' = Some (map_of l) \<and>
     snd (fst (schedule toy_lib toy_web toy_key toy_turns (arriving toy_race toy_server)) ! 2) = Finished (Val (respond 200 (secrets_json l)))"
proof -
  obtain v0 v1 l w' where run: "schedule toy_lib toy_web toy_key toy_turns (arriving toy_race toy_server) =
     ([(toy_put, Finished (Val (put_answer ''K'' v0))), (toy_put, Finished (Val (put_answer ''K'' v1))),
       (toy_get, Finished (Val (respond 200 (secrets_json l))))], w')" using toy_race_ends by blast
  have r: "2 < length toy_race" "match_route (rq_path (toy_race ! 2)) = Some (RSecrets ''app'')" "rq_method (toy_race ! 2) = GET"
    by (simp_all add: toy_race_def toy_routes)
  have fin: "snd (fst (schedule toy_lib toy_web toy_key toy_turns (arriving toy_race toy_server)) ! 2) = Finished (Val (respond 200 (secrets_json l)))"
    by (simp add: run)
  have "db_wf (wdb toy_server)" "rs_status (respond 200 (secrets_json l)) = 200" by (simp_all add: toy_db_wf respond_def)
  from concurrent_reads_are_snapshots [OF toy_aead toy_web_ok this(1) r(1) fin this(2) r(2,3)] fin show ?thesis
    by (auto simp: toy_events_def toy_web_def)
qed

section \<open>Changes\<close>

text \<open>C6: every change is authorised, and made once. A section of an interleaved request that
  changes a table belongs to a request whose token was accepted before, in some earlier state,
  as an identity whose scope allows that change; and no other section of that request changes
  anything.\<close>
theorem interleaved_changes_are_authorised:
  assumes "aead_ok L" and "ct_ok L" and "web_ok W"
    and "events L W K is (arriving reqs w) = H1 @ (i, v, v') # H2" and "wdb v' \<noteq> wdb v"
  shows "i < length reqs \<and>
    (\<exists>u u' a. (i, u, u') \<in> set H1 \<and> accepted L W (reqs ! i) (wclock u) (wdb u) a \<and> api_change L K (at_scope a) (wdb v) (wdb v')) \<and>
    (\<forall>(j, x, x') \<in> set (H1 @ H2). j = i \<longrightarrow> wdb x' = wdb x)"
proof -
  from schedule_authorised [OF assms(1,3), of K reqs "is" w] assms(4,5) obtain a where i: "i < length reqs"
    and pass: "passed L W H1 i (reqs ! i) a" and ch: "api_change L K (at_scope a) (wdb v) (wdb v')"
    unfolding authorised_def by metis
  from pass obtain u u' where "(i, u, u') \<in> set H1" "from_request_parts L W (rq_auth (reqs ! i)) u = (Val a, u')"
    by (auto simp: passed_def)
  moreover from from_request_ValD [OF assms(2) this(2)] have "accepted L W (reqs ! i) (wclock u) (wdb u) a" by simp
  moreover have "\<forall>(j, x, x') \<in> set (H1 @ H2). j = i \<longrightarrow> wdb x' = wdb x"
    using schedule_commits [of i L W K "is" reqs w] assms(5) by (auto simp: assms(4) commits_def filter_empty_conv)
  ultimately show ?thesis using i ch by blast
qed

text \<open>A PUT alone: its third section stores.\<close>

theorem interleaved_changes_are_authorised_witness:
  "\<exists>H1 v v' u u' a. events toy_lib toy_web toy_key [0, 0, 0] (arriving [toy_put] toy_server) = H1 @ [(0, v, v')] \<and>
     wdb v' \<noteq> wdb v \<and> (0, u, u') \<in> set H1 \<and> accepted toy_lib toy_web toy_put (wclock u) (wdb u) a \<and>
     api_change toy_lib toy_key (at_scope a) (wdb v) (wdb v')"
proof -
  let ?adv = "advance toy_lib toy_web toy_key toy_put" and ?n = "Some ''root''"
  let ?w1 = "toy_server\<lparr>wtick := Suc 0\<rparr>" and ?w2 = "toy_server\<lparr>wtick := 2\<rparr>"
  have fine: "fine 2 (toy_server\<lparr>wtick := t\<rparr>)" for t using fine_toy by simp
  have s1: "?adv Arrived toy_server = (Named ?n, ?w1)" and s2: "?adv (Named ?n) ?w1 = (Admitted ?n toy_root, ?w2)"
    by (simp_all add: toy_named [OF fine_toy] toy_admitted_at [OF fine] numeral_2_eq_2 del: advance.simps)
  from toy_put_section [of 1 ?w2 ?n] fine obtain k w' where s3: "?adv (Admitted ?n toy_root) ?w2 = (Answering ?n (put_answer ''K'' k), w')"
    by (auto simp: numeral_2_eq_2)
  have ev: "events toy_lib toy_web toy_key [0, 0, 0] (arriving [toy_put] toy_server) =
      [(0, toy_server, ?w1), (0, ?w1, ?w2)] @ (0, ?w2, w') # []"
    by (simp add: arriving_def turn_def s1 s2 s3 del: advance.simps)
  have "put_of toy_web toy_put = Some (''app'', ''K'')" by (simp add: put_of_def toy_routes toy_web_def)
  from put_section [OF this s3, of "''K''" k] have "versions (wdb w') ''app'' ''K'' = Some k"
    "k = (case versions toy_db ''app'' ''K'' of None \<Rightarrow> 1 | Some m \<Rightarrow> m + 1)" by simp_all
  then have ne: "wdb w' \<noteq> wdb ?w2" by (cases "versions toy_db ''app'' ''K''") auto
  from interleaved_changes_are_authorised [OF toy_aead toy_ct toy_web_ok ev ne] obtain u u' a where
    "(0 :: nat, u, u') \<in> set [(0, toy_server, ?w1), (0, ?w1, ?w2)]" "accepted toy_lib toy_web toy_put (wclock u) (wdb u) a"
    "api_change toy_lib toy_key (at_scope a) (wdb ?w2) (wdb w')" by auto
  with ev ne show ?thesis by (intro exI conjI)
qed

text \<open>C7: revocation is final. A DELETE of a token name that answered 200 has an instant after
  which, however requests interleave, a section that accepts a presented token accepts it for
  an active row with its hash, and that row is of another name or was issued after that
  instant. (A request accepted before goes on.)\<close>
theorem revocation_is_final:
  assumes "aead_ok L" and "ct_ok L" and "web_ok W" and "i < length reqs"
    and "snd (fst (schedule L W K is (arriving reqs w)) ! i) = Finished (Val rsp)" and "rs_status rsp = 200"
    and "match_route (rq_path (reqs ! i)) = Some (RToken s)" and "rq_method (reqs ! i) = DELETE"
  shows "\<exists>name H1 v v' H2. path_decode W s = Some name \<and> events L W K is (arriving reqs w) = H1 @ (i, v, v') # H2 \<and>
    (\<forall>(j, u, u') \<in> set H2. \<forall>a. from_request_parts L W (rq_auth (reqs ! j)) u = (Val a, u') \<longrightarrow>
      (\<exists>t. \<exists>r \<in> set (db_tokens (wdb u)). extract_bearer W (rq_auth (reqs ! j)) = Some t \<and> tk_hash r = hash_token L t \<and>
        active r \<and> a = identity_of r \<and> (tk_name r \<noteq> name \<or> tk_id r \<notin> tk_id ` set (db_tokens (wdb v')))))"
proof -
  let ?h = "\<lambda>t. with_path W [(''name'', s)] (\<lambda>p. revoke_token t (p ! 0))" and ?H = "events L W K is (arriving reqs w)"
  have "endpoint L W K (reqs ! i) (RToken s) (rq_method (reqs ! i)) = Some ?h" by (simp add: assms(8))
  from handler_ran [OF assms(4-7) _ this] assms(8) obtain a v v' where v: "(i, v, v') \<in> set ?H"
    and run: "into_response (?h a) v = (Val rsp, v')" by (auto simp: mints_def)
  from run assms(6) obtain name where name: "path_decode W s = Some name" and rev: "revoke_token a name v = (Val rsp, v')"
    by (auto simp: into_response_def with_path_def path_rejected_def split: if_splits prod.splits outcome.splits)
  from split_list [OF v] obtain H1 H2 where H: "?H = H1 @ (i, v, v') # H2" by blast
  have gone: "tk_name r \<noteq> name" if "r \<in> set (db_tokens (wdb v'))" "active r" for r
    using that revoke_token_ValD [OF rev] by (auto dest: revoked_inactive)
  have "\<exists>t. \<exists>r \<in> set (db_tokens (wdb u)). extract_bearer W auth = Some t \<and> tk_hash r = hash_token L t \<and>
      active r \<and> b = identity_of r \<and> (tk_name r \<noteq> name \<or> tk_id r \<notin> tk_id ` set (db_tokens (wdb v')))"
    if "(j, u, u') \<in> set H2" "from_request_parts L W auth u = (Val b, u')" for j u u' auth b
    using from_request_row [OF assms(2) that(2)] active_since [OF events_since [OF assms(1,3) H that(1)]] gone by blast
  with name H show ?thesis by blast
qed

theorem revocation_is_final_witness:
  "\<exists>H1 v v' H2. events toy_lib toy_web toy_key [0, 0, 0, 0] (arriving [toy_revoke] toy_server) = H1 @ (0, v, v') # H2 \<and>
     (\<forall>(j, u, u') \<in> set H2. \<forall>a. from_request_parts toy_lib toy_web (rq_auth ([toy_revoke] ! j)) u = (Val a, u') \<longrightarrow> at_name a \<noteq> ''ci'' \<or>
       (\<exists>r \<in> set (db_tokens (wdb u)). tk_id r \<notin> tk_id ` set (db_tokens (wdb v'))))"
proof -
  let ?rsp = "respond 200 (JObj [(''revoked'', JInt 1)])"
  have fin: "snd (fst (schedule toy_lib toy_web toy_key [0, 0, 0, 0] (arriving [toy_revoke] toy_server)) ! 0) = Finished (Val ?rsp)"
    using toy_revoke_ends by auto
  have r: "0 < length [toy_revoke]" "match_route (rq_path ([toy_revoke] ! 0)) = Some (RToken ''ci'')" "rq_method ([toy_revoke] ! 0) = DELETE"
    "rs_status ?rsp = 200" by (simp_all add: toy_routes respond_def)
  from revocation_is_final [OF toy_aead toy_ct toy_web_ok r(1) fin r(4,2,3)] obtain name H1 v v' H2 where
    name: "path_decode toy_web ''ci'' = Some name"
    and ev: "events toy_lib toy_web toy_key [0, 0, 0, 0] (arriving [toy_revoke] toy_server) = H1 @ (0, v, v') # H2"
    and cut: "\<forall>(j, u, u') \<in> set H2. \<forall>a. from_request_parts toy_lib toy_web (rq_auth ([toy_revoke] ! j)) u = (Val a, u') \<longrightarrow>
      (\<exists>t. \<exists>r \<in> set (db_tokens (wdb u)). extract_bearer toy_web (rq_auth ([toy_revoke] ! j)) = Some t \<and> tk_hash r = hash_token toy_lib t \<and>
        active r \<and> a = identity_of r \<and> (tk_name r \<noteq> name \<or> tk_id r \<notin> tk_id ` set (db_tokens (wdb v'))))"
    by blast
  from name have "name = ''ci''" by (simp add: toy_web_def)
  moreover have "at_name (identity_of r) = tk_name r" for r by (simp add: identity_of_def)
  ultimately have "\<forall>(j, u, u') \<in> set H2. \<forall>a. from_request_parts toy_lib toy_web (rq_auth ([toy_revoke] ! j)) u = (Val a, u') \<longrightarrow> at_name a \<noteq> ''ci'' \<or>
       (\<exists>r \<in> set (db_tokens (wdb u)). tk_id r \<notin> tk_id ` set (db_tokens (wdb v')))"
    using cut by fastforce
  with ev show ?thesis by blast
qed

text \<open>C8: no update is lost. When requests interleave and none of them deletes a secret, two PUTs
  of one key that both answered 200 answered different versions, and the version stored in
  the end is at least both.\<close>
theorem no_update_is_lost:
  assumes "\<And>req. req \<in> set reqs \<Longrightarrow> \<not> deletes_secret req"
    and "i < length reqs" and "j < length reqs" and "i \<noteq> j"
    and "put_of W (reqs ! i) = Some (p, k)" and "put_of W (reqs ! j) = Some (p, k)"
    and "snd (fst (schedule L W K is (arriving reqs w)) ! i) = Finished (Val (put_answer k m))"
    and "snd (fst (schedule L W K is (arriving reqs w)) ! j) = Finished (Val (put_answer k n))"
  shows "m \<noteq> n \<and> (\<exists>v \<ge> max m n. versions (wdb (snd (schedule L W K is (arriving reqs w)))) p k = Some v)"
proof -
  let ?c = "schedule L W K is (arriving reqs w)"
  have i: "answered_version W (fst ?c ! i) p k m" and j: "answered_version W (fst ?c ! j) p k n"
    using assms(2,3,5-8) by (simp_all add: answered_version_def schedule_request)
  from schedule_versions [of reqs W L K "is" w] assms(1) have inv: "versions_inv W ?c" by blast
  have len: "i < length (fst ?c)" "j < length (fst ?c)" using assms(2,3) by simp_all
  from versions_inv_distinct [OF inv len _ i] j assms(4) have "m \<noteq> n" by blast
  with versions_inv_stored [OF inv len(1) i] versions_inv_stored [OF inv len(2) j] show ?thesis by auto
qed

theorem no_update_is_lost_witness:
  "\<exists>m n w' st. schedule toy_lib toy_web toy_key toy_turns (arriving toy_race toy_server) =
     ([(toy_put, Finished (Val (put_answer ''K'' m))), (toy_put, Finished (Val (put_answer ''K'' n))), (toy_get, st)], w') \<and> m \<noteq> n"
proof -
  obtain v0 v1 l w' where run: "schedule toy_lib toy_web toy_key toy_turns (arriving toy_race toy_server) =
     ([(toy_put, Finished (Val (put_answer ''K'' v0))), (toy_put, Finished (Val (put_answer ''K'' v1))),
       (toy_get, Finished (Val (respond 200 (secrets_json l))))], w')" using toy_race_ends by blast
  have "put_of toy_web toy_put = Some (''app'', ''K'')" by (simp add: put_of_def toy_routes toy_web_def)
  moreover have "\<not> deletes_secret req" if "req \<in> set toy_race" for req
    using that by (auto simp: toy_race_def deletes_secret_def toy_routes)
  ultimately have "v0 \<noteq> v1"
    using no_update_is_lost [of toy_race 0 1 toy_web "''app''" "''K''" toy_lib toy_key toy_turns toy_server v0 v1]
    by (auto simp: run) (auto simp: toy_race_def)
  with run show ?thesis by blast
qed

section \<open>Reads after writes\<close>

text \<open>C9: reads see answered writes. When no request deletes a secret, a GET that begins after a
  PUT to its project was answered, whatever other requests run meanwhile, returns the project
  as the vault had it in a later state, and there the key of the PUT is at the version the PUT
  answered, with the value it sent, or at a higher version.\<close>
theorem reads_see_answered_writes:
  fixes w :: "'m server_scheme"
  assumes "aead_ok L" and "web_ok W" and "db_wf (wdb w)" and "\<forall>req \<in> set reqs. \<not> deletes_secret req"
    and "i < length reqs" and "put_of W (reqs ! i) = Some (p, k)" and "json_body W (parse_set_secret W) (reqs ! i) = Inr v"
    and "j < length reqs" and "match_route (rq_path (reqs ! j)) = Some (RSecrets s)" and "rq_method (reqs ! j) = GET" and "path_decode W s = Some p"
    and "snd (fst (schedule L W K is (arriving reqs w)) ! i) = Finished (Val (put_answer k n))" and "j \<notin> set is"
    and "snd (fst (schedule L W K (is @ js) (arriving reqs w)) ! j) = Finished (Val rsp)" and "rs_status rsp = 200"
  shows "\<exists>l m u u'. rsp = respond 200 (secrets_json l) \<and> bt_inv l \<and>
    (j, u, u') \<in> set (events L W K js (schedule L W K is (arriving reqs w))) \<and> vault L K (wdb u) p = Some (map_of l) \<and>
    versions (wdb u) p k = Some m \<and> n \<le> m \<and> (m = n \<longrightarrow> map_of l k = Some v)"
proof -
  from concurrent_snapshot [OF assms(1-3,8,14,15,9,10)] assms(11) obtain u u' l where
    u: "(j, u, u') \<in> set (events L W K (is @ js) (arriving reqs w))" and rsp: "rsp = respond 200 (secrets_json l)" "bt_inv l"
    and l: "vault L K (wdb u) p = Some (map_of l)" by auto
  from u assms(13) have u: "(j, u, u') \<in> set (events L W K js (schedule L W K is (arriving reqs w)))"
    by (auto simp: events_append dest: events_turns)
  from answered_holds_after [OF assms(1-3) bspec [OF assms(4)] assms(5-7,12) u] have h: "holds L K p k n v (wdb u)" .
  from holds_version [OF h] obtain m where m: "n \<le> m" "versions (wdb u) p k = Some m" by blast
  with rsp u l holds_value [OF h _ l] show ?thesis by blast
qed

theorem reads_see_answered_writes_witness:
  "\<exists>rsp l (u :: server) m. snd (fst (schedule toy_lib toy_web toy_key (toy_before @ toy_after) (arriving toy_pair toy_server)) ! 1) = Finished (Val rsp) \<and>
     rsp = respond 200 (secrets_json l) \<and> vault toy_lib toy_key (wdb u) ''app'' = Some (map_of l) \<and> versions (wdb u) ''app'' ''K'' = Some m"
proof -
  from toy_pair_ends obtain n l v w' where c: "schedule toy_lib toy_web toy_key toy_before (arriving toy_pair toy_server) =
       ([(toy_put, Finished (Val (put_answer ''K'' n))), (toy_get, Arrived)], v)"
    and all: "schedule toy_lib toy_web toy_key (toy_before @ toy_after) (arriving toy_pair toy_server) =
       ([(toy_put, Finished (Val (put_answer ''K'' n))), (toy_get, Finished (Val (respond 200 (secrets_json l))))], w')" by blast
  have f: "db_wf (wdb toy_server)" "path_decode toy_web ''app'' = Some ''app''" "1 \<notin> set toy_before"
    "rs_status (respond 200 (secrets_json l)) = 200"
    by (simp_all add: toy_db_wf toy_web_def respond_def toy_before_def)
  have fin: "snd (fst (schedule toy_lib toy_web toy_key toy_before (arriving toy_pair toy_server)) ! 0) = Finished (Val (put_answer ''K'' n))"
    "snd (fst (schedule toy_lib toy_web toy_key (toy_before @ toy_after) (arriving toy_pair toy_server)) ! 1) = Finished (Val (respond 200 (secrets_json l)))"
    using c all by simp_all
  from reads_see_answered_writes [OF toy_aead toy_web_ok f(1) toy_pair_facts(7,1,3,4,2,5,6) f(2) fin(1) f(3) fin(2) f(4)]
  obtain la m and u :: server where "respond 200 (secrets_json l) = respond 200 (secrets_json la)" "vault toy_lib toy_key (wdb u) ''app'' = Some (map_of la)"
    "versions (wdb u) ''app'' ''K'' = Some m" by blast
  with fin(2) show ?thesis by (intro exI conjI) simp_all
qed

text \<open>C10: the last version stands. When no request deletes a secret and the version stored in the
  end is the one a PUT answered, the value stored in the end is the one that PUT sent.\<close>
theorem latest_put_is_stored:
  fixes w :: "'m server_scheme"
  assumes "aead_ok L" and "web_ok W" and "db_wf (wdb w)" and "\<forall>req \<in> set reqs. \<not> deletes_secret req"
    and "i < length reqs" and "put_of W (reqs ! i) = Some (p, k)" and "json_body W (parse_set_secret W) (reqs ! i) = Inr v"
    and "snd (fst (schedule L W K is (arriving reqs w)) ! i) = Finished (Val (put_answer k n))"
    and "versions (wdb (snd (schedule L W K is (arriving reqs w)))) p k = Some n"
  shows "\<exists>m. vault L K (wdb (snd (schedule L W K is (arriving reqs w)))) p = Some (m(k \<mapsto> v))"
proof -
  let ?c = "schedule L W K is (arriving reqs w)"
  from assms(5,6,8) have "answered_version W (fst ?c ! i) p k n" by (simp add: answered_version_def schedule_request)
  with schedule_answers_hold [OF assms(1-3) bspec [OF assms(4)], of reqs K "is"] assms(5,7) have h: "holds L K p k n v (wdb (snd ?c))"
    by (auto simp: answers_hold_def schedule_request)
  from assms(9) obtain m where m: "vault L K (wdb (snd ?c)) p = Some m" by (auto simp: versions_def vault_def bind_eq_Some_conv)
  from holds_value [OF h assms(9) this] have "m = m(k \<mapsto> v)" by (simp add: fun_upd_idem)
  with m show ?thesis by metis
qed

theorem latest_put_is_stored_witness:
  "\<exists>m. vault toy_lib toy_key (wdb (snd (schedule toy_lib toy_web toy_key (toy_before @ toy_after) (arriving toy_pair toy_server)))) ''app'' =
     Some (m(''K'' \<mapsto> ''v''))"
proof -
  from toy_pair_ends obtain n l w' where all: "schedule toy_lib toy_web toy_key (toy_before @ toy_after) (arriving toy_pair toy_server) =
       ([(toy_put, Finished (Val (put_answer ''K'' n))), (toy_get, Finished (Val (respond 200 (secrets_json l))))], w')"
    and ver: "versions (wdb w') ''app'' ''K'' = Some n" by blast
  have "db_wf (wdb toy_server)" by (simp add: toy_db_wf)
  then show ?thesis
    by (rule latest_put_is_stored [OF toy_aead toy_web_ok _ toy_pair_facts(7,1,3,4)]) (simp_all add: all ver)
qed

section \<open>The log\<close>

text \<open>C21: the log has exactly one entry per answer. When the log can be written, the entries a
  schedule adds are, in some order, one for each request that was answered, with its method,
  its route template (never the raw path), the project segment of project routes and the
  status it was answered; a request still running or ended by a panic has none.\<close>
theorem answers_are_logged_once:
  assumes "audit_io w = []"
  shows "mset (map entry_view (audit_log (snd (schedule L W K is (arriving reqs w))))) =
    mset (map entry_view (audit_log w)) + mset (concat (map recorded (fst (schedule L W K is (arriving reqs w)))))"
  by (rule schedule_recorded [OF assms])

theorem answers_are_logged_once_witness:
  "size (mset (map entry_view (audit_log (snd (schedule toy_lib toy_web toy_key toy_turns (arriving toy_race toy_server)))))) = 3"
proof -
  obtain v0 v1 l w' where run: "schedule toy_lib toy_web toy_key toy_turns (arriving toy_race toy_server) =
     ([(toy_put, Finished (Val (put_answer ''K'' v0))), (toy_put, Finished (Val (put_answer ''K'' v1))),
       (toy_get, Finished (Val (respond 200 (secrets_json l))))], w')" using toy_race_ends by blast
  have "audit_io toy_server = []" "audit_log toy_server = []" by (simp_all add: toy_server_def)
  with answers_are_logged_once [of toy_server toy_lib toy_web toy_key toy_turns toy_race] show ?thesis by (simp add: run)
qed

end
