(* ===== verification/Files.thy ===== *)
theory Files
  imports Paths
begin

text \<open>
  The file system as far as the programs use it: a map from paths to nodes, with symbolic
  links followed up to the kernel's limit. The ancestors of a path are not recorded. Every
  operation is total and says \<open>None\<close> where the system call refuses; failures for other
  reasons are added by the states that carry a file system.
\<close>

section \<open>Nodes\<close>

text \<open>A file has permission bits, may refuse to be read, and has content. A special file is a
  device, FIFO or socket: it can be opened, but has no content that stays.\<close>

datatype node =
    RegularFile (file_mode: nat) (file_readable: bool) (file_bytes: "byte list")
  | SymbolicLink (link_target: string)
  | Directory (dir_mode: nat)
  | SpecialFile (special_mode: nat)

type_synonym files = "string \<rightharpoonup> node"

fun follow :: "nat \<Rightarrow> files \<Rightarrow> string \<Rightarrow> string option" where
  "follow n fs p = (case fs p of
     Some (SymbolicLink q) \<Rightarrow> (case n of 0 \<Rightarrow> None | Suc k \<Rightarrow> follow k fs q)
   | _ \<Rightarrow> Some p)"

declare follow.simps [simp del]

text \<open>The node behind a path; \<open>ELOOP\<close> after 40 links.\<close>

definition node_at :: "files \<Rightarrow> string \<Rightarrow> node option" where
  "node_at fs p = Option.bind (follow 40 fs p) fs"

text \<open>\<open>Path::exists\<close>.\<close>

definition path_exists :: "files \<Rightarrow> string \<Rightarrow> bool" where
  "path_exists fs p \<longleftrightarrow> node_at fs p \<noteq> None"

section \<open>Operations\<close>

text \<open>\<open>create_dir_all\<close>; a new directory gets mode \<open>m\<close>.\<close>

definition make_dirs :: "nat \<Rightarrow> string \<Rightarrow> files \<Rightarrow> files option" where
  "make_dirs m p fs = (if p = [] then Some fs else case node_at fs p of
     Some (Directory m') \<Rightarrow> Some fs
   | Some _ \<Rightarrow> None
   | None \<Rightarrow> if fs p = None then Some (fs(p \<mapsto> Directory m)) else None)"

text \<open>\<open>create(true).append(true)\<close> with mode 0600 and \<open>O_NOFOLLOW\<close>.\<close>

definition open_append :: "string \<Rightarrow> files \<Rightarrow> files option" where
  "open_append p fs = (case fs p of
     None \<Rightarrow> Some (fs(p \<mapsto> RegularFile 384 True []))
   | Some (RegularFile m r b) \<Rightarrow> Some fs
   | Some (SpecialFile m) \<Rightarrow> Some fs
   | Some _ \<Rightarrow> None)"

text \<open>The same without mode and flags, as off Unix: links are followed, and a new file gets the
  mode \<open>m\<close> that new files have.\<close>

definition open_append_other :: "nat \<Rightarrow> string \<Rightarrow> files \<Rightarrow> files option" where
  "open_append_other m p fs = (case follow 40 fs p of
     None \<Rightarrow> None
   | Some q \<Rightarrow> (case fs q of
       None \<Rightarrow> Some (fs(q \<mapsto> RegularFile m True []))
     | Some (RegularFile m' r b) \<Rightarrow> Some fs
     | Some (SpecialFile m') \<Rightarrow> Some fs
     | Some _ \<Rightarrow> None))"

text \<open>\<open>create_new(true).write(true)\<close> with mode 0600: whatever stands at the path refuses.\<close>

definition create_new :: "string \<Rightarrow> files \<Rightarrow> files option" where
  "create_new p fs = (if fs p = None then Some (fs(p \<mapsto> RegularFile 384 True [])) else None)"

definition create_new_other :: "nat \<Rightarrow> string \<Rightarrow> files \<Rightarrow> files option" where
  "create_new_other m p fs = (if fs p = None then Some (fs(p \<mapsto> RegularFile m True [])) else None)"

text \<open>\<open>write_all\<close> on a file opened at \<open>p\<close>.\<close>

definition write_file :: "string \<Rightarrow> byte list \<Rightarrow> files \<Rightarrow> files" where
  "write_file p bs fs = (case fs p of Some (RegularFile m r b) \<Rightarrow> fs(p \<mapsto> RegularFile m r (b @ bs)) | _ \<Rightarrow> fs)"

text \<open>\<open>fs::rename\<close> replaces what stands at the target, a link included, but no directory.\<close>

definition rename_file :: "string \<Rightarrow> string \<Rightarrow> files \<Rightarrow> files option" where
  "rename_file p q fs = (case fs p of
     None \<Rightarrow> None
   | Some n \<Rightarrow> (case fs q of Some (Directory m) \<Rightarrow> None | _ \<Rightarrow> Some (fs(p := None, q := Some n))))"

definition remove_file :: "string \<Rightarrow> files \<Rightarrow> files option" where
  "remove_file p fs = (case fs p of
     None \<Rightarrow> None | Some (Directory m) \<Rightarrow> None | Some _ \<Rightarrow> Some (fs(p := None)))"

text \<open>\<open>fs::read\<close> follows links.\<close>

definition read_file :: "string \<Rightarrow> files \<Rightarrow> byte list option" where
  "read_file p fs = (case node_at fs p of Some (RegularFile m True b) \<Rightarrow> Some b | _ \<Rightarrow> None)"

text \<open>\<open>set_permissions\<close> on the node behind a path.\<close>

definition set_mode :: "nat \<Rightarrow> string \<Rightarrow> files \<Rightarrow> files" where
  "set_mode m p fs = (case follow 40 fs p of None \<Rightarrow> fs | Some q \<Rightarrow> (case fs q of
     Some (RegularFile m' r b) \<Rightarrow> fs(q \<mapsto> RegularFile m r b)
   | Some (Directory m') \<Rightarrow> fs(q \<mapsto> Directory m)
   | Some (SpecialFile m') \<Rightarrow> fs(q \<mapsto> SpecialFile m)
   | _ \<Rightarrow> fs))"

text \<open>The permission bits of a node.\<close>

fun node_mode :: "node \<Rightarrow> nat" where
  "node_mode (RegularFile m r b) = m"
| "node_mode (Directory m) = m"
| "node_mode (SpecialFile m) = m"
| "node_mode (SymbolicLink q) = 511"

section \<open>Facts\<close>

lemma open_append_on_file:
  "fs p = Some (RegularFile m r b) \<Longrightarrow> open_append p fs = Some fs \<and> open_append_other m' p fs = Some fs"
  by (simp add: open_append_def open_append_other_def follow.simps)

lemma node_at_plain: "fs p = Some n \<Longrightarrow> (\<And>q. n \<noteq> SymbolicLink q) \<Longrightarrow> node_at fs p = Some n"
  by (cases n) (auto simp: node_at_def follow.simps)

lemma node_at_none: "fs p = None \<Longrightarrow> node_at fs p = None"
  by (simp add: node_at_def follow.simps)

text \<open>Making a directory changes nothing but a path that had no node.\<close>

lemma make_dirs_at: "make_dirs m d fs = Some fs' \<Longrightarrow> fs' p = fs p \<or> (fs p = None \<and> p = d \<and> fs' p = Some (Directory m))"
  by (auto simp: make_dirs_def split: option.splits if_splits node.splits)

lemma node_at_not_link: "node_at fs p \<noteq> Some (SymbolicLink q)"
proof -
  have "follow n fs p = Some q' \<Longrightarrow> fs q' \<noteq> Some (SymbolicLink q)" for n q'
    by (induction n fs p rule: follow.induct)
      (subst (asm) follow.simps, auto split: option.splits node.splits nat.splits)
  then show ?thesis by (auto simp: node_at_def bind_eq_Some_conv)
qed

text \<open>Following links: more fuel finds the same node, and only links matter.\<close>

lemma follow_fuel: "follow n fs p = Some q \<Longrightarrow> n \<le> m \<Longrightarrow> follow m fs p = Some q"
proof (induction n fs p arbitrary: m rule: follow.induct)
  case (1 n fs p)
  show ?case
  proof (cases "\<exists>r. fs p = Some (SymbolicLink r)")
    case True
    then obtain r k where r: "fs p = Some (SymbolicLink r)" and n: "n = Suc k" and f: "follow k fs r = Some q"
      using "1.prems"(1) by (subst (asm) follow.simps) (auto split: nat.splits)
    from "1.prems"(2) n obtain m' where "m = Suc m'" "k \<le> m'" by (cases m) auto
    with "1.IH" [OF r refl n f] r show ?thesis by (simp add: follow.simps)
  next
    case False
    then have eq: "follow i fs p = Some p" for i by (cases "fs p") (auto simp: follow.simps [of i] split: node.splits)
    with "1.prems"(1) show ?thesis by simp
  qed
qed

lemma follow_links: "(\<And>p r. fs p = Some (SymbolicLink r) \<longleftrightarrow> fs' p = Some (SymbolicLink r)) \<Longrightarrow> follow n fs p = follow n fs' p"
proof (induction n arbitrary: p)
  case 0
  show ?case using 0 by (subst (1 2) follow.simps) (force split: option.splits node.splits)
next
  case (Suc n)
  show ?case using Suc.IH [OF Suc.prems] Suc.prems
    by (subst (1 2) follow.simps) (force split: option.splits node.splits)
qed

text \<open>A directory whose mode is set.\<close>

lemma node_at_set_mode:
  assumes "node_at fs p = Some (Directory m)"
  shows "node_at (set_mode k p fs) p = Some (Directory k)"
proof -
  from assms obtain q where q: "follow 40 fs p = Some q" "fs q = Some (Directory m)" by (auto simp: node_at_def bind_eq_Some_conv)
  then have eq: "set_mode k p fs = fs(q \<mapsto> Directory k)" by (simp add: set_mode_def)
  have "follow 40 (fs(q \<mapsto> Directory k)) p = follow 40 fs p" by (rule follow_links) (use q in auto)
  with q show ?thesis by (simp add: eq node_at_def)
qed

text \<open>A node found through links is still found after a change elsewhere.\<close>

lemma node_at_kept:
  assumes kept: "\<And>p n. p \<noteq> path \<Longrightarrow> fs p = Some n \<Longrightarrow> fs' p = Some n" and off: "node_at fs path = None"
    and found: "node_at fs p = Some nd"
  shows "node_at fs' p = Some nd"
proof -
  from found obtain q where q: "follow 40 fs p = Some q" "fs q = Some nd" by (auto simp: node_at_def bind_eq_Some_conv)
  have away: "r \<noteq> path" if "follow n fs r = Some q" "n \<le> 40" for n r
    using follow_fuel [OF that] q(2) off by (auto simp: node_at_def bind_eq_Some_conv)
  have "n \<le> 40 \<Longrightarrow> follow n fs r = Some q \<Longrightarrow> follow n fs' r = Some q" for n r
  proof (induction n arbitrary: r)
    case 0
    from away [OF 0(2)] 0 have "r \<noteq> path" by simp
    with kept 0(2) show ?case by (subst follow.simps, subst (asm) follow.simps) (auto split: option.splits node.splits simp: q(2))
  next
    case (Suc n)
    from away [OF Suc.prems(2,1)] have "r \<noteq> path" .
    then show ?case using Suc kept [of r] q(2)
      by (subst follow.simps, subst (asm) follow.simps) (auto split: option.splits node.splits)
  qed
  note target = this [OF order_refl q(1)]
  have "\<And>r. nd \<noteq> SymbolicLink r" using node_at_not_link found by metis
  then have "follow 0 fs q = Some q" using q(2) by (simp add: follow.simps split: node.splits)
  then have "q \<noteq> path" by (rule away) simp
  with kept q(2) target show ?thesis by (simp add: node_at_def)
qed

end
