(* ===== verification/TextFormat.thy ===== *)
theory TextFormat
  imports Bytes
begin

text \<open>
  Text as the command lines print and read it: quoting, decimal numerals, padding, and the
  one trailing line end that is dropped from piped or stored input.
\<close>

section \<open>Printing\<close>

definition quoted :: "string \<Rightarrow> string" where
  "quoted s = [CHR 0x27] @ s @ [CHR 0x27]"

definition EM_DASH :: string where
  "EM_DASH = [CHR 0xE2, CHR 0x80, CHR 0x94]"

text \<open>Decimal numerals, and \<open>{:<n}\<close>: padded to a width counted in characters.\<close>

definition digit :: "nat \<Rightarrow> char" where
  "digit n = char_of (48 + n mod 10)"

fun decimal :: "nat \<Rightarrow> string" where
  "decimal n = (if n < 10 then [digit n] else decimal (n div 10) @ [digit n])"

declare decimal.simps [simp del]

text \<open>\<open>{:04o}\<close> of a number below \<open>8 ^ 4\<close>, and reading it back.\<close>

definition octal4 :: "nat \<Rightarrow> string" where
  "octal4 n = map digit [n div 512 mod 8, n div 64 mod 8, n div 8 mod 8, n mod 8]"

definition octal_value :: "string \<Rightarrow> nat" where
  "octal_value s = foldl (\<lambda>a c. 8 * a + (of_char c - 48)) 0 s"

lemma digit_value: "n < 10 \<Longrightarrow> of_char (digit n) - (48 :: nat) = n"
  by (simp add: digit_def)

lemma octal_value_octal4: "n < 4096 \<Longrightarrow> octal_value (octal4 n) = n"
proof -
  assume n: "n < 4096"
  have "octal_value (octal4 n) = 512 * (n div 512 mod 8) + 64 * (n div 64 mod 8) + 8 * (n div 8 mod 8) + n mod 8"
    by (simp add: octal_value_def octal4_def digit_value)
  moreover have "n div 512 mod 8 = n div 512" using n by simp
  moreover have "n div 64 = n div 8 div 8" "n div 512 = n div 8 div 8 div 8" by (simp_all add: div_mult2_eq [symmetric])
  moreover have "8 * (m div 8) + m mod 8 = m" for m :: nat by simp
  from this [of n] this [of "n div 8"] this [of "n div 8 div 8"] have
    "512 * (n div 8 div 8 div 8) + 64 * (n div 8 div 8 mod 8) + 8 * (n div 8 mod 8) + n mod 8 = n" by linarith
  ultimately show ?thesis by simp
qed

definition char_count :: "string \<Rightarrow> nat" where
  "char_count s = length (filter (\<lambda>c. \<not> utf8_cont (char_byte c)) s)"

definition pad_right :: "nat \<Rightarrow> string \<Rightarrow> string" where
  "pad_right n s = s @ replicate (n - char_count s) (CHR '' '')"

section \<open>Trailing line ends\<close>

definition strip_single_trailing_newline :: "string \<Rightarrow> string" where
  "strip_single_trailing_newline s =
     (if s \<noteq> [] \<and> last s = CHR 0x0A then
        let s = butlast s in (if s \<noteq> [] \<and> last s = CHR 0x0D then butlast s else s)
      else s)"

lemma strip_newline_cases:
  "strip_single_trailing_newline (s @ [CHR 0x0D, CHR 0x0A]) = s"
  "s = [] \<or> last s \<noteq> CHR 0x0D \<Longrightarrow> strip_single_trailing_newline (s @ [CHR 0x0A]) = s"
  "s = [] \<or> last s \<noteq> CHR 0x0A \<Longrightarrow> strip_single_trailing_newline s = s"
  by (auto simp: strip_single_trailing_newline_def butlast_append)

lemma strip_newline_prefix: "\<exists>nl \<in> {[], [CHR 0x0A], [CHR 0x0D, CHR 0x0A]}. s = strip_single_trailing_newline s @ nl"
proof (cases "s \<noteq> [] \<and> last s = CHR 0x0A")
  case True
  then have s: "s = butlast s @ [CHR 0x0A]" by (metis append_butlast_last_id)
  show ?thesis
  proof (cases "butlast s \<noteq> [] \<and> last (butlast s) = CHR 0x0D")
    case True
    then have "butlast s = butlast (butlast s) @ [CHR 0x0D]" by (metis append_butlast_last_id)
    with s True have "s = butlast (butlast s) @ [CHR 0x0D, CHR 0x0A]" by (metis append.assoc append_Cons append_Nil)
    with True \<open>s \<noteq> [] \<and> last s = CHR 0x0A\<close> show ?thesis by (auto simp: strip_single_trailing_newline_def Let_def)
  next
    case False
    with s \<open>s \<noteq> [] \<and> last s = CHR 0x0A\<close> show ?thesis by (auto simp: strip_single_trailing_newline_def Let_def)
  qed
next
  case False
  then show ?thesis by (auto simp: strip_single_trailing_newline_def)
qed

end
