(* ===== verification/ServerConfig.thy ===== *)
theory ServerConfig
  imports CryptoState AuditLog Files TextFormat
begin

text \<open>
  Runtime configuration and passphrase acquisition of the server
  (\<open>crates/secrets-server/src/config.rs\<close>): the environment, the files and the terminal of the
  host a command runs on. Paths are byte strings; a path names a regular file, a symbolic
  link, a directory or a special file. Of the platform-dependent functions the programs run with the
  Unix variants; the others are compared with them. Parsing a socket address is the parameter \<open>socket\<close>.
\<close>

section \<open>The host\<close>

text \<open>
  \<open>h_inputs\<close> are the answers to the prompts to come (\<open>None\<close>: reading fails), \<open>h_locks\<close> the
  lock files some process holds, \<open>h_out\<close> the lines printed.
\<close>

record host = world +
  h_env :: "string \<rightharpoonup> byte list"
  h_files :: files
  h_terminal :: bool
  h_inputs :: "string option list"
  h_locks :: "string list"
  h_out :: "string list"

text \<open>\<open>std::env::var\<close> refuses values that are not UTF-8; \<open>var_os\<close> does not.\<close>

definition env_var :: "'m host_scheme \<Rightarrow> string \<Rightarrow> string option" where
  "env_var h name = Option.bind (h_env h name) from_utf8"

definition env_var_os :: "'m host_scheme \<Rightarrow> string \<Rightarrow> string option" where
  "env_var_os h name = map_option bytes_str (h_env h name)"

text \<open>\<open>rpassword::prompt_password\<close>.\<close>

definition prompt_password :: "('m host_scheme, anyhow_error, string) proc" where
  "prompt_password = (\<lambda>h. case h_inputs h of
     [] \<Rightarrow> (Fail (EMessage ''failed to read from terminal''), h)
   | None # rest \<Rightarrow> (Fail (EMessage ''failed to read from terminal''), h\<lparr>h_inputs := rest\<rparr>)
   | Some s # rest \<Rightarrow> (Val s, h\<lparr>h_inputs := rest\<rparr>))"

definition bail :: "string \<Rightarrow> ('s, anyhow_error, 'a) proc" where
  "bail m = throwP (EMessage m)"

definition println :: "string \<Rightarrow> ('m host_scheme, 'e, unit) proc" where
  "println s = (\<lambda>h. (Val (), h\<lparr>h_out := h_out h @ [s]\<rparr>))"

section \<open>Configuration\<close>

text \<open>A parsed socket address: its text and whether its IP is a loopback address.\<close>

record socket_addr =
  sa_text :: string
  sa_loopback :: bool

record config =
  db_path :: string
  audit_path :: string
  bind_addr :: socket_addr

definition from_env :: "(string \<Rightarrow> socket_addr option) \<Rightarrow> ('m host_scheme, anyhow_error, config) proc" where
  "from_env socket = bindP (getP (\<lambda>h.
       (case env_var_os h ''SECRETS_DB_PATH'' of Some p \<Rightarrow> p | None \<Rightarrow> ''secrets.db'',
        case env_var_os h ''SECRETS_AUDIT_PATH'' of Some p \<Rightarrow> p | None \<Rightarrow> ''audit.jsonl'',
        case env_var h ''SECRETS_BIND'' of Some b \<Rightarrow> b | None \<Rightarrow> ''127.0.0.1:8787''))) (\<lambda>(db, audit, bind_str).
     bindP (okOrP (EMessage ''SECRETS_BIND is not a valid socket address'') (socket bind_str)) (\<lambda>addr.
     retP \<lparr>db_path = db, audit_path = audit, bind_addr = addr\<rparr>))"

section \<open>The passphrase\<close>

datatype passphrase_file_mode = OwnerOnly | SystemdCredential

text \<open>The checks on the opened file (\<open>O_NOFOLLOW\<close>): not a link, readable, regular, and for the
  operator's own file no permission bit for group or others.\<close>

definition open_passphrase_file :: "string \<Rightarrow> passphrase_file_mode \<Rightarrow> ('m host_scheme, anyhow_error, byte list) proc" where
  "open_passphrase_file path mode = bindP (getP (\<lambda>h. h_files h path)) (\<lambda>f. case f of
       None \<Rightarrow> bail ''open failed''
     | Some (SymbolicLink t) \<Rightarrow> bail ''open failed''
     | Some (Directory m) \<Rightarrow> bail ''passphrase file must be a regular file''
     | Some (SpecialFile m) \<Rightarrow> bail ''passphrase file must be a regular file''
     | Some (RegularFile m readable bytes) \<Rightarrow>
         if \<not> readable then bail ''open failed''
         else if mode = OwnerOnly \<and> m mod 64 \<noteq> 0 then bail ''passphrase file permissions''
         else retP bytes)"

text \<open>Off Unix: links are followed and no permission is looked at.\<close>

definition open_passphrase_file_other :: "string \<Rightarrow> passphrase_file_mode \<Rightarrow> ('m host_scheme, anyhow_error, byte list) proc" where
  "open_passphrase_file_other path mode = bindP (getP (\<lambda>h. node_at (h_files h) path)) (\<lambda>f. case f of
       Some (RegularFile m True bytes) \<Rightarrow> retP bytes
     | _ \<Rightarrow> bail ''open failed'')"

definition read_passphrase_file :: "string \<Rightarrow> passphrase_file_mode \<Rightarrow> ('m host_scheme, anyhow_error, string) proc" where
  "read_passphrase_file path mode =
     bindP (open_passphrase_file path mode) (\<lambda>bytes.
     bindP (okOrP (EMessage ''failed to read passphrase file'') (from_utf8 bytes)) (\<lambda>text.
     let passphrase = strip_single_trailing_newline text in
     if passphrase = [] then bail ''passphrase file is empty'' else retP passphrase))"

definition SYSTEMD_PASSPHRASE_CREDENTIAL :: string where
  "SYSTEMD_PASSPHRASE_CREDENTIAL = ''secrets-passphrase''"

definition systemd_credential_path :: "'m host_scheme \<Rightarrow> string \<Rightarrow> string option" where
  "systemd_credential_path h name = (case env_var_os h ''CREDENTIALS_DIRECTORY'' of
     None \<Rightarrow> None
   | Some dir \<Rightarrow> let path = path_join dir name in if path_exists (h_files h) path then Some path else None)"

definition acquire_passphrase :: "('m host_scheme, anyhow_error, string) proc" where
  "acquire_passphrase = (\<lambda>h. (case env_var h ''SECRETS_PASSPHRASE'' of
     Some p \<Rightarrow> if p = [] then bail ''SECRETS_PASSPHRASE is set but empty'' else retP p
   | None \<Rightarrow> (case env_var_os h ''SECRETS_PASSPHRASE_FILE'' of
     Some path \<Rightarrow> if path = [] then bail ''SECRETS_PASSPHRASE_FILE is set but empty''
                  else read_passphrase_file path OwnerOnly
   | None \<Rightarrow> (case systemd_credential_path h SYSTEMD_PASSPHRASE_CREDENTIAL of
     Some path \<Rightarrow> read_passphrase_file path SystemdCredential
   | None \<Rightarrow> if h_terminal h
       then bindP prompt_password (\<lambda>entered.
              if entered = [] then bail ''passphrase must not be empty'' else retP entered)
       else bail ''no passphrase available''))) h)"

section \<open>Facts\<close>

text \<open>What the Unix variant opens, the other one opens with the same content.\<close>

lemma open_passphrase_file_stricter:
  "open_passphrase_file path mode h = (Val bytes, h') \<Longrightarrow> open_passphrase_file_other path mode h = (Val bytes, h')"
  by (auto simp: open_passphrase_file_def open_passphrase_file_other_def bail_def bindP_Val_iff node_at_plain
      split: option.splits node.splits if_splits)

lemma read_passphrase_file_Val:
  "read_passphrase_file path mode h = (Val p, h') \<longleftrightarrow>
    (\<exists>m bytes text. h_files h path = Some (RegularFile m True bytes) \<and> (mode = OwnerOnly \<longrightarrow> m mod 64 = 0) \<and>
      from_utf8 bytes = Some text \<and> p = strip_single_trailing_newline text \<and> p \<noteq> [] \<and> h' = h)"
  by (auto simp: read_passphrase_file_def open_passphrase_file_def bindP_Val_iff bail_def Let_def
      split: option.splits node.splits if_splits)

lemma keeps_read_passphrase_file: "keeps f (read_passphrase_file path mode)"
proof -
  have "keeps f (open_passphrase_file path mode)"
    unfolding open_passphrase_file_def bail_def
    by (intro frame) (auto intro!: frame split: option.splits node.splits)
  then show ?thesis unfolding read_passphrase_file_def bail_def Let_def by (intro frame)
qed

end
