(* ===== verification/Lock.thy ===== *)
theory Lock
  imports ServerConfig
begin

text \<open>
  The cross-process lock (\<open>crates/secrets-server/src/lock.rs\<close>): a lock file beside the
  database, held by one process at a time until it is dropped or its process dies. The
  locale \<open>mutex\<close> is the contract the commands rely on.
\<close>

section \<open>Lock paths\<close>

definition lock_path :: "string \<Rightarrow> string" where
  "lock_path p = with_file_name p ((case file_name p of Some n \<Rightarrow> n | None \<Rightarrow> ''secrets.db'') @ ''.lock'')"

section \<open>The lock\<close>

text \<open>Opening the lock file may fail; \<open>BEGIN EXCLUSIVE\<close> fails at once while another process
  holds it (the busy timeout is zero).\<close>

definition acquire_lock :: "string \<Rightarrow> string \<Rightarrow> ('m host_scheme, anyhow_error, string) proc" where
  "acquire_lock p holder_hint =
     bindP (mapErrP EDatabase (query (\<lambda>_. ()))) (\<lambda>_.
     (\<lambda>h. if lock_path p \<in> set (h_locks h) then (Fail (EMessage holder_hint), h)
           else (Val (lock_path p), h\<lparr>h_locks := lock_path p # h_locks h\<rparr>)))"

text \<open>Dropping the \<open>DbLock\<close>.\<close>

definition release_lock :: "string \<Rightarrow> 'm host_scheme \<Rightarrow> 'm host_scheme" where
  "release_lock l h = h\<lparr>h_locks := remove1 l (h_locks h)\<rparr>"

text \<open>A body that runs under the guard: the lock is released however it ends.\<close>

definition with_lock :: "string \<Rightarrow> string \<Rightarrow> ('m host_scheme, anyhow_error, 'a) proc \<Rightarrow> ('m host_scheme, anyhow_error, 'a) proc" where
  "with_lock p hint body = bindP (acquire_lock p hint) (\<lambda>l h. let (r, h') = body h in (r, release_lock l h'))"

text \<open>
  The contract of a lock: taking it succeeds only when it is free and leaves it held, a held
  lock refuses everybody, and releasing what one took restores the state.
\<close>

locale mutex =
  fixes take_it :: "'s \<Rightarrow> 's option" and release :: "'s \<Rightarrow> 's" and held :: "'s \<Rightarrow> bool"
  assumes take_free: "take_it s = Some s' \<Longrightarrow> \<not> held s \<and> held s'"
    and take_held: "held s \<Longrightarrow> take_it s = None"
    and release_take: "take_it s = Some s' \<Longrightarrow> release s' = s"
begin

lemma no_second_holder: "take_it s = Some s' \<Longrightarrow> take_it s' = None"
  using take_free take_held by blast

lemma retake: "take_it s = Some s' \<Longrightarrow> take_it (release s') = Some s'"
  by (simp add: release_take)

end

definition try_lock :: "string \<Rightarrow> string list \<Rightarrow> string list option" where
  "try_lock l held = (if l \<in> set held then None else Some (l # held))"

interpretation db_lock: mutex "try_lock l" "remove1 l" "\<lambda>held. l \<in> set held" for l
  by unfold_locales (auto simp: try_lock_def split: if_splits)

section \<open>Facts\<close>

lemma acquire_lock_eq:
  "wio h = [] \<Longrightarrow> acquire_lock p hint h = (case try_lock (lock_path p) (h_locks h) of
     None \<Rightarrow> (Fail (EMessage hint), h) | Some ls \<Rightarrow> (Val (lock_path p), h\<lparr>h_locks := ls\<rparr>))"
  by (simp add: acquire_lock_def bindP_def mapErrP_def try_lock_def)

lemma acquire_lock_Val:
  "acquire_lock p hint h = (Val l, h') \<Longrightarrow> l = lock_path p \<and> l \<notin> set (h_locks h) \<and> h_locks h' = l # h_locks h \<and> wdb h' = wdb h"
  by (auto simp: acquire_lock_def bindP_Val_iff elim!: query_ValE split: if_splits)

lemma with_lock_held:
  assumes "lock_path p \<in> set (h_locks h)"
  shows "\<exists>e h'. with_lock p hint body h = (Fail e, h') \<and> wdb h' = wdb h \<and> h_locks h' = h_locks h"
  using assms
  by (auto simp: with_lock_def acquire_lock_def bindP_def mapErrP_def query_def sql_def Let_def)

lemma with_lock_releases:
  assumes "keeps h_locks body" and "with_lock p hint body h = (r, h')"
  shows "h_locks h' = h_locks h"
proof (cases "acquire_lock p hint h")
  case (Pair r1 h1)
  show ?thesis
  proof (cases r1)
    case (Val l)
    obtain r2 h2 where b: "body h1 = (r2, h2)" by (cases "body h1")
    from keepsD' [OF assms(1) b] Pair Val b assms(2) acquire_lock_Val [of p hint h l h1] show ?thesis
      by (auto simp: with_lock_def bindP_def release_lock_def)
  next
    case (Fail e)
    with Pair assms(2) have "h' = h1" by (simp add: with_lock_def bindP_def)
    with Pair Fail show ?thesis
      by (auto simp: acquire_lock_def bindP_def mapErrP_def query_def sql_def Let_def split: if_splits prod.splits)
  next
    case Panic
    with Pair show ?thesis
      by (auto simp: acquire_lock_def bindP_def mapErrP_def query_def sql_def Let_def split: if_splits prod.splits)
  qed
qed

end
