(* ===== verification/AuditFile.thy ===== *)
theory AuditFile
  imports ServerConfig
begin

text \<open>
  Opening the audit log (\<open>AuditLog::open\<close> and \<open>ensure_private\<close> of
  \<open>crates/secrets-server/src/audit.rs\<close>): its directory is made, the file is created or
  appended to without following a link, and its mode is reduced to 0600 when group or others
  could touch it. The variants off Unix stand beside them.
\<close>

text \<open>A system call on the host's files; like a statement, it may fail for other reasons.\<close>

definition fs_call :: "string \<Rightarrow> (files \<Rightarrow> files option) \<Rightarrow> ('m host_scheme, anyhow_error, unit) proc" where
  "fs_call context f = bindP (mapErrP (\<lambda>_. EMessage context) (query (\<lambda>_. ()))) (\<lambda>_.
     (\<lambda>h. case f (h_files h) of
        None \<Rightarrow> (Fail (EMessage context), h)
      | Some fs \<Rightarrow> (Val (), h\<lparr>h_files := fs\<rparr>)))"

definition group_or_others :: "nat \<Rightarrow> bool" where
  "group_or_others mode \<longleftrightarrow> mode mod 64 \<noteq> 0"

definition ensure_private :: "string \<Rightarrow> ('m host_scheme, anyhow_error, unit) proc" where
  "ensure_private path = bindP (getP (\<lambda>h. h_files h path)) (\<lambda>f. case f of
     Some (RegularFile m r b) \<Rightarrow>
       if group_or_others m then fs_call ''failed to chmod audit log'' (\<lambda>fs. Some (fs(path \<mapsto> RegularFile 384 r b)))
       else retP ()
   | _ \<Rightarrow> bail ''audit log is not a regular file'')"

definition audit_open :: "string \<Rightarrow> ('m host_scheme, anyhow_error, unit) proc" where
  "audit_open path =
     bindP (case path_parent path of
         None \<Rightarrow> retP ()
       | Some parent \<Rightarrow> fs_call ''failed to create audit log directory'' (make_dirs 511 parent)) (\<lambda>_.
     bindP (fs_call ''failed to open audit log'' (open_append path)) (\<lambda>_.
     ensure_private path))"

text \<open>Off Unix: links are followed, new files get the mode \<open>m\<close>, and only the kind of the opened
  file is checked.\<close>

definition ensure_private_other :: "string \<Rightarrow> ('m host_scheme, anyhow_error, unit) proc" where
  "ensure_private_other path = bindP (getP (\<lambda>h. node_at (h_files h) path)) (\<lambda>f. case f of
     Some (RegularFile m r b) \<Rightarrow> retP ()
   | _ \<Rightarrow> bail ''audit log is not a regular file'')"

definition audit_open_other :: "nat \<Rightarrow> string \<Rightarrow> ('m host_scheme, anyhow_error, unit) proc" where
  "audit_open_other m path =
     bindP (case path_parent path of
         None \<Rightarrow> retP ()
       | Some parent \<Rightarrow> fs_call ''failed to create audit log directory'' (make_dirs 511 parent)) (\<lambda>_.
     bindP (fs_call ''failed to open audit log'' (open_append_other m path)) (\<lambda>_.
     ensure_private_other path))"

section \<open>Facts\<close>

text \<open>On a log that is a private regular file already, both variants do the same.\<close>

lemma fs_call_eq: "fs_call c g h =
   (if wio h \<noteq> [] \<and> hd (wio h) then (Fail (EMessage c), h\<lparr>wio := tl (wio h)\<rparr>)
    else case g (h_files h) of None \<Rightarrow> (Fail (EMessage c), h\<lparr>wio := tl (wio h)\<rparr>)
      | Some fs \<Rightarrow> (Val (), h\<lparr>wio := tl (wio h), h_files := fs\<rparr>))"
  by (simp add: fs_call_def bindP_def mapErrP_def query_def sql_def Let_def split: option.splits)

lemma audit_open_variants:
  fixes h :: "'m host_scheme"
  assumes "h_files h path = Some (RegularFile m r b)" and "\<not> group_or_others m"
  shows "audit_open path h = audit_open_other m' path h"
proof -
  let ?dirs = "case path_parent path of None \<Rightarrow> retP ()
       | Some parent \<Rightarrow> fs_call ''failed to create audit log directory'' (make_dirs 511 parent)"
  let ?rest = "\<lambda>_ :: unit. bindP (fs_call ''failed to open audit log'' (open_append path)) (\<lambda>_. ensure_private path)"
  let ?rest' = "\<lambda>_ :: unit. bindP (fs_call ''failed to open audit log'' (open_append_other m' path)) (\<lambda>_. ensure_private_other path)"
  have same: "?rest u g = ?rest' u g" if g: "h_files g path = Some (RegularFile m r b)" for u and g :: "'m host_scheme"
    using g assms(2) open_append_on_file [of "h_files g" path m r b m', OF g]
    by (simp add: bindP_def fs_call_eq ensure_private_def ensure_private_other_def node_at_plain)
  have "h_files g path = Some (RegularFile m r b)" if "?dirs h = (Val u, g)" for u g
    using that assms(1) make_dirs_at [of 511 _ "h_files h" _ path]
    by (fastforce simp: fs_call_eq split: option.splits if_splits)
  then show ?thesis unfolding audit_open_def audit_open_other_def
    by (cases "?dirs h"; cases "fst (?dirs h)") (simp_all add: bindP_def same [unfolded bindP_def])
qed

lemma keeps_fs_call:
  "(\<And>h fs. f (h\<lparr>h_files := fs\<rparr>) = f h) \<Longrightarrow> (\<And>h i. f (h\<lparr>wio := i\<rparr>) = f h) \<Longrightarrow> keeps f (fs_call c g)"
proof -
  assume f: "\<And>h fs. f (h\<lparr>h_files := fs\<rparr>) = f h" and w: "\<And>h i. f (h\<lparr>wio := i\<rparr>) = f h"
  have "keeps f (\<lambda>h. case g (h_files h) of None \<Rightarrow> (Fail (EMessage c), h) | Some fs \<Rightarrow> (Val (), h\<lparr>h_files := fs\<rparr>))"
    by (auto simp: keeps_def f split: option.splits)
  then show ?thesis unfolding fs_call_def by (intro frame keeps_query w)
qed

lemma keeps_audit_open:
  assumes "\<And>h fs. f (h\<lparr>h_files := fs\<rparr>) = f h" and "\<And>h i. f (h\<lparr>wio := i\<rparr>) = f h"
  shows "keeps f (audit_open path)"
proof -
  note fc = keeps_fs_call [of f, OF assms]
  have "keeps f (ensure_private path)"
    unfolding ensure_private_def bail_def by (intro frame) (auto intro!: frame fc split: option.splits node.splits)
  then show ?thesis unfolding audit_open_def by (intro frame fc)
qed

lemma fs_call_ValE:
  assumes "fs_call c f h = (Val u, h')"
  obtains fs where "f (h_files h) = Some fs" and "h_files h' = fs"
  using assms by (auto simp: fs_call_def bindP_Val_iff elim!: query_ValE split: option.splits)

lemma ensure_private_ValD:
  assumes "ensure_private path h = (Val u, h')"
  shows "\<exists>m r b. h_files h path = Some (RegularFile m r b) \<and>
    h_files h' path = Some (RegularFile (if group_or_others m then 384 else m) r b)"
proof (cases "h_files h path")
  case (Some f)
  have upd: "h_files h' path = Some n" if "(h_files h)(path \<mapsto> n) = h_files h'" for n
    using that [symmetric] by simp
  from Some assms show ?thesis
    by (cases f) (auto simp: ensure_private_def bindP_Val_iff bail_def dest: upd elim!: fs_call_ValE split: if_splits)
qed (use assms in \<open>simp add: ensure_private_def bindP_Val_iff bail_def\<close>)

lemma open_append_at:
  "open_append p fs = Some fs' \<Longrightarrow> fs' p = Some (RegularFile m r b) \<Longrightarrow>
    fs p = None \<and> b = [] \<or> fs p = Some (RegularFile m r b)"
  by (auto simp: open_append_def split: option.splits node.splits)

text \<open>The open log is a private regular file, no link was followed, and nothing was truncated.\<close>

lemma audit_open_ValD:
  assumes "audit_open path h = (Val u, h')"
  shows "\<exists>m r b. h_files h' path = Some (RegularFile m r b) \<and> \<not> group_or_others m \<and>
    (h_files h path = None \<and> b = [] \<or> (\<exists>m0. h_files h path = Some (RegularFile m0 r b)))"
proof -
  from assms obtain u1 h1 u2 h2 where dir: "(case path_parent path of None \<Rightarrow> retP ()
       | Some parent \<Rightarrow> fs_call ''failed to create audit log directory'' (make_dirs 511 parent)) h = (Val u1, h1)"
    and op: "fs_call ''failed to open audit log'' (open_append path) h1 = (Val u2, h2)"
    and priv: "ensure_private path h2 = (Val u, h')"
    by (auto simp: audit_open_def bindP_Val_iff)
  from op obtain fs where fs: "open_append path (h_files h1) = Some fs" "h_files h2 = fs" by (rule fs_call_ValE)
  have old: "h_files h1 path = h_files h path \<or> (\<exists>m. h_files h1 path = Some (Directory m))"
    using dir make_dirs_at [of 511 _ "h_files h" "h_files h1" path] by (fastforce elim!: fs_call_ValE split: option.splits)
  from ensure_private_ValD [OF priv] obtain m r b where f: "h_files h2 path = Some (RegularFile m r b)"
    "h_files h' path = Some (RegularFile (if group_or_others m then 384 else m) r b)" by blast
  have "h_files h1 path = None \<and> b = [] \<or> h_files h1 path = Some (RegularFile m r b)"
    using open_append_at [OF fs(1)] fs(2) f(1) by simp
  with old have "h_files h path = None \<and> b = [] \<or> h_files h path = Some (RegularFile m r b)" by (elim disjE exE) simp_all
  with f(2) show ?thesis by (auto simp: group_or_others_def)
qed

text \<open>Where the log can be opened: its directory exists or can be made, and nothing but a
  regular file stands at its path.\<close>

definition log_ok :: "files \<Rightarrow> string \<Rightarrow> bool" where
  "log_ok fs p \<longleftrightarrow> path_parent p \<noteq> Some p \<and>
     (case path_parent p of None \<Rightarrow> True | Some d \<Rightarrow> make_dirs 511 d fs \<noteq> None) \<and>
     (case fs p of None \<Rightarrow> True | Some (RegularFile m r b) \<Rightarrow> True | Some _ \<Rightarrow> False)"

lemma fs_call_ok: "wio h = [] \<Longrightarrow> g (h_files h) = Some fs \<Longrightarrow> fs_call c g h = (Val (), h\<lparr>h_files := fs\<rparr>)"
  by (simp add: fs_call_def bindP_def mapErrP_def)

lemma ensure_private_ok:
  "wio h = [] \<Longrightarrow> h_files h p = Some (RegularFile m r b) \<Longrightarrow> \<exists>h'. ensure_private p h = (Val (), h')"
  by (simp add: ensure_private_def bindP_def fs_call_ok)

lemma audit_open_ok:
  assumes q: "wio h = []" and ok: "log_ok (h_files h) p"
  shows "\<exists>h'. audit_open p h = (Val (), h')"
proof -
  have "\<exists>fs. (case path_parent p of None \<Rightarrow> retP () | Some parent \<Rightarrow> fs_call ''failed to create audit log directory'' (make_dirs 511 parent)) h =
      (Val (), h\<lparr>h_files := fs\<rparr>) \<and> fs p = h_files h p"
  proof (cases "path_parent p")
    case None
    then show ?thesis by (intro exI [of _ "h_files h"]) simp
  next
    case (Some d)
    with ok obtain fs where "make_dirs 511 d (h_files h) = Some fs" and "d \<noteq> p" by (auto simp: log_ok_def)
    with Some q show ?thesis by (intro exI [of _ fs]) (auto simp: fs_call_ok dest: make_dirs_at [of _ _ _ _ p])
  qed
  then obtain fs where dir: "(case path_parent p of None \<Rightarrow> retP () | Some parent \<Rightarrow> fs_call ''failed to create audit log directory'' (make_dirs 511 parent)) h =
      (Val (), h\<lparr>h_files := fs\<rparr>)" and fs: "fs p = h_files h p" by blast
  from ok fs obtain fs' m r b where "open_append p fs = Some fs'" and f: "fs' p = Some (RegularFile m r b)"
    by (auto simp: log_ok_def open_append_def split: option.splits node.splits)
  then have "fs_call ''failed to open audit log'' (open_append p) (h\<lparr>h_files := fs\<rparr>) = (Val (), h\<lparr>h_files := fs'\<rparr>)"
    using q by (simp add: fs_call_ok)
  with dir ensure_private_ok [of "h\<lparr>h_files := fs'\<rparr>" p m r b] f q show ?thesis
    by (simp add: audit_open_def bindP_def)
qed

end
