(* ===== verification/ServerCommands.thy ===== *)
theory ServerCommands
  imports Lock Rekey AuditFile
begin

text \<open>
  The commands of the server binary (\<open>crates/secrets-server/src/commands.rs\<close>): \<open>serve\<close> up to
  the point where requests are accepted, the token commands, and \<open>rekey\<close> with the
  acquisition of the new passphrase. \<open>wdb\<close> is the database at the configured path; what is
  printed is \<open>h_out\<close>. Parsing of the command line by clap is not modelled: \<open>command\<close> is its
  result.
\<close>

section \<open>Command line\<close>

datatype token_cmd =
    TokenCreate string "string option" u32 bool
  | TokenRevoke string
  | TokenList

datatype command = Serve | Token token_cmd | Rekey

definition valid_name :: "string \<Rightarrow> bool" where
  "valid_name name \<longleftrightarrow> name \<noteq> [] \<and> length name \<le> 64 \<and>
     list_all (\<lambda>b. is_ascii_alnum b \<or> b = CHR ''-'' \<or> b = CHR ''_'') name"

interpretation cli_name: name_rule valid_name 64 "{CHR ''-'', CHR ''_''}"
  by unfold_locales (auto simp: valid_name_def list_all_iff)

section \<open>Opening the database\<close>

text \<open>\<open>db::open\<close>: connecting may fail, then the pragmas and the migration.\<close>

definition open_at :: "config \<Rightarrow> ('m world_scheme, anyhow_error, unit) proc" where
  "open_at cfg = bindP (mapErrP EDatabase (query (\<lambda>_. ()))) (\<lambda>_. mapErrP EDatabase open_db)"

section \<open>Serving\<close>

text \<open>
  The guard of the lock lives until the server stops: an error on the way drops it, a
  successful start keeps it. \<open>can_bind\<close> tells whether the runtime starts and the socket can
  be bound. The result is the key the requests are served with.
\<close>

definition keep_lock :: "string \<Rightarrow> string \<Rightarrow> ('m host_scheme, anyhow_error, 'a) proc \<Rightarrow> ('m host_scheme, anyhow_error, 'a) proc" where
  "keep_lock p hint body = bindP (acquire_lock p hint) (\<lambda>l h. case body h of
     (Val x, h') \<Rightarrow> (Val x, h')
   | (Fail e, h') \<Rightarrow> (Fail e, release_lock l h')
   | (Panic, h') \<Rightarrow> (Panic, release_lock l h'))"

definition serve :: "lib \<Rightarrow> (string \<Rightarrow> socket_addr option) \<Rightarrow> (socket_addr \<Rightarrow> bool) \<Rightarrow> ('m host_scheme, anyhow_error, master_key) proc" where
  "serve L socket can_bind =
     bindP (from_env socket) (\<lambda>cfg.
     keep_lock (db_path cfg) ''another secrets-server appears to be running on this database'' (
       bindP acquire_passphrase (\<lambda>passphrase.
       bindP (open_at cfg) (\<lambda>_.
       bindP (init_or_verify L passphrase) (\<lambda>key.
       bindP (audit_open (audit_path cfg)) (\<lambda>_.
       if \<not> can_bind (bind_addr cfg) then bail ''failed to bind'' else retP key))))))"

section \<open>Tokens\<close>

definition token_create ::
    "lib \<Rightarrow> (string \<Rightarrow> socket_addr option) \<Rightarrow> string \<Rightarrow> string option \<Rightarrow> u32 option \<Rightarrow> ('m host_scheme, anyhow_error, unit) proc" where
  "token_create L socket name project ttl_days =
     (if \<not> valid_name name then bail ''invalid token name'' else
      if (case project of Some p \<Rightarrow> \<not> valid_name p | None \<Rightarrow> False) then bail ''invalid project scope name'' else
      if ttl_days = Some 0 then bail ''--ttl-days must be at least 1'' else
      bindP (case ttl_days of
          None \<Rightarrow> retP None
        | Some days \<Rightarrow> bindP now_utc (\<lambda>now. case date_add_days L now (unat days) of
            None \<Rightarrow> panicP
          | Some t \<Rightarrow> bindP (okOrP (EMessage ''failed to format expiry timestamp'') (rfc3339_format L t)) (\<lambda>s. retP (Some s)))) (\<lambda>expires_at.
      bindP (from_env socket) (\<lambda>cfg.
      bindP (open_at cfg) (\<lambda>_.
      bindP (generate_token L) (\<lambda>token.
      bindP (mapErrP EDatabase (insert_token L name (hash_token L token) project expires_at)) (\<lambda>_.
      bindP (println (''Token created (name: '' @ name @ '').'')) (\<lambda>_.
      bindP (println (case project of Some p \<Rightarrow> ''Scope: project '' @ quoted p | None \<Rightarrow> ''Scope: all projects'')) (\<lambda>_.
      bindP (println (case expires_at of Some e \<Rightarrow> ''Expires: '' @ e
                        | None \<Rightarrow> ''Expires: never (revoke manually when no longer needed)'')) (\<lambda>_.
      bindP (println (''Store it now '' @ EM_DASH @ '' it is shown only once:'')) (\<lambda>_.
      println token))))))))))"

definition token_revoke :: "(string \<Rightarrow> socket_addr option) \<Rightarrow> string \<Rightarrow> ('m host_scheme, anyhow_error, unit) proc" where
  "token_revoke socket name =
     bindP (from_env socket) (\<lambda>cfg.
     bindP (open_at cfg) (\<lambda>_.
     bindP (mapErrP EDatabase (revoke_token_rows name)) (\<lambda>n.
     println (''Revoked '' @ decimal n @ '' token(s) named '' @ quoted name @ ''.''))))"

definition token_line :: "token_info \<Rightarrow> string" where
  "token_line t = pad_right 20 (ti_name t) @ '' '' @
     pad_right 16 (case ti_scope t of Some s \<Rightarrow> s | None \<Rightarrow> ''(all)'') @ '' '' @
     pad_right 26 (ti_created_at t) @ '' '' @
     pad_right 26 (case ti_expires_at t of Some e \<Rightarrow> e | None \<Rightarrow> ''(never)'') @ '' '' @
     (if ti_revoked t then ''yes'' else ''no'')"

fun println_all :: "string list \<Rightarrow> ('m host_scheme, 'e, unit) proc" where
  "println_all [] = retP ()"
| "println_all (l # ls) = bindP (println l) (\<lambda>_. println_all ls)"

definition token_list :: "(string \<Rightarrow> socket_addr option) \<Rightarrow> ('m host_scheme, anyhow_error, unit) proc" where
  "token_list socket =
     bindP (from_env socket) (\<lambda>cfg.
     bindP (open_at cfg) (\<lambda>_.
     bindP (mapErrP EDatabase list_tokens_rows) (\<lambda>tokens.
     if tokens = [] then println ''(no tokens)'' else
     bindP (println (pad_right 20 ''NAME'' @ '' '' @ pad_right 16 ''SCOPE'' @ '' '' @
                     pad_right 26 ''CREATED'' @ '' '' @ pad_right 26 ''EXPIRES'' @ '' REVOKED'')) (\<lambda>_.
     println_all (map token_line tokens)))))"

section \<open>Rekeying\<close>

definition acquire_new_passphrase :: "string \<Rightarrow> ('m host_scheme, anyhow_error, string) proc" where
  "acquire_new_passphrase current = (\<lambda>h. (case env_var h ''SECRETS_NEW_PASSPHRASE'' of
     Some p \<Rightarrow>
       if p = [] then bail ''SECRETS_NEW_PASSPHRASE is set but empty''
       else if p = current then bail ''new passphrase must differ from the current passphrase''
       else retP p
   | None \<Rightarrow>
       if h_terminal h then
         bindP prompt_password (\<lambda>first.
         if first = [] then bail ''new passphrase must not be empty'' else
         bindP prompt_password (\<lambda>second.
         if first \<noteq> second then bail ''new passphrase confirmation did not match'' else
         if first = current then bail ''new passphrase must differ from the current passphrase'' else
         retP first))
       else bail ''no new passphrase available'') h)"

definition rekey_command :: "lib \<Rightarrow> (string \<Rightarrow> socket_addr option) \<Rightarrow> ('m host_scheme, anyhow_error, unit) proc" where
  "rekey_command L socket =
     bindP (from_env socket) (\<lambda>cfg.
     with_lock (db_path cfg) ''stop the running secrets-server before rekeying'' (
       bindP acquire_passphrase (\<lambda>current.
       bindP (acquire_new_passphrase current) (\<lambda>new_passphrase.
       bindP (open_at cfg) (\<lambda>_.
       bindP (rekey L current new_passphrase) (\<lambda>count.
       println (''Re-encrypted '' @ decimal count @ '' secret(s) with a new master passphrase.'')))))))"

text \<open>\<open>run\<close>: what each command does; \<open>serve\<close> returns the key it serves with.\<close>

definition run_command ::
    "lib \<Rightarrow> (string \<Rightarrow> socket_addr option) \<Rightarrow> (socket_addr \<Rightarrow> bool) \<Rightarrow> command \<Rightarrow> ('m host_scheme, anyhow_error, master_key option) proc" where
  "run_command L socket can_bind c = (case c of
     Serve \<Rightarrow> bindP (serve L socket can_bind) (\<lambda>k. retP (Some k))
   | Token (TokenCreate name project ttl_days no_expiry) \<Rightarrow>
       bindP (token_create L socket name project (if \<not> no_expiry then Some ttl_days else None)) (\<lambda>_. retP None)
   | Token (TokenRevoke name) \<Rightarrow> bindP (token_revoke socket name) (\<lambda>_. retP None)
   | Token TokenList \<Rightarrow> bindP (token_list socket) (\<lambda>_. retP None)
   | Rekey \<Rightarrow> bindP (rekey_command L socket) (\<lambda>_. retP None))"

text \<open>\<open>main\<close> of the binary: the exit status, and none when a panic ends the process.\<close>

definition main_server :: "(anyhow_error, 'a) outcome \<Rightarrow> nat option" where
  "main_server r = (case r of Val x \<Rightarrow> Some 0 | Fail e \<Rightarrow> Some 1 | Panic \<Rightarrow> None)"

end
