(* ===== verification/CommandEffects.thy ===== *)
theory CommandEffects
  imports Lockstep ServerCommands App
begin

text \<open>
  What the commands of the server binary do to the stored rows: migrations change the schema
  only, a first start writes the crypto metadata only, token commands write the token table
  only, and a rekey either returns or leaves every row as it was.
\<close>

abbreviation rows :: "'m world_scheme \<Rightarrow> (string \<times> byte list) list \<times> project_row list \<times> secret_row list \<times> token_row list" where
  "rows w \<equiv> db_rows (wdb w)"

section \<open>Frames\<close>

lemma keeps_open_at: "keeps rows (open_at cfg)"
proof -
  have "keeps rows migrate"
    unfolding keeps_iff_preserves by (simp add: migrate_keeps_rows)
  then show ?thesis unfolding open_at_def open_db_def
    by (intro frame keeps_query) simp_all
qed

lemma keeps_acquire_passphrase: "(\<And>h i. f (h\<lparr>h_inputs := i\<rparr>) = f h) \<Longrightarrow> keeps f acquire_passphrase"
proof -
  assume f: "\<And>h i. f (h\<lparr>h_inputs := i\<rparr>) = f h"
  have p: "keeps f prompt_password"
    using f by (auto simp: keeps_def prompt_password_def split: list.splits option.splits)
  have "f (snd (acquire_passphrase h)) = f h" for h
    unfolding acquire_passphrase_def bail_def
    by (rule keepsD) (auto intro!: frame keeps_read_passphrase_file p)
  then show ?thesis by (simp add: keeps_def)
qed

lemma keeps_acquire_new_passphrase: "(\<And>h i. f (h\<lparr>h_inputs := i\<rparr>) = f h) \<Longrightarrow> keeps f (acquire_new_passphrase c)"
proof -
  assume f: "\<And>h i. f (h\<lparr>h_inputs := i\<rparr>) = f h"
  have p: "keeps f prompt_password"
    using f by (auto simp: keeps_def prompt_password_def split: list.splits option.splits)
  have "f (snd (acquire_new_passphrase c h)) = f h" for h
    unfolding acquire_new_passphrase_def bail_def
    by (rule keepsD) (intro frame p)
  then show ?thesis by (simp add: keeps_def)
qed

lemma keeps_from_env: "keeps f (from_env socket)"
  unfolding from_env_def by (intro frame)

lemma from_env_state: "from_env socket h = (r, h') \<Longrightarrow> h' = h"
  using keepsD' [OF keeps_from_env [of "\<lambda>h. h"]] by blast

lemma keeps_println: "(\<And>h l. f (h\<lparr>h_out := l\<rparr>) = f h) \<Longrightarrow> keeps f (println s)"
  by (simp add: keeps_def println_def)

lemma wdb_host_upd [simp]:
  "wdb (h\<lparr>h_inputs := i\<rparr>) = wdb h" "wdb (h\<lparr>h_files := fs\<rparr>) = wdb h" "wdb (h\<lparr>h_out := l\<rparr>) = wdb h" "wdb (h\<lparr>h_locks := k\<rparr>) = wdb h"
  by (cases h, simp)+

lemma wdb_release [simp]: "wdb (release_lock l h) = wdb h"
  by (simp add: release_lock_def)

section \<open>Rekeying from the command line\<close>

lemma with_lock_unless_Val:
  assumes "\<And>h. (\<exists>y. fst (body h) = Val y) \<or> rows (snd (body h)) = rows h"
  shows "(\<exists>y. fst (with_lock p hint body h) = Val y) \<or> rows (snd (with_lock p hint body h)) = rows h"
proof -
  have "keeps rows (acquire_lock p hint)"
    by (auto simp: keeps_def acquire_lock_def bindP_def mapErrP_def query_def sql_def Let_def)
  then show ?thesis unfolding with_lock_def
    using assms by (intro bindP_unless_Val) (auto simp: Let_def case_prod_beta)
qed

lemma then_println_unless_Val:
  assumes "(\<exists>y. fst (m h) = Val y) \<or> rows (snd (m h)) = rows h"
  shows "(\<exists>y. fst (bindP m (\<lambda>x. println (g x)) h) = Val y) \<or> rows (snd (bindP m (\<lambda>x. println (g x)) h)) = rows h"
  using assms by (auto simp: bindP_def println_def split: prod.splits outcome.splits)

lemma rekey_command_unless_Val:
  "(\<exists>u. fst (rekey_command L socket h) = Val u) \<or> rows (snd (rekey_command L socket h)) = rows h"
proof -
  have rk: "(\<exists>y. fst (rekey L c n h) = Val y) \<or> rows (snd (rekey L c n h)) = rows h" for c n and h :: "'a host_scheme"
    using rekey_rollback_lemma [of L c n kdf_strong h] by (auto simp: rekey_def)
  show ?thesis unfolding rekey_command_def
    by (intro bindP_unless_Val with_lock_unless_Val then_println_unless_Val rk keeps_from_env keeps_acquire_passphrase
        keeps_acquire_new_passphrase keeps_open_at) simp_all
qed

section \<open>What the operator enters\<close>

text \<open>The passphrases depend on the environment, the files and the terminal alone.\<close>

definition same_console :: "'m host_scheme \<Rightarrow> 'm host_scheme \<Rightarrow> bool" where
  "same_console h h' \<longleftrightarrow> h_env h' = h_env h \<and> h_files h' = h_files h \<and> h_terminal h' = h_terminal h \<and> h_inputs h' = h_inputs h"

lemma same_console_env:
  "same_console h h' \<Longrightarrow> env_var h n = env_var h' n" "same_console h h' \<Longrightarrow> env_var_os h n = env_var_os h' n"
  "same_console h h' \<Longrightarrow> systemd_credential_path h n = systemd_credential_path h' n"
  by (simp_all add: same_console_def env_var_def env_var_os_def systemd_credential_path_def split: option.split)

lemma lock_prompt: "lockstep same_console (=) prompt_password prompt_password"
  by (rule lockstepI) (auto simp: prompt_password_def same_console_def split: list.split option.split)

lemma lock_bail: "lockstep R (=) (bail m) (bail m)"
  by (simp add: bail_def lock)

lemma lock_read_file: "lockstep same_console (=) (read_passphrase_file path mode) (read_passphrase_file path mode)"
proof -
  have "lockstep same_console (=) (open_passphrase_file path mode) (open_passphrase_file path mode)"
    unfolding open_passphrase_file_def
    by (rule lock_same, rule lock_getP) (auto simp: same_console_def lock_bail lock split: option.split node.split)
  then show ?thesis unfolding read_passphrase_file_def Let_def
    by (intro lock_same lock lock_bail refl)
qed

lemma lock_acquire: "lockstep same_console (=) acquire_passphrase acquire_passphrase"
proof -
  let ?at = "\<lambda>h :: 'a host_scheme. (env_var h ''SECRETS_PASSPHRASE'', env_var_os h ''SECRETS_PASSPHRASE_FILE'',
    systemd_credential_path h SYSTEMD_PASSPHRASE_CREDENTIAL, h_terminal h)"
  let ?m = "\<lambda>(v, f, c, tty). (case v of
     Some p \<Rightarrow> if p = [] then bail ''SECRETS_PASSPHRASE is set but empty'' else retP p
   | None \<Rightarrow> (case f of
     Some path \<Rightarrow> if path = [] then bail ''SECRETS_PASSPHRASE_FILE is set but empty''
                  else read_passphrase_file path OwnerOnly
   | None \<Rightarrow> (case c of
     Some path \<Rightarrow> read_passphrase_file path SystemdCredential
   | None \<Rightarrow> if tty
       then bindP prompt_password (\<lambda>entered.
              if entered = [] then bail ''passphrase must not be empty'' else retP entered)
       else bail ''no passphrase available'')))"
  have "lockstep same_console (=) (\<lambda>h. ?m (?at h) h) (\<lambda>h. ?m (?at h) h)"
  proof (rule lock_state [where f = ?at and m = ?m])
    show "?at s = ?at t" if "same_console s t" for s t :: "'a host_scheme"
      using same_console_env [OF that] that by (simp add: same_console_def)
    show "lockstep same_console (=) (?m x) (?m x)" for x :: "string option \<times> string option \<times> string option \<times> bool"
      by (cases x) (auto simp: lock_bail lock_read_file lock intro!: lock_same lock_prompt split: option.split)
  qed
  moreover have "(\<lambda>h. ?m (?at h) h) = acquire_passphrase" by (simp add: acquire_passphrase_def)
  ultimately show ?thesis by simp
qed

lemma lock_acquire_new: "lockstep same_console (=) (acquire_new_passphrase c) (acquire_new_passphrase c)"
proof (rule lockstepI)
  fix s t :: "'a host_scheme"
  assume st: "same_console s t"
  let ?ask = "bindP prompt_password (\<lambda>first.
         if first = [] then bail ''new passphrase must not be empty'' else
         bindP prompt_password (\<lambda>second.
         if first \<noteq> second then bail ''new passphrase confirmation did not match'' else
         if first = c then bail ''new passphrase must differ from the current passphrase'' else
         retP first))"
  have "lockstep same_console (=) ?ask ?ask"
    by (intro lock_same lock_prompt lock_if lock_bail lock_ret refl)
  from lockstepD [OF this st] same_console_env [OF st] st
  show "same_end (=) (fst (acquire_new_passphrase c s)) (fst (acquire_new_passphrase c t)) \<and>
      same_console (snd (acquire_new_passphrase c s)) (snd (acquire_new_passphrase c t))"
    by (auto simp: acquire_new_passphrase_def bail_def throwP_def retP_def same_console_def split: option.split)
qed

text \<open>The passphrases a command takes from its host.\<close>

fun entered :: "command \<Rightarrow> 'm host_scheme \<Rightarrow> string list" where
  "entered Serve h = (case acquire_passphrase h of (Val p, h1) \<Rightarrow> [p] | _ \<Rightarrow> [])"
| "entered Rekey h = (case acquire_passphrase h of
     (Val c, h1) \<Rightarrow> c # (case fst (acquire_new_passphrase c h1) of Val n \<Rightarrow> [n] | _ \<Rightarrow> [])
   | _ \<Rightarrow> [])"
| "entered (Token t) h = []"

lemma lockstep_Val:
  assumes "lockstep R (=) m m" and "R s t" and "m t = (Val x, t')"
  shows "\<exists>s'. m s = (Val x, s') \<and> R s' t'"
proof -
  from lockstepD [OF assms(1,2)] assms(3) have e: "same_end (=) (fst (m s)) (Val x)" and r: "R (snd (m s)) t'" by auto
  from same_end_eq [OF e] have "m s = (Val x, snd (m s))" by (metis prod.collapse)
  with r show ?thesis by blast
qed

lemmas acquired_same = lockstep_Val [OF lock_acquire]
lemmas acquired_new_same = lockstep_Val [OF lock_acquire_new]

lemma acquire_passphrase_fst:
  fixes h h' :: "'m host_scheme"
  assumes "h_env h' = h_env h" "h_files h' = h_files h" "h_terminal h' = h_terminal h" "h_inputs h' = h_inputs h"
  shows "fst (acquire_passphrase h') = fst (acquire_passphrase h)"
  using lockstepD [OF lock_acquire, of h h'] assms by (auto simp: same_console_def dest!: same_end_eq)

lemma entered_acquired:
  assumes "c = Serve \<or> c = Rekey" and "same_console h h1" and "acquire_passphrase h1 = (Val p, h2)"
  shows "p \<in> set (entered c h)"
proof -
  from acquired_same [OF assms(2,3)] obtain h1' where "acquire_passphrase h = (Val p, h1')" by blast
  with assms(1) show ?thesis by auto
qed

lemma entered_new:
  assumes "same_console h h1" and "acquire_passphrase h1 = (Val c, h2)" and "acquire_new_passphrase c h2 = (Val n, h3)"
  shows "n \<in> set (entered Rekey h)"
proof -
  from acquired_same [OF assms(1,2)] obtain h1' where a: "acquire_passphrase h = (Val c, h1')" and s: "same_console h1' h2" by blast
  from acquired_new_same [OF s assms(3)] a show ?thesis by auto
qed

lemma acquire_lock_console: "acquire_lock p hint h = (Val l, h1) \<Longrightarrow> same_console h h1"
  by (auto simp: acquire_lock_def bindP_Val_iff same_console_def elim!: query_ValE split: if_splits)

section \<open>Starting the server\<close>

definition salted :: "database \<Rightarrow> bool" where
  "salted d \<longleftrightarrow> map_of (db_meta d) K_SALT \<noteq> None"

text \<open>Starting changes nothing but the metadata of a database that has none, which then denote the
  key of a passphrase that was entered.\<close>

definition start_change :: "lib \<Rightarrow> string set \<Rightarrow> database \<Rightarrow> database \<Rightarrow> bool" where
  "start_change L P d d' \<longleftrightarrow> db_projects d' = db_projects d \<and> db_secrets d' = db_secrets d \<and> db_tokens d' = db_tokens d \<and>
     (db_meta d' = db_meta d \<or> \<not> salted d \<and> salted d' \<and> (\<exists>p \<in> P. \<exists>K. verified_key L p d' K))"

lemma start_change_rows: "db_rows d' = db_rows d \<Longrightarrow> start_change L P d d'"
  by (simp add: start_change_def db_rows_def)

lemma verified_salted: "verified_key L p d K \<Longrightarrow> salted d \<and> opens_verifier L K d"
  by (auto simp: verified_key_def salted_def)

lemma verified_key_meta: "db_meta d = db_meta e \<Longrightarrow> verified_key L p d K \<longleftrightarrow> verified_key L p e K"
  by (simp add: verified_key_def meta_params_def opens_verifier_def)

lemma verified_key_cong: "db_rows d = db_rows e \<Longrightarrow> verified_key L p d K \<longleftrightarrow> verified_key L p e K"
  by (rule verified_key_meta) (simp add: db_rows_def)

lemma initialize_change:
  assumes "aead_ok L" and "\<not> salted (wdb w)" and "p \<in> P"
  shows "changes (start_change L P) (initialize L p) w"
proof -
  obtain r w' where run: "initialize L p w = (r, w')" by (cases "initialize L p w")
  have "start_change L P (wdb w) (wdb w')"
  proof (cases "\<exists>K. r = Val K")
    case True
    then obtain K where ini: "initialize_with_params L p kdf_strong w = (Val K, w')" using run by (auto simp: initialize_def)
    from initialize_ValD [OF assms(1) kdf_strong_valid ini] have v: "verified_key L p (wdb w') K" .
    from ini obtain salt w1 n c w2 u where
        g: "generate_salt w = (Val salt :: (anyhow_error, byte list) outcome, w1)"
      and enc: "encrypt L K SENTINEL verifier_aad w1 = (Val (n, c), w2)"
      and tx: "with_tx EDatabase (mapErrP EDatabase (store_metadata salt kdf_strong n c)) w2 = (Val u, w')"
      by (auto simp: initialize_with_params_def bindP_Val_iff split: prod.splits)
    moreover have "wdb w1 = wdb w" by (rule keepsD' [OF keeps_generate_salt g])
    then have "wdb w2 = wdb w" using enc by (auto simp: encrypt_Val_iff)
    moreover from tx obtain w4 where
        "mapErrP EDatabase (store_metadata salt kdf_strong n c) (w2\<lparr>wio := tl (wio w2)\<rparr>) = (Val u, w4)" "w' = w4\<lparr>wio := tl (wio w4)\<rparr>"
      by (rule with_tx_ValE)
    ultimately have "db_projects (wdb w') = db_projects (wdb w) \<and> db_secrets (wdb w') = db_secrets (wdb w) \<and> db_tokens (wdb w') = db_tokens (wdb w)"
      by (auto elim!: store_metadata_ValE)
    with verified_salted [OF v] v show ?thesis using assms(2,3) by (auto simp: start_change_def)
  next
    case False
    have "(\<exists>y. fst (initialize L p w) = Val y) \<or> wdb (snd (initialize L p w)) = wdb w"
      unfolding initialize_def initialize_with_params_def
    proof (intro bindP_unless_Val keeps_mapErrP keeps_liftP)
      show "keeps wdb generate_salt" by (rule keeps_generate_salt)
      show "keeps wdb (encrypt L k SENTINEL verifier_aad)" for k by (rule keeps_encrypt) simp
      fix salt :: "byte list" and key and nc :: "byte list \<times> byte list" and w :: "'a world_scheme"
      obtain n c where nc: "nc = (n, c)" by (cases nc)
      show "(\<exists>y. fst ((case nc of (nonce, ct) \<Rightarrow> bindP (with_tx EDatabase (mapErrP EDatabase (store_metadata salt kdf_strong nonce ct)))
            (\<lambda>_. retP key)) w) = Val y) \<or>
          wdb (snd ((case nc of (nonce, ct) \<Rightarrow> bindP (with_tx EDatabase (mapErrP EDatabase (store_metadata salt kdf_strong nonce ct)))
            (\<lambda>_. retP key)) w)) = wdb w"
        using with_tx_unless_Val [of EDatabase "mapErrP EDatabase (store_metadata salt kdf_strong n c)" w]
        by (auto simp: nc bindP_def split: prod.splits outcome.splits)
    qed
    with False run show ?thesis by (simp add: start_change_def)
  qed
  with run show ?thesis by (simp add: changes_def)
qed

lemma init_or_verify_change:
  assumes "aead_ok L" and "p \<in> P"
  shows "changes (start_change L P) (init_or_verify L p) w"
  unfolding init_or_verify_def
proof (rule changes_read)
  show "start_change L P d d" for d by (simp add: start_change_def)
  show "keeps wdb (mapErrP EDatabase (get_meta K_SALT))" by (intro frame keeps_get_meta) simp
  fix s and w' :: "'a world_scheme"
  assume g: "mapErrP EDatabase (get_meta K_SALT) w = (Val s, w')" and w': "wdb w' = wdb w"
  then have s: "s = map_of (db_meta (wdb w')) K_SALT" by (auto simp: get_meta_Val_iff)
  show "changes (start_change L P) (case s of None \<Rightarrow> initialize L p | Some salt \<Rightarrow> verify L p salt) w'"
  proof (cases s)
    case None
    with s have "\<not> salted (wdb w')" by (simp add: salted_def)
    from initialize_change [OF assms(1) this assms(2)] None show ?thesis by simp
  next
    case (Some salt)
    then show ?thesis
      by (simp add: changes_keeps [OF _ keeps_verify] start_change_def)
  qed
qed

text \<open>A change that does not look at the schema may follow a step that keeps the rows.\<close>

lemma changes_rows_read:
  assumes "keeps rows m" and "\<And>d e e'. db_rows e = db_rows d \<Longrightarrow> R e e' \<Longrightarrow> R d e'" and "\<And>d d'. db_rows d' = db_rows d \<Longrightarrow> R d d'"
    and "\<And>x w'. m w = (Val x, w') \<Longrightarrow> changes R (f x) w'"
  shows "changes R (bindP m f) w"
proof (cases "m w")
  case (Pair r w')
  have same: "db_rows (wdb w') = db_rows (wdb w)" by (rule keepsD' [OF assms(1) Pair])
  show ?thesis
  proof (cases r)
    case (Val x)
    with Pair have "changes R (f x) w'" and "bindP m f w = f x w'" by (auto intro: assms(4) simp: bindP_def)
    with assms(2) [OF same] show ?thesis by (simp add: changes_def)
  qed (use Pair assms(3) [OF same] in \<open>simp_all add: changes_def bindP_def\<close>)
qed

lemma start_change_cong: "db_rows e = db_rows d \<Longrightarrow> start_change L P e e' \<Longrightarrow> start_change L P d e'"
  by (auto simp: start_change_def db_rows_def salted_def)

lemma start_read:
  "keeps rows m \<Longrightarrow> (\<And>x w'. m w = (Val x, w') \<Longrightarrow> changes (start_change L P) (f x) w') \<Longrightarrow>
   changes (start_change L P) (bindP m f) w"
  by (rule changes_rows_read [where R = "start_change L P"]) (auto intro: start_change_rows start_change_cong)

lemma keeps_acquire_lock: "keeps rows (acquire_lock p hint)"
  by (auto simp: keeps_def acquire_lock_def bindP_def mapErrP_def query_def sql_def Let_def)

lemma changes_keep_lock:
  assumes "\<And>l h1. acquire_lock p hint h = (Val l, h1) \<Longrightarrow> changes (start_change L P) body h1"
  shows "changes (start_change L P) (keep_lock p hint body) h"
  unfolding keep_lock_def
proof (rule start_read [OF keeps_acquire_lock])
  fix l h1 assume "acquire_lock p hint h = (Val l, h1)"
  from assms [OF this] show "changes (start_change L P) (\<lambda>h. case body h of (Val x, h') \<Rightarrow> (Val x, h') | (Fail e, h') \<Rightarrow> (Fail e, release_lock l h')
      | (Panic, h') \<Rightarrow> (Panic, release_lock l h')) h1"
    by (auto simp: changes_def split: prod.splits outcome.splits)
qed

lemma serve_change:
  fixes h :: "'m host_scheme"
  assumes "aead_ok L" and "set (entered Serve h) \<subseteq> P"
  shows "changes (start_change L P) (serve L socket can_bind) h"
proof -
  have body: "changes (start_change L P) (bindP acquire_passphrase (\<lambda>passphrase. bindP (open_at cfg) (\<lambda>_.
      bindP (init_or_verify L passphrase) (\<lambda>key. bindP (audit_open (audit_path cfg)) (\<lambda>_. if \<not> can_bind (bind_addr cfg) then bail m else retP key))))) h1"
    if con: "same_console h h1" for cfg m and h1 :: "'m host_scheme"
  proof (rule start_read [OF keeps_acquire_passphrase])
    show "rows (h\<lparr>h_inputs := i\<rparr>) = rows h" for i and h :: "'m host_scheme" by simp
    fix p h2 assume "acquire_passphrase h1 = (Val p, h2)"
    from entered_acquired [OF disjI1 [OF refl] con this] assms(2) have p: "p \<in> P" by blast
    show "changes (start_change L P) (bindP (open_at cfg) (\<lambda>_. bindP (init_or_verify L p) (\<lambda>key.
        bindP (audit_open (audit_path cfg)) (\<lambda>_. if \<not> can_bind (bind_addr cfg) then bail m else retP key)))) h2"
    proof (rule start_read [OF keeps_open_at changes_then])
      show "changes (start_change L P) (init_or_verify L p) w" for w :: "'m host_scheme"
        by (rule init_or_verify_change [OF assms(1) p])
      show "keeps wdb (bindP (audit_open (audit_path cfg)) (\<lambda>_. if \<not> can_bind (bind_addr cfg) then bail m else retP key))" for key
        unfolding bail_def by (intro frame keeps_audit_open) simp_all
    qed
  qed
  show ?thesis unfolding serve_def
  proof (rule start_read [OF keeps_from_env])
    fix cfg h0 assume "from_env socket h = (Val cfg, h0)"
    then have "h0 = h" by (rule from_env_state)
    then show "changes (start_change L P) (keep_lock (db_path cfg) ''another secrets-server appears to be running on this database''
        (bindP acquire_passphrase (\<lambda>passphrase. bindP (open_at cfg) (\<lambda>_. bindP (init_or_verify L passphrase) (\<lambda>key.
         bindP (audit_open (audit_path cfg)) (\<lambda>_. if \<not> can_bind (bind_addr cfg) then bail ''failed to bind'' else retP key)))))) h0"
      by (intro changes_keep_lock body) (auto dest: acquire_lock_console)
  qed
qed

lemma keeps_with_tx:
  assumes "\<And>w i. f (w\<lparr>wio := i\<rparr>) = f w" and "\<And>w d. f (w\<lparr>wdb := d\<rparr>) = f w" and "keeps f body"
  shows "keeps f (with_tx lift body)"
proof -
  have q: "keeps f (mapErrP lift (query (\<lambda>_. ())))" by (intro frame keeps_query assms(1))
  have "f (snd (with_tx lift body w)) = f w" for w
  proof -
    obtain r1 w1 where m1: "mapErrP lift (query (\<lambda>_. ())) w = (r1, w1)" by (cases "mapErrP lift (query (\<lambda>_. ())) w")
    obtain r2 w2 where m2: "body w1 = (r2, w2)" by (cases "body w1")
    obtain r3 w3 where m3: "mapErrP lift (query (\<lambda>_. ())) w2 = (r3, w3)" by (cases "mapErrP lift (query (\<lambda>_. ())) w2")
    have "f w1 = f w" "f w2 = f w" "f w3 = f w"
      using keepsD' [OF q m1] keepsD' [OF assms(3) m2] keepsD' [OF q m3] by simp_all
    then show ?thesis by (cases r1; cases r2; cases r3) (simp_all add: with_tx_def m1 m2 m3 assms(2))
  qed
  then show ?thesis by (simp add: keeps_def)
qed

lemma keeps_init_or_verify:
  "(\<And>w i. f (w\<lparr>wio := i\<rparr>) = f w) \<Longrightarrow> (\<And>w d. f (w\<lparr>wdb := d\<rparr>) = f w) \<Longrightarrow> (\<And>w e. f (w\<lparr>entropy := e\<rparr>) = f w) \<Longrightarrow>
   keeps f (init_or_verify L p)"
  unfolding init_or_verify_def initialize_def initialize_with_params_def store_metadata_def set_meta_def generate_salt_def
  by (intro frame keeps_get_meta keeps_verify keeps_with_tx keeps_fill_bytes keeps_encrypt keeps_sql)

lemma keep_lock_Val_iff: "keep_lock p hint body h = (Val x, h') \<longleftrightarrow>
    (\<exists>l h1. acquire_lock p hint h = (Val l, h1) \<and> body h1 = (Val x, h'))"
proof -
  have "(case body h1 of (Val x, h') \<Rightarrow> (Val x, h') | (Fail e, h') \<Rightarrow> (Fail e, release_lock l h')
      | (Panic, h') \<Rightarrow> (Panic, release_lock l h')) = (Val x, h') \<longleftrightarrow> body h1 = (Val x, h')" for l h1
    by (auto split: prod.splits outcome.splits)
  then show ?thesis by (simp add: keep_lock_def bindP_Val_iff)
qed

lemma serve_ValD:
  assumes "aead_ok L" and "serve L socket can_bind h = (Val K, h')"
  shows "\<exists>cfg p. from_env socket h = (Val cfg, h) \<and> fst (acquire_passphrase h) = Val p \<and> verified_key L p (wdb h') K \<and>
    lock_path (db_path cfg) \<notin> set (h_locks h) \<and> h_locks h' = lock_path (db_path cfg) # h_locks h"
proof -
  from assms(2) obtain cfg h0 where "from_env socket h = (Val cfg, h0)"
    and rest: "keep_lock (db_path cfg) ''another secrets-server appears to be running on this database''
       (bindP acquire_passphrase (\<lambda>passphrase. bindP (open_at cfg) (\<lambda>_. bindP (init_or_verify L passphrase) (\<lambda>key.
        bindP (audit_open (audit_path cfg)) (\<lambda>_. if \<not> can_bind (bind_addr cfg) then bail ''failed to bind'' else retP key))))) h0 = (Val K, h')"
    unfolding serve_def by (rule bindP_ValE)
  then have cfg: "from_env socket h = (Val cfg, h)" and h0: "h0 = h" using from_env_state by auto
  from rest obtain l h1 p h2 h3 h4 where l: "acquire_lock (db_path cfg) ''another secrets-server appears to be running on this database'' h = (Val l, h1)"
    and p: "acquire_passphrase h1 = (Val p, h2)" and op: "open_at cfg h2 = (Val (), h3)"
    and i: "init_or_verify L p h3 = (Val K, h4)" and au: "audit_open (audit_path cfg) h4 = (Val (), h')"
    by (auto simp: keep_lock_Val_iff bindP_Val_iff bail_def h0 split: if_splits)
  from l have "h_env h1 = h_env h" "h_files h1 = h_files h" "h_terminal h1 = h_terminal h" "h_inputs h1 = h_inputs h"
    by (auto simp: acquire_lock_def bindP_Val_iff elim!: query_ValE split: if_splits)
  from acquire_passphrase_fst [OF this] p have fp: "fst (acquire_passphrase h) = Val p" by simp
  have k: "keeps h_locks (open_at cfg)"
    unfolding open_at_def open_db_def migrate_def column_exists_def by (intro frame keeps_query keeps_sql) simp_all
  have au': "wdb h' = wdb h4" "h_locks h' = h_locks h4"
    using keepsD' [OF keeps_audit_open au, of wdb] keepsD' [OF keeps_audit_open au, of h_locks] by simp_all
  have "h_locks h' = h_locks h1"
    using au'(2) keepsD' [OF keeps_acquire_passphrase p, of h_locks] keepsD' [OF k op] keepsD' [OF keeps_init_or_verify i, of h_locks] by simp
  with acquire_lock_Val [OF l] cfg fp init_or_verify_ValD [OF assms(1) i] au' show ?thesis by auto
qed

lemma acquire_lock_fail: "acquire_lock p hint h = (r, h') \<Longrightarrow> (\<And>l. r \<noteq> Val l) \<Longrightarrow> h_locks h' = h_locks h"
  by (auto simp: acquire_lock_def bindP_def mapErrP_def query_def sql_def Let_def split: if_splits)

lemma acquire_lock_Val': "acquire_lock p hint h = (Val l, h') \<Longrightarrow> l = lock_path p \<and> h_locks h' = l # h_locks h"
  by (auto dest: acquire_lock_Val)

lemma keep_lock_fail:
  assumes "keeps h_locks body" and "keep_lock p hint body h = (r, h')" and "\<And>x. r \<noteq> Val x"
  shows "h_locks h' = h_locks h"
proof -
  obtain r1 h1 where a: "acquire_lock p hint h = (r1, h1)" by (cases "acquire_lock p hint h")
  show ?thesis
  proof (cases r1)
    case (Val l)
    obtain r2 h2 where b: "body h1 = (r2, h2)" by (cases "body h1")
    have "h_locks h2 = l # h_locks h" using keepsD' [OF assms(1) b] acquire_lock_Val' [OF a [unfolded Val]] by simp
    with a b Val assms(2,3) show ?thesis
      by (cases r2) (auto simp: keep_lock_def bindP_def release_lock_def)
  next
    case (Fail e)
    with a assms(2) acquire_lock_fail [OF a] show ?thesis by (simp add: keep_lock_def bindP_def)
  next
    case Panic
    with a assms(2) acquire_lock_fail [OF a] show ?thesis by (simp add: keep_lock_def bindP_def)
  qed
qed

lemma keeps_open_at_locks: "keeps h_locks (open_at cfg)"
  unfolding open_at_def open_db_def migrate_def column_exists_def by (intro frame keeps_query keeps_sql) simp_all

lemma serve_fail_locks:
  assumes "serve L socket can_bind h = (r, h')" and "\<And>K. r \<noteq> Val K"
  shows "h_locks h' = h_locks h"
proof -
  obtain r1 h1 where e: "from_env socket h = (r1, h1)" by (cases "from_env socket h")
  then have h1: "h1 = h" by (rule from_env_state)
  show ?thesis
  proof (cases r1)
    case (Val cfg)
    have body: "keeps h_locks (bindP acquire_passphrase (\<lambda>passphrase. bindP (open_at cfg) (\<lambda>_. bindP (init_or_verify L passphrase) (\<lambda>key.
        bindP (audit_open (audit_path cfg)) (\<lambda>_. if \<not> can_bind (bind_addr cfg) then bail m else retP key)))))" for m
      unfolding bail_def by (intro frame keeps_acquire_passphrase keeps_open_at_locks keeps_init_or_verify keeps_audit_open) simp_all
    from e Val h1 assms(1) show ?thesis
      by (intro keep_lock_fail [OF body _ assms(2)]) (simp add: serve_def bindP_def)
  qed (use e h1 assms(1) in \<open>simp_all add: serve_def bindP_def\<close>)
qed

section \<open>Token commands\<close>

abbreviation secret_part :: "'m world_scheme \<Rightarrow> (string \<times> byte list) list \<times> project_row list \<times> secret_row list" where
  "secret_part w \<equiv> (db_meta (wdb w), db_projects (wdb w), db_secrets (wdb w))"

lemma keeps_stmt: "(\<And>d x d'. stmt d = Inr (x, d') \<Longrightarrow> g d' = g d) \<Longrightarrow> keeps (\<lambda>w. g (wdb w)) (sql stmt)"
  by (auto simp: keeps_def sql_def Let_def split: sum.splits)

lemma keeps_rows_part: "keeps rows m \<Longrightarrow> keeps secret_part m"
  by (simp add: keeps_def db_rows_def)

lemma rows_preserves:
  fixes m :: "('m world_scheme, 'e, 'a) proc"
  shows "keeps rows m \<Longrightarrow> (\<And>d e. db_rows d = db_rows e \<Longrightarrow> P d = P e) \<Longrightarrow> preserves (\<lambda>w. P (wdb w)) m"
proof
  fix w :: "'m world_scheme"
  assume k: "keeps rows m" and c: "\<And>d e. db_rows d = db_rows e \<Longrightarrow> P d = P e" and w: "P (wdb w)"
  have "P (wdb (snd (m w))) = P (wdb w)" by (rule c) (rule keepsD [OF k])
  with w show "P (wdb (snd (m w)))" by blast
qed

lemma db_wf_rows: "db_rows d = db_rows e \<Longrightarrow> db_wf d = db_wf e"
  by (simp add: db_rows_def db_wf_def)

lemma keeps_println_all: "(\<And>h l. f (h\<lparr>h_out := l\<rparr>) = f h) \<Longrightarrow> keeps f (println_all ls)"
  by (induction ls) (simp_all add: keeps_retP keeps_bindP keeps_println)

lemma keeps_rows_wdb: "keeps wdb m \<Longrightarrow> keeps rows m"
  by (simp add: keeps_def)

lemma token_create_part: "keeps secret_part (token_create L socket name project ttl)"
proof -
  have ins: "keeps secret_part (insert_token L n h sc e)" for n h sc e
    unfolding insert_token_def
    by (intro keeps_bindP keeps_now_rfc3339 keeps_stmt [where g = "\<lambda>d. (db_meta d, db_projects d, db_secrets d)"]) auto
  show ?thesis unfolding token_create_def bail_def
    by (intro frame ins keeps_now_utc keeps_from_env keeps_rows_part [OF keeps_open_at] keeps_generate_token keeps_println) simp_all
qed

lemma token_revoke_part: "keeps secret_part (token_revoke socket name)"
proof -
  have rv: "keeps secret_part (revoke_token_rows n)" for n
    unfolding revoke_token_rows_def by (rule keeps_stmt [where g = "\<lambda>d. (db_meta d, db_projects d, db_secrets d)"]) auto
  show ?thesis unfolding token_revoke_def
    by (intro frame rv keeps_from_env keeps_rows_part [OF keeps_open_at] keeps_println) simp_all
qed

lemma token_list_rows: "keeps rows (token_list socket)"
  unfolding token_list_def list_tokens_rows_def
  by (intro frame keeps_from_env keeps_open_at keeps_query keeps_println keeps_println_all) simp_all

lemma token_create_wf: "preserves (\<lambda>h. db_wf (wdb h)) (token_create L socket name project ttl)"
proof -
  note k = rows_preserves [OF _ db_wf_rows]
  have ins: "preserves (\<lambda>h. db_wf (wdb h)) (insert_token L n h sc e)" for n h sc e
    unfolding insert_token_def
    by (intro pres k keeps_now_rfc3339 sql_preserves) (auto intro: db_wf_insert_token)
  show ?thesis unfolding token_create_def bail_def
    by (intro pres ins k [OF keeps_open_at] k [OF keeps_from_env] k [OF keeps_generate_token] k [OF keeps_println] k [OF keeps_now_utc]) simp_all
qed

lemma token_revoke_wf: "preserves (\<lambda>h. db_wf (wdb h)) (token_revoke socket name)"
proof -
  note k = rows_preserves [OF _ db_wf_rows]
  have rv: "preserves (\<lambda>h. db_wf (wdb h)) (revoke_token_rows n)" for n
    unfolding revoke_token_rows_def by (intro sql_preserves) (auto intro: db_wf_revoke)
  show ?thesis unfolding token_revoke_def
    by (intro pres rv k [OF keeps_open_at] k [OF keeps_from_env] k [OF keeps_println]) simp_all
qed

end
