(* ===== verification/System.thy ===== *)
theory System
  imports CommandEffects RekeyVault ConcurrentEffects
begin

text \<open>
  The whole installation on one database: server processes started and stopped, their
  requests, and the commands run beside them (token administration, rekeying, failed
  starts), in any order. Every process is configured with the same database path; a command is
  one step, and a request arrives and then advances section by section (\<open>Concurrent\<close>), so that
  requests interleave with each other and with commands, and a server may stop with requests
  still running. A process killed half way leaves the tables of a run of it whose later statements
  all fail (an open transaction is rolled back either way), and runs with any pattern of failing
  statements are steps. The invariant is that the secrets stay readable by whoever serves them.
\<close>

section \<open>The state and its steps\<close>

text \<open>A running server is its key and the requests it is serving.\<close>

type_synonym process = "master_key \<times> (request \<times> stage) list"

record system =
  sy_db :: database
  sy_locks :: "string list"
  sy_live :: "process list"

text \<open>A command sees the database and the lock files as they are; its environment, files,
  terminal, randomness, clock and failing statements are its own.\<close>

definition runs_on :: "(string \<Rightarrow> socket_addr option) \<Rightarrow> string \<Rightarrow> host \<Rightarrow> system \<Rightarrow> bool" where
  "runs_on socket path h s \<longleftrightarrow> wdb h = sy_db s \<and> h_locks h = sy_locks s \<and>
     (\<forall>cfg h'. from_env socket h = (Val cfg, h') \<longrightarrow> db_path cfg = path)"

text \<open>\<open>P\<close> holds the passphrases entered to the commands of the run.\<close>

inductive sys_step ::
    "lib \<Rightarrow> web \<Rightarrow> (string \<Rightarrow> socket_addr option) \<Rightarrow> (socket_addr \<Rightarrow> bool) \<Rightarrow> string \<Rightarrow> string set \<Rightarrow> system \<Rightarrow> system \<Rightarrow> bool"
  for L :: lib and W :: web and socket :: "string \<Rightarrow> socket_addr option" and can_bind :: "socket_addr \<Rightarrow> bool"
    and path :: string and P :: "string set" where
  started: "runs_on socket path h s \<Longrightarrow> set (entered Serve h) \<subseteq> P \<Longrightarrow>
    run_command L socket can_bind Serve h = (Val (Some K), h') \<Longrightarrow>
    sys_step L W socket can_bind path P s \<lparr>sy_db = wdb h', sy_locks = h_locks h', sy_live = (K, []) # sy_live s\<rparr>"
| command: "runs_on socket path h s \<Longrightarrow> set (entered c h) \<subseteq> P \<Longrightarrow>
    run_command L socket can_bind c h = (r, h') \<Longrightarrow> (\<And>K. r \<noteq> Val (Some K)) \<Longrightarrow>
    sys_step L W socket can_bind path P s \<lparr>sy_db = wdb h', sy_locks = h_locks h', sy_live = sy_live s\<rparr>"
| arrived: "sy_live s = pre @ (K, ps) # post \<Longrightarrow>
    sys_step L W socket can_bind path P s (s\<lparr>sy_live := pre @ (K, ps @ [(req, Arrived)]) # post\<rparr>)"
| advanced: "sy_live s = pre @ (K, ps) # post \<Longrightarrow> i < length ps \<Longrightarrow> ps ! i = (req, st) \<Longrightarrow>
    wdb (w :: server) = sy_db s \<Longrightarrow> advance L W K req st w = (st', w') \<Longrightarrow>
    sys_step L W socket can_bind path P s (s\<lparr>sy_db := wdb w', sy_live := pre @ (K, ps[i := (req, st')]) # post\<rparr>)"
| stopped: "sy_live s = pre @ (K, ps) # post \<Longrightarrow>
    sys_step L W socket can_bind path P s
      (s\<lparr>sy_locks := remove1 (lock_path path) (sy_locks s), sy_live := pre @ post\<rparr>)"

inductive_cases sys_stepE: "sys_step L W socket can_bind path P s s'"

text \<open>No two of the passphrases open the verifier that is stored with different keys. Of a
  single passphrase this holds whatever the cipher does. Of several it excludes one accident: a
  passphrase other than the one the verifier was made with whose key passes the tag of that very
  ciphertext. Nothing is asked of ciphertexts that are not the stored verifier.\<close>

definition unambiguous :: "lib \<Rightarrow> string set \<Rightarrow> database \<Rightarrow> bool" where
  "unambiguous L P d \<longleftrightarrow> (\<forall>p \<in> P. \<forall>q \<in> P. \<forall>K K'. verified_key L p d K \<longrightarrow> verified_key L q d K' \<longrightarrow> K = K')"

lemma verified_key_fun: "verified_key L p d K \<Longrightarrow> verified_key L p d K' \<Longrightarrow> K = K'"
  by (auto simp: verified_key_def)

lemma unambiguous_single: "unambiguous L {p} d"
  by (auto simp: unambiguous_def dest: verified_key_fun)

lemma unambiguousD: "unambiguous L P d \<Longrightarrow> p \<in> P \<Longrightarrow> q \<in> P \<Longrightarrow> verified_key L p d K \<Longrightarrow> verified_key L q d K' \<Longrightarrow> K = K'"
  by (auto simp: unambiguous_def)

text \<open>A step of a run in which the stored verifier tells the passphrases apart.\<close>

definition clear_step ::
    "lib \<Rightarrow> web \<Rightarrow> (string \<Rightarrow> socket_addr option) \<Rightarrow> (socket_addr \<Rightarrow> bool) \<Rightarrow> string \<Rightarrow> string set \<Rightarrow> system \<Rightarrow> system \<Rightarrow> bool" where
  "clear_step L W socket can_bind path P s s' \<longleftrightarrow> sys_step L W socket can_bind path P s s' \<and> unambiguous L P (sy_db s')"

text \<open>Before the first start: empty tables, nobody running.\<close>

definition fresh :: "string \<Rightarrow> system \<Rightarrow> bool" where
  "fresh path s \<longleftrightarrow> db_wf (sy_db s) \<and> \<not> salted (sy_db s) \<and> db_secrets (sy_db s) = [] \<and> sy_live s = [] \<and>
     lock_path path \<notin> set (sy_locks s)"

section \<open>The invariant\<close>

text \<open>A sound database: the constraints hold, secrets exist only once a key does, and the key of
  a passphrase that was entered opens the verifier and every secret.\<close>

definition sound :: "lib \<Rightarrow> string set \<Rightarrow> database \<Rightarrow> bool" where
  "sound L P d \<longleftrightarrow> db_wf d \<and> (\<not> salted d \<longrightarrow> db_secrets d = []) \<and>
     (salted d \<longrightarrow> (\<exists>p \<in> P. \<exists>K. verified_key L p d K \<and> readable L K d))"

lemma sound_readable:
  assumes "sound L P d" and "unambiguous L P d" and "p \<in> P" and "verified_key L p d K"
  shows "db_wf d \<and> readable L K d"
proof -
  from assms(1) verified_salted [OF assms(4)] obtain q K' where
      "db_wf d" "q \<in> P" "verified_key L q d K'" "readable L K' d" by (auto simp: sound_def)
  with unambiguousD [OF assms(2) assms(3) _ assms(4)] show ?thesis by metis
qed

lemma soundI: "db_wf d \<Longrightarrow> p \<in> P \<Longrightarrow> verified_key L p d K \<Longrightarrow> readable L K d \<Longrightarrow> sound L P d"
  using verified_salted by (auto simp: sound_def)

lemma sound_part:
  assumes "(db_meta d', db_projects d', db_secrets d') = (db_meta d, db_projects d, db_secrets d)" and "db_wf d'" and "sound L P d"
  shows "sound L P d'"
  using assms verified_key_meta [of d' d] by (auto simp: sound_def salted_def readable_def)

lemma sound_rows: "db_rows d' = db_rows d \<Longrightarrow> sound L P d \<Longrightarrow> sound L P d'"
  by (rule sound_part [of d' d]) (simp_all add: db_rows_def, simp add: sound_def db_wf_def)

lemma sound_start:
  assumes "start_change L P d d'" and "sound L P d" and "db_wf d'"
  shows "sound L P d'"
proof (cases "db_meta d' = db_meta d")
  case True
  with assms(1) have "db_rows d' = db_rows d" by (simp add: start_change_def db_rows_def)
  from sound_rows [OF this assms(2)] show ?thesis .
next
  case False
  with assms(1,2) obtain p K where "db_secrets d' = []" "p \<in> P" "verified_key L p d' K"
    by (auto simp: start_change_def sound_def)
  with assms(3) show ?thesis by (intro soundI) (simp_all add: readable_def)
qed

lemma start_change_wf: "start_change L P d d' \<Longrightarrow> db_wf d \<Longrightarrow> db_wf d'"
  by (simp add: start_change_def db_wf_def)

lemma sound_advance:
  assumes laws: "aead_ok L" "web_ok W" and snd: "sound L P (wdb w)" and un: "unambiguous L P (wdb w)"
    and p: "p \<in> P" and key: "verified_key L p (wdb w) K" and run: "advance L W K req st w = (st', w')"
  shows "sound L P (wdb w') \<and> verified_key L p (wdb w') K"
proof -
  from sound_readable [OF snd un p key] have wf: "db_wf (wdb w)" and rd: "readable L K (wdb w)" by simp_all
  from advance_any [OF laws run] have "db_wf (wdb w') \<and> readable L K (wdb w') \<and> db_meta (wdb w') = db_meta (wdb w)"
    by (auto simp: api_change_wf [OF _ wf] api_change_readable [OF _ wf rd] api_change_meta rd db_wf_insert_token [OF wf])
  with key p verified_key_meta [of "wdb w'" "wdb w"] show ?thesis by (auto intro: soundI)
qed

lemma sound_rekey:
  assumes "aead_ok L" and "sound L P (wdb w)" and "unambiguous L P (wdb w)" and "c \<in> P" and "n \<in> P"
  shows "sound L P (wdb (snd (rekey L c n w)))"
proof -
  obtain r w' where run: "rekey L c n w = (r, w')" by (cases "rekey L c n w")
  show ?thesis
  proof (cases "\<exists>k. r = Val k")
    case True
    then obtain k where "rekey L c n w = (Val k, w')" using run by blast
    from rekey_ValD [OF assms(1) _ this] assms(2) obtain old_key new_key where
        old: "verified_key L c (wdb w) old_key" and new: "verified_key L n (wdb w') new_key"
      and same: "list_all2 (same_secret L old_key (wdb w) new_key (wdb w')) (db_secrets (wdb w)) (db_secrets (wdb w'))"
      and pr: "db_projects (wdb w') = db_projects (wdb w)" and tk: "db_tokens (wdb w') = db_tokens (wdb w)"
      by (auto simp: sound_def)
    from sound_readable [OF assms(2-4) old] have wf: "db_wf (wdb w)" and rd: "readable L old_key (wdb w)" by simp_all
    have "sound L P (wdb w')"
      by (rule soundI [OF same_secrets_wf [OF same wf pr tk] assms(5) new same_secrets_readable [OF same wf pr rd]])
    with run show ?thesis by simp
  next
    case False
    with rekey_rollback_lemma [of L c n kdf_strong w] run have "db_rows (wdb w') = db_rows (wdb w)" by (auto simp: rekey_def)
    with run sound_rows [OF _ assms(2)] show ?thesis by simp
  qed
qed

section \<open>Commands\<close>

text \<open>Soundness over a run that looks at the rows alone.\<close>

abbreviation sound_change :: "lib \<Rightarrow> string set \<Rightarrow> database \<Rightarrow> database \<Rightarrow> bool" where
  "sound_change L P d d' \<equiv> sound L P d \<longrightarrow> unambiguous L P d \<longrightarrow> sound L P d'"

lemma unambiguous_cong: "db_rows e = db_rows d \<Longrightarrow> unambiguous L P e \<longleftrightarrow> unambiguous L P d"
  by (simp add: unambiguous_def verified_key_cong [of e d])

lemma sound_read:
  assumes "keeps rows m" and "\<And>x w'. m w = (Val x, w') \<Longrightarrow> changes (sound_change L P) (f x) w'"
  shows "changes (sound_change L P) (bindP m f) w"
proof (rule changes_rows_read [where R = "sound_change L P"])
  show "keeps rows m" by (rule assms(1))
  show "sound_change L P d e'" if "db_rows e = db_rows d" "sound_change L P e e'" for d e e'
    using that sound_rows [OF that(1)] unambiguous_cong [OF that(1)] by simp
  show "sound_change L P d d'" if "db_rows d' = db_rows d" for d d' using sound_rows [OF that] by blast
qed (rule assms(2))

lemma sound_rekey_command:
  fixes h :: host
  assumes "aead_ok L" and P: "set (entered Rekey h) \<subseteq> P" and "sound L P (wdb h)" and "unambiguous L P (wdb h)"
  shows "sound L P (wdb (snd (rekey_command L socket h)))"
proof -
  have inner: "changes (sound_change L P) (bindP (rekey L c n) (\<lambda>count. println (g count))) w"
    if "c \<in> P" "n \<in> P" for c n g and w :: host
    using sound_rekey [OF assms(1) _ _ that, of w]
    by (auto simp: changes_def bindP_def println_def split: prod.splits outcome.splits)
  have body: "changes (sound_change L P) (bindP acquire_passphrase (\<lambda>current. bindP (acquire_new_passphrase current) (\<lambda>new_passphrase.
      bindP (open_at cfg) (\<lambda>_. bindP (rekey L current new_passphrase) (\<lambda>count. println (g count)))))) h1"
    if con: "same_console h h1" for cfg g and h1 :: host
  proof (rule sound_read [OF keeps_acquire_passphrase])
    fix c h2 assume c: "acquire_passphrase h1 = (Val c, h2)"
    show "changes (sound_change L P) (bindP (acquire_new_passphrase c) (\<lambda>new_passphrase.
      bindP (open_at cfg) (\<lambda>_. bindP (rekey L c new_passphrase) (\<lambda>count. println (g count))))) h2"
    proof (rule sound_read [OF keeps_acquire_new_passphrase])
      fix n h3 assume n: "acquire_new_passphrase c h2 = (Val n, h3)"
      have "c \<in> P" "n \<in> P" using entered_acquired [OF disjI2 [OF refl] con c] entered_new [OF con c n] P by auto
      then show "changes (sound_change L P) (bindP (open_at cfg) (\<lambda>_. bindP (rekey L c n) (\<lambda>count. println (g count)))) h3"
        by (intro sound_read [OF keeps_open_at] inner)
    qed simp
  qed simp
  have "changes (sound_change L P) (rekey_command L socket) h" unfolding rekey_command_def with_lock_def
  proof (rule sound_read [OF keeps_from_env])
    fix cfg h0 assume "from_env socket h = (Val cfg, h0)"
    then have h0: "h0 = h" by (rule from_env_state)
    show "changes (sound_change L P) (bindP (acquire_lock (db_path cfg) ''stop the running secrets-server before rekeying'')
        (\<lambda>l h. let (r, h') = bindP acquire_passphrase (\<lambda>current. bindP (acquire_new_passphrase current) (\<lambda>new_passphrase.
          bindP (open_at cfg) (\<lambda>_. bindP (rekey L current new_passphrase) (\<lambda>count.
          println (''Re-encrypted '' @ decimal count @ '' secret(s) with a new master passphrase.''))))) h in (r, release_lock l h'))) h0"
      unfolding h0
    proof (rule sound_read [OF keeps_acquire_lock])
      fix l h1 assume "acquire_lock (db_path cfg) ''stop the running secrets-server before rekeying'' h = (Val l, h1)"
      from body [OF acquire_lock_console [OF this], of cfg
          "\<lambda>count. ''Re-encrypted '' @ decimal count @ '' secret(s) with a new master passphrase.''"]
      show "changes (sound_change L P) (\<lambda>h. let (r, h') = bindP acquire_passphrase (\<lambda>current. bindP (acquire_new_passphrase current) (\<lambda>new_passphrase.
          bindP (open_at cfg) (\<lambda>_. bindP (rekey L current new_passphrase) (\<lambda>count.
          println (''Re-encrypted '' @ decimal count @ '' secret(s) with a new master passphrase.''))))) h in (r, release_lock l h')) h1"
        by (simp add: changes_def Let_def case_prod_beta)
    qed
  qed
  with assms(3,4) show ?thesis by (simp add: changes_def)
qed

lemma sound_serve:
  fixes h :: host
  assumes "aead_ok L" and "set (entered Serve h) \<subseteq> P" and "sound L P (wdb h)"
  shows "sound L P (wdb (snd (serve L socket can_bind h)))"
proof -
  from serve_change [OF assms(1,2), of socket can_bind]
  have ch: "start_change L P (wdb h) (wdb (snd (serve L socket can_bind h)))" by (simp add: changes_def)
  from assms(3) have "db_wf (wdb h)" by (simp add: sound_def)
  from sound_start [OF ch assms(3) start_change_wf [OF ch this]] show ?thesis .
qed

lemma snd_bind_ret: "snd (bindP m (\<lambda>x. retP (f x)) h) = snd (m h)"
  by (auto simp: bindP_def split: prod.splits outcome.splits)

lemma sound_command:
  fixes h :: host
  assumes "aead_ok L" and "set (entered c h) \<subseteq> P" and "sound L P (wdb h)" and "unambiguous L P (wdb h)"
  shows "sound L P (wdb (snd (run_command L socket can_bind c h)))"
proof (cases c)
  case Serve
  with sound_serve [OF assms(1) _ assms(3)] assms(2) show ?thesis by (simp add: run_command_def snd_bind_ret del: entered.simps)
next
  case Rekey
  with sound_rekey_command [OF assms(1) _ assms(3,4)] assms(2) show ?thesis by (simp add: run_command_def snd_bind_ret del: entered.simps)
next
  case (Token t)
  have part: "sound L P (wdb (snd (m h)))" if "keeps secret_part m" and "preserves (\<lambda>h. db_wf (wdb h)) m" for m :: "(host, anyhow_error, unit) proc"
    using sound_part [OF keepsD [OF that(1), of h] preservesD [OF that(2)] assms(3)] assms(3) by (simp add: sound_def)
  have ls: "sound L P (wdb (snd (token_list socket h)))"
    by (rule sound_rows [OF keepsD [OF token_list_rows, of socket h] assms(3)])
  show ?thesis unfolding Token
    by (cases t) (simp_all add: run_command_def snd_bind_ret ls part token_create_part token_create_wf token_revoke_part token_revoke_wf)
qed

text \<open>Locks: only a successful start keeps one.\<close>

lemma keeps_rekey_locks: "keeps h_locks (rekey L c n :: (host, anyhow_error, nat) proc)"
proof -
  have rows: "keeps h_locks (rekey_rows L k k' its :: (host, anyhow_error, unit) proc)" for k k' its
  proof (induction its)
    case (Cons it its)
    then show ?case by (simp add: Let_def) (intro frame keeps_encrypt keeps_sql; simp)
  qed (simp add: keeps_def)
  show ?thesis
    unfolding rekey_def rekey_with_params_def rekey_tx_def store_metadata_def set_meta_def generate_salt_def
    by (intro frame keeps_get_meta keeps_verify keeps_with_tx keeps_fill_bytes keeps_encrypt keeps_sql keeps_query rows) simp_all
qed

lemma token_create_locks: "keeps h_locks (token_create L socket name project ttl)"
  unfolding token_create_def bail_def insert_token_def
  by (intro frame keeps_now_utc keeps_from_env keeps_open_at_locks keeps_generate_token keeps_println keeps_now_rfc3339 keeps_sql) simp_all

lemma token_revoke_locks: "keeps h_locks (token_revoke socket name)"
  unfolding token_revoke_def revoke_token_rows_def
  by (intro frame keeps_from_env keeps_open_at_locks keeps_println keeps_sql) simp_all

lemma token_list_locks: "keeps h_locks (token_list socket)"
  unfolding token_list_def list_tokens_rows_def
  by (intro frame keeps_from_env keeps_open_at_locks keeps_query keeps_println keeps_println_all) simp_all

lemma rekey_command_locks: "h_locks (snd (rekey_command L socket (h :: host))) = h_locks h"
proof -
  obtain r1 h1 where e: "from_env socket h = (r1, h1)" by (cases "from_env socket h")
  then have h1: "h1 = h" by (rule from_env_state)
  let ?body = "\<lambda>cfg. bindP acquire_passphrase (\<lambda>current. bindP (acquire_new_passphrase current) (\<lambda>new_passphrase.
       bindP (open_at cfg) (\<lambda>_. bindP (rekey L current new_passphrase) (\<lambda>count.
       println (''Re-encrypted '' @ decimal count @ '' secret(s) with a new master passphrase.'')))))"
  have body: "keeps h_locks (?body cfg :: (host, anyhow_error, unit) proc)" for cfg
    by (intro frame keeps_acquire_passphrase keeps_acquire_new_passphrase keeps_open_at_locks keeps_rekey_locks keeps_println) simp_all
  show ?thesis
  proof (cases r1)
    case (Val cfg)
    have "h_locks (snd (with_lock (db_path cfg) ''stop the running secrets-server before rekeying'' (?body cfg) h)) = h_locks h"
      by (rule with_lock_releases [OF body]) (rule surjective_pairing)
    with e Val h1 show ?thesis by (simp add: rekey_command_def bindP_def)
  qed (use e h1 in \<open>simp_all add: rekey_command_def bindP_def\<close>)
qed

lemma bind_ret_result: "bindP m (\<lambda>x. retP (f x)) h = (r, h') \<Longrightarrow> (\<And>y. r \<noteq> Val (f y)) \<Longrightarrow> \<exists>r'. m h = (r', h') \<and> (\<forall>x. r' \<noteq> Val x)"
  by (auto simp: bindP_def split: prod.splits outcome.splits)

lemma command_locks:
  assumes "run_command L socket can_bind c (h :: host) = (r, h')" and "\<And>K. r \<noteq> Val (Some K)"
  shows "h_locks h' = h_locks h"
proof (cases c)
  case Serve
  with assms obtain r' where "serve L socket can_bind h = (r', h')" "\<forall>x. r' \<noteq> Val x"
    unfolding run_command_def using bind_ret_result [of "serve L socket can_bind" Some h r h'] by auto
  then show ?thesis by (intro serve_fail_locks) auto
next
  case (Token t)
  have "h' = snd (run_command L socket can_bind c h)" using assms(1) by simp
  with Token show ?thesis
    by (cases t) (simp_all add: run_command_def snd_bind_ret keepsD token_create_locks token_revoke_locks token_list_locks)
next
  case Rekey
  have "h' = snd (run_command L socket can_bind c h)" using assms(1) by simp
  with Rekey show ?thesis by (simp add: run_command_def snd_bind_ret rekey_command_locks)
qed

text \<open>While the lock is held, no command touches what the server depends on.\<close>

lemma command_held:
  assumes "\<And>cfg h1. from_env socket h = (Val cfg, h1) \<Longrightarrow> lock_path (db_path cfg) \<in> set (h_locks h)"
  shows "secret_part (snd (run_command L socket can_bind c (h :: host))) = secret_part h"
proof -
  obtain r1 h1 where e: "from_env socket h = (r1, h1)" by (cases "from_env socket h")
  then have h1: "h1 = h" by (rule from_env_state)
  have acq: "\<exists>f h2. acquire_lock p hint h = (Fail f, h2) \<and> wdb h2 = wdb h" if "lock_path p \<in> set (h_locks h)" for p hint
    using that by (auto simp: acquire_lock_def bindP_def mapErrP_def query_def sql_def Let_def)
  have sv: "wdb (snd (serve L socket can_bind h)) = wdb h"
  proof (cases r1)
    case (Val cfg)
    with assms e obtain f h2 where "acquire_lock (db_path cfg) ''another secrets-server appears to be running on this database'' h = (Fail f, h2)"
      "wdb h2 = wdb h" using acq by blast
    with e Val h1 show ?thesis by (simp add: serve_def keep_lock_def bindP_def)
  qed (use e h1 in \<open>simp_all add: serve_def bindP_def\<close>)
  have rk: "wdb (snd (rekey_command L socket h)) = wdb h"
  proof (cases r1)
    case (Val cfg)
    with assms e obtain f h2 where "acquire_lock (db_path cfg) ''stop the running secrets-server before rekeying'' h = (Fail f, h2)"
      "wdb h2 = wdb h" using acq by blast
    with e Val h1 show ?thesis by (simp add: rekey_command_def with_lock_def bindP_def)
  qed (use e h1 in \<open>simp_all add: rekey_command_def bindP_def\<close>)
  show ?thesis
  proof (cases c)
    case (Token t)
    show ?thesis unfolding Token
      by (cases t) (simp_all add: run_command_def snd_bind_ret
        keepsD [OF token_create_part] keepsD [OF token_revoke_part] keepsD [OF keeps_rows_part [OF token_list_rows]])
  qed (simp_all add: run_command_def snd_bind_ret sv rk)
qed

section \<open>The invariant of the installation\<close>

definition sys_inv :: "lib \<Rightarrow> string set \<Rightarrow> string \<Rightarrow> system \<Rightarrow> bool" where
  "sys_inv L P path s \<longleftrightarrow> sound L P (sy_db s) \<and> (\<forall>(K, ps) \<in> set (sy_live s). \<exists>p \<in> P. verified_key L p (sy_db s) K) \<and>
     length (sy_live s) = count_list (sy_locks s) (lock_path path) \<and> length (sy_live s) \<le> 1"

lemma sys_inv_fresh: "fresh path s \<Longrightarrow> sys_inv L P path s"
  by (auto simp: fresh_def sys_inv_def sound_def)

lemma fresh_unambiguous: "fresh path s \<Longrightarrow> unambiguous L P (sy_db s)"
  using verified_salted by (auto simp: fresh_def unambiguous_def)

lemma live_locked: "sys_inv L P path s \<Longrightarrow> sy_live s \<noteq> [] \<longleftrightarrow> lock_path path \<in> set (sy_locks s)"
  using count_list_0_iff [of "sy_locks s" "lock_path path"]
  by (metis sys_inv_def length_0_conv)

lemma count_remove1: "x \<in> set xs \<Longrightarrow> count_list (remove1 x xs) x = count_list xs x - 1"
  by (induction xs) (auto simp: count_list_0_iff)

lemma sys_inv_step:
  assumes laws: "aead_ok L" "web_ok W" and un: "unambiguous L P (sy_db s)"
    and step: "sys_step L W socket can_bind path P s s'" and inv: "sys_inv L P path s"
  shows "sys_inv L P path s'"
  using step
proof (cases rule: sys_step.cases)
  case (started h K h')
  then have db: "wdb h = sy_db s" and lk: "h_locks h = sy_locks s"
    and path: "\<And>cfg h1. from_env socket h = (Val cfg, h1) \<Longrightarrow> db_path cfg = path" by (auto simp: runs_on_def)
  from started(4) have srv: "serve L socket can_bind h = (Val K, h')" by (auto simp: run_command_def bindP_Val_iff)
  from serve_ValD [OF laws(1) srv] obtain cfg p where cfg: "from_env socket h = (Val cfg, h)"
    and ent: "fst (acquire_passphrase h) = Val p"
    and v: "verified_key L p (wdb h') K" and free: "lock_path (db_path cfg) \<notin> set (h_locks h)"
    and taken: "h_locks h' = lock_path (db_path cfg) # h_locks h" by blast
  have idle: "sy_live s = []" using live_locked [OF inv] free path [OF cfg] lk by auto
  have p: "p \<in> P" using ent started(3) by (cases "acquire_passphrase h") auto
  have "sound L P (wdb (snd (serve L socket can_bind h)))"
    by (rule sound_serve [OF laws(1) started(3)]) (use inv db in \<open>simp add: sys_inv_def\<close>)
  with srv have "sound L P (wdb h')" by simp
  with idle free taken p v started(1) path [OF cfg] lk show ?thesis
    by (auto simp: sys_inv_def count_notin)
next
  case (command h c r h')
  then have db: "wdb h = sy_db s" and lk: "h_locks h = sy_locks s"
    and path: "\<And>cfg h1. from_env socket h = (Val cfg, h1) \<Longrightarrow> db_path cfg = path" by (auto simp: runs_on_def)
  have locks: "h_locks h' = h_locks h" by (rule command_locks [OF command(4)]) (rule command(5))
  have h': "h' = snd (run_command L socket can_bind c h)" using command(4) by simp
  have snd': "sound L P (wdb h')" unfolding h'
    by (rule sound_command [OF laws(1) command(3)]) (use inv un db in \<open>simp_all add: sys_inv_def\<close>)
  have "\<exists>p \<in> P. verified_key L p (wdb h') K" if K: "(K, ps) \<in> set (sy_live s)" for K ps
  proof -
    from K live_locked [OF inv] lk have "lock_path path \<in> set (h_locks h)" by auto
    with path have "lock_path (db_path cfg) \<in> set (h_locks h)" if "from_env socket h = (Val cfg, h1)" for cfg h1
      using that by simp
    from command_held [OF this] h' db have "db_meta (wdb h') = db_meta (sy_db s)" by simp
    with K inv verified_key_meta [of "wdb h'" "sy_db s"] show ?thesis by (auto simp: sys_inv_def)
  qed
  with snd' locks lk inv command(1) show ?thesis by (auto simp: sys_inv_def)
next
  case (arrived pre K ps post req)
  with inv show ?thesis by (auto simp: sys_inv_def)
next
  case (advanced pre K ps post i req st w st' w')
  with inv have only: "pre = []" "post = []" by (auto simp: sys_inv_def)
  from advanced inv obtain p where p: "p \<in> P" "verified_key L p (wdb w) K" and snd: "sound L P (wdb w)" by (auto simp: sys_inv_def)
  from un advanced(5) have "unambiguous L P (wdb w)" by simp
  from sound_advance [OF laws snd this p advanced(6)] p(1) advanced(1,2) inv only show ?thesis by (auto simp: sys_inv_def)
next
  case (stopped pre K ps post)
  with inv have live: "pre = []" "post = []" by (auto simp: sys_inv_def)
  with live_locked [OF inv] stopped(2) have "lock_path path \<in> set (sy_locks s)" by simp
  with inv stopped live show ?thesis by (simp add: sys_inv_def count_remove1)
qed

lemma sys_inv_reachable:
  assumes "aead_ok L" "web_ok W" and "(clear_step L W socket can_bind path P)\<^sup>*\<^sup>* s s'" and "fresh path s"
  shows "sys_inv L P path s' \<and> unambiguous L P (sy_db s')"
  using assms(3)
proof (induction rule: rtranclp_induct)
  case base
  show ?case using sys_inv_fresh [OF assms(4)] fresh_unambiguous [OF assms(4)] by blast
next
  case (step s1 s2)
  then show ?case using sys_inv_step [OF assms(1,2)] by (auto simp: clear_step_def)
qed

end
