(* ===== verification/CommandResults.thy ===== *)
theory CommandResults
  imports CommandEffects RekeyVault
begin

text \<open>
  What the commands return. On a host where no statement fails, with the right passphrase and
  a free lock, opening, first initialisation and serving complete; a rekey that returns has
  moved the vault to the new passphrase; a token that is printed works; and the passphrase
  accepted comes from the first source that is set.
\<close>

section \<open>Opening and initialising\<close>

lemma open_db_ok:
  fixes w :: "'m world_scheme"
  assumes "wio w = []"
  shows "\<exists>d. open_db w = (Val (), w\<lparr>wdb := d\<rparr>) \<and> db_rows d = db_rows (wdb w)"
proof -
  let ?d = "create_table ''tokens'' (create_table ''secrets'' (create_table ''projects'' (create_table ''meta'' (wdb w))))"
  let ?d' = "if ''expires_at'' \<notin> set (db_token_columns ?d) then add_token_column ''expires_at'' ?d else ?d"
  have "open_db w = (Val (), w\<lparr>wdb := ?d'\<rparr>)"
    using assms by (simp add: open_db_def migrate_def bindP_def column_exists_def sql_def)
  moreover have "db_rows ?d' = db_rows (wdb w)" by simp
  ultimately show ?thesis by blast
qed

lemma open_at_ok:
  fixes w :: "'m world_scheme"
  assumes "wio w = []"
  shows "\<exists>d. open_at cfg w = (Val (), w\<lparr>wdb := d\<rparr>) \<and> db_rows d = db_rows (wdb w)"
proof -
  from open_db_ok [OF assms] obtain d where "open_db w = (Val (), w\<lparr>wdb := d\<rparr>)" "db_rows d = db_rows (wdb w)" by blast
  with assms show ?thesis by (auto simp: open_at_def bindP_def mapErrP_def)
qed

lemma initialize_succeeds:
  fixes w :: "'m world_scheme"
  assumes "aead_ok L" and "argon2_ok L" and q: "wio w = []" and "40 \<le> length (entropy w)"
    and key: "derive_key L p (take 16 (entropy w)) kdf_strong = Inr K"
  shows "\<exists>w'. initialize L p w = (Val K, w') \<and> wio w' = []"
proof -
  let ?w = "w\<lparr>entropy := drop 16 (entropy w)\<rparr>"
  have gen: "generate_salt w = (Val (take 16 (entropy w)) :: (anyhow_error, byte list) outcome, ?w)"
    using assms(4) by (simp add: generate_salt_def fill_bytes_def)
  have "24 \<le> length (entropy ?w)" "length SENTINEL < 2 ^ 32" using assms(4) by (simp_all add: SENTINEL_def)
  from encrypt_succeeds [OF assms(1) derive_key_ok [OF assms(2) key] this, of verifier_aad] obtain c where
    enc: "encrypt L K SENTINEL verifier_aad ?w = (Val (take 24 (entropy ?w), c), ?w\<lparr>entropy := drop 24 (entropy ?w)\<rparr>)" .
  let ?w2 = "?w\<lparr>entropy := drop 24 (entropy ?w)\<rparr>"
  have q2: "wio ?w2 = []" using q by simp
  let ?st = "mapErrP EDatabase (store_metadata (take 16 (entropy w)) kdf_strong (take 24 (entropy ?w)) c)"
  obtain w3 where "with_tx EDatabase ?st ?w2 = (Val (), w3)" "wio w3 = []"
    using with_tx_quiet [OF q2, of ?st "()"] store_metadata_ok [OF q2] q2 by (auto simp: mapErrP_def)
  then show ?thesis
    by (simp add: initialize_def initialize_with_params_def bindP_def [of generate_salt] gen key bindP_def mapErrP_def [of ECrypto] enc del: drop_drop)
qed

text \<open>The key a start will serve with: of the passphrase, under the stored salt, or under a fresh
  one when there is none.\<close>

definition start_key :: "lib \<Rightarrow> string \<Rightarrow> 'm world_scheme \<Rightarrow> master_key \<Rightarrow> bool" where
  "start_key L p w K \<longleftrightarrow> (if salted (wdb w) then verified_key L p (wdb w) K
     else 40 \<le> length (entropy w) \<and> derive_key L p (take 16 (entropy w)) kdf_strong = Inr K)"

lemma init_or_verify_succeeds:
  fixes w :: "'m world_scheme"
  assumes "aead_ok L" and "argon2_ok L" and "wio w = []" and "start_key L p w K"
  shows "\<exists>w'. init_or_verify L p w = (Val K, w') \<and> wio w' = []"
proof (cases "salted (wdb w)")
  case True
  with assms(4) have "verified_key L p (wdb w) K" by (simp add: start_key_def)
  from init_or_verify_known [OF assms(3) this] assms(3) show ?thesis by blast
next
  case False
  then have no: "map_of (db_meta (wdb w)) K_SALT = None" by (simp add: salted_def)
  from False assms(4) have e: "40 \<le> length (entropy w)" and k: "derive_key L p (take 16 (entropy w)) kdf_strong = Inr K"
    by (simp_all add: start_key_def)
  from initialize_succeeds [OF assms(1-3) e k] no assms(3) show ?thesis
    by (simp add: init_or_verify_def bindP_def get_meta_def mapErrP_def)
qed

section \<open>Serving\<close>

lemma serve_succeeds:
  fixes h :: host
  assumes L: "aead_ok L" "argon2_ok L" and q: "wio h = []"
    and cfg: "from_env socket h = (Val cfg, h)" and free: "lock_path (db_path cfg) \<notin> set (h_locks h)"
    and pass: "acquire_passphrase (h\<lparr>h_locks := lock_path (db_path cfg) # h_locks h\<rparr>) = (Val p, h1)"
    and quiet: "wio h1 = []" and key: "start_key L p h1 K" and bind: "can_bind (bind_addr cfg)"
    and log: "log_ok (h_files h1) (audit_path cfg)"
  shows "\<exists>h'. serve L socket can_bind h = (Val K, h')"
proof -
  have lock: "acquire_lock (db_path cfg) m h = (Val (lock_path (db_path cfg)), h\<lparr>h_locks := lock_path (db_path cfg) # h_locks h\<rparr>)" for m
    using q free by (simp add: acquire_lock_eq try_lock_def)
  from open_at_ok [OF quiet, of cfg] obtain d where op: "open_at cfg h1 = (Val (), h1\<lparr>wdb := d\<rparr>)" and d: "db_rows d = db_rows (wdb h1)" by blast
  let ?h2 = "h1\<lparr>wdb := d\<rparr>"
  have q2: "wio ?h2 = []" using quiet by simp
  have "db_meta (wdb ?h2) = db_meta (wdb h1)" using d by (simp add: db_rows_def)
  then have "start_key L p ?h2 K = start_key L p h1 K"
    by (simp add: start_key_def salted_def verified_key_def meta_params_def opens_verifier_def)
  then have k2: "start_key L p ?h2 K" using key by blast
  from init_or_verify_succeeds [OF L q2 k2] obtain h3 where iv: "init_or_verify L p ?h2 = (Val K, h3)" "wio h3 = []" by blast
  have "h_files h3 = h_files h1" using keepsD' [OF keeps_init_or_verify iv(1), of h_files] by simp
  with log have "log_ok (h_files h3) (audit_path cfg)" by simp
  from audit_open_ok [OF iv(2) this] obtain h4 where au: "audit_open (audit_path cfg) h3 = (Val (), h4)" by blast
  from iv(1) au bind lock pass op cfg show ?thesis
    by (simp add: serve_def bindP_def keep_lock_def retP_def)
qed

section \<open>Rekeying\<close>

lemma acquire_new_passphrase_ValD: "acquire_new_passphrase cur h = (Val p, h') \<Longrightarrow> p \<noteq> [] \<and> p \<noteq> cur"
  by (auto simp: acquire_new_passphrase_def bail_def bindP_Val_iff split: option.splits if_splits)

lemma db_wf_cong: "db_rows d = db_rows e \<Longrightarrow> db_wf e \<Longrightarrow> db_wf d"
  using db_wf_rows by blast

lemma vault_cong: "db_rows d = db_rows e \<Longrightarrow> vault L K d = vault L K e"
  by (simp add: vault_def find_project_def find_secret_def db_rows_def fun_eq_iff)

lemma println_Val_iff: "println s h = (Val u, h') \<longleftrightarrow> h' = h\<lparr>h_out := h_out h @ [s]\<rparr>"
  by (auto simp: println_def)

lemma with_lock_Val_iff: "with_lock p hint body h = (Val x, h') \<longleftrightarrow>
    (\<exists>l h1 h2. acquire_lock p hint h = (Val l, h1) \<and> body h1 = (Val x, h2) \<and> h' = release_lock l h2)"
proof -
  have "(let (r, h') = body h1 in (r, release_lock l h')) = (Val x, h') \<longleftrightarrow> (\<exists>h2. body h1 = (Val x, h2) \<and> h' = release_lock l h2)" for l h1
    by (cases "body h1") auto
  then show ?thesis by (simp add: with_lock_def bindP_Val_iff)
qed

lemma rekey_command_ValD:
  fixes h :: host
  assumes L: "aead_ok L" and wf: "db_wf (wdb h)" and run: "rekey_command L socket h = (Val u, h')"
  shows "\<exists>cur new K K' n. fst (acquire_passphrase h) = Val cur \<and> new \<noteq> [] \<and> new \<noteq> cur \<and>
    verified_key L cur (wdb h) K \<and> verified_key L new (wdb h') K' \<and> vault L K' (wdb h') = vault L K (wdb h) \<and>
    n = length (db_secrets (wdb h)) \<and>
    last (h_out h') = ''Re-encrypted '' @ decimal n @ '' secret(s) with a new master passphrase.''"
proof -
  from run obtain cfg h0 where e: "from_env socket h = (Val cfg, h0)"
    and rest: "with_lock (db_path cfg) ''stop the running secrets-server before rekeying''
       (bindP acquire_passphrase (\<lambda>current. bindP (acquire_new_passphrase current) (\<lambda>new_passphrase.
        bindP (open_at cfg) (\<lambda>_. bindP (rekey L current new_passphrase) (\<lambda>count.
        println (''Re-encrypted '' @ decimal count @ '' secret(s) with a new master passphrase.'')))))) h0 = (Val u, h')"
    unfolding rekey_command_def by (rule bindP_ValE)
  have h0: "h0 = h" by (rule from_env_state [OF e])
  from rest obtain l h1 cur h2 new h3 h4 n h5 where
      l: "acquire_lock (db_path cfg) ''stop the running secrets-server before rekeying'' h = (Val l, h1)"
    and p: "acquire_passphrase h1 = (Val cur, h2)" and np: "acquire_new_passphrase cur h2 = (Val new, h3)"
    and op: "open_at cfg h3 = (Val (), h4)" and rk: "rekey L cur new h4 = (Val n, h5)"
    and h': "h' = release_lock l (h5\<lparr>h_out := h_out h5 @ [''Re-encrypted '' @ decimal n @ '' secret(s) with a new master passphrase.'']\<rparr>)"
    unfolding h0 with_lock_Val_iff bindP_Val_iff println_Val_iff by auto
  from l have h1: "h_env h1 = h_env h" "h_files h1 = h_files h" "h_terminal h1 = h_terminal h" "h_inputs h1 = h_inputs h" "wdb h1 = wdb h"
    by (auto simp: acquire_lock_def bindP_Val_iff elim!: query_ValE split: if_splits)
  have "wdb h2 = wdb h1" by (rule keepsD' [OF keeps_acquire_passphrase p]) simp
  moreover have "wdb h3 = wdb h2" by (rule keepsD' [OF keeps_acquire_new_passphrase np]) simp
  moreover have "rows h4 = rows h3" by (rule keepsD' [OF keeps_open_at op])
  ultimately have r4: "db_rows (wdb h4) = db_rows (wdb h)" using h1(5) by simp
  from rekey_ValD [OF L db_wf_cong [OF r4 wf] rk] same_secrets_vault [OF _ db_wf_cong [OF r4 wf]]
  obtain K K' where v: "verified_key L cur (wdb h4) K" "verified_key L new (wdb h5) K'" and n: "n = length (db_secrets (wdb h4))"
    and va: "vault L K' (wdb h5) = vault L K (wdb h4)" by blast
  have "verified_key L cur (wdb h) K" using verified_key_cong [OF r4] v(1) by blast
  moreover have "vault L K' (wdb h5) = vault L K (wdb h)" using va vault_cong [OF r4] by metis
  moreover have "n = length (db_secrets (wdb h))" using n r4 by (simp add: db_rows_def)
  moreover have "wdb h' = wdb h5" "last (h_out h') = ''Re-encrypted '' @ decimal n @ '' secret(s) with a new master passphrase.''"
    unfolding h' by (simp_all add: release_lock_def)
  moreover have "fst (acquire_passphrase h) = Val cur" using acquire_passphrase_fst [OF h1(1-4)] p by simp
  ultimately show ?thesis using acquire_new_passphrase_ValD [OF np] v(2) by metis
qed

section \<open>Tokens\<close>

lemma keeps_out_open_at: "keeps h_out (open_at cfg)"
  unfolding open_at_def open_db_def migrate_def column_exists_def by (intro frame keeps_query keeps_sql) simp_all

lemma token_create_ValD:
  fixes h :: host
  assumes time: "time_ok L" and run: "token_create L socket name project ttl h = (Val u, h')"
  shows "valid_name name \<and> (\<forall>p. project = Some p \<longrightarrow> valid_name p) \<and> ttl \<noteq> Some 0 \<and>
    (\<forall>now. (\<forall>days. ttl = Some days \<longrightarrow> now < wclock h (wtick h) + int (unat days) * 86400 * 10 ^ 9) \<longrightarrow>
      who L now (hash_token L (last (h_out h'))) (db_tokens (wdb h')) = Some \<lparr>at_name = name, at_scope = project\<rparr>)"
proof -
  from run have ok: "valid_name name" "\<forall>p. project = Some p \<longrightarrow> valid_name p" "ttl \<noteq> Some 0"
    by (auto simp: token_create_def bail_def split: if_splits)
  from run ok have "\<not> (case project of Some p \<Rightarrow> \<not> valid_name p | None \<Rightarrow> False)" by (auto split: option.splits)
  with run ok obtain e h1 cfg h2 u1 h3 t h4 u2 h5 l1 l2 l3 l4 where
      exp: "(case ttl of None \<Rightarrow> retP None
        | Some days \<Rightarrow> bindP now_utc (\<lambda>now. case date_add_days L now (unat days) of
            None \<Rightarrow> panicP
          | Some t \<Rightarrow> bindP (okOrP (EMessage ''failed to format expiry timestamp'') (rfc3339_format L t)) (\<lambda>s. retP (Some s)))) h = (Val e, h1)"
    and ins: "insert_token L name (hash_token L t) project e h4 = (Val u2, h5)"
    and out: "h' = h5\<lparr>h_out := h_out h5 @ [l1, l2, l3, l4, t]\<rparr>"
    unfolding token_create_def by (simp add: bindP_Val_iff println_Val_iff) blast
  from out have h': "wdb h' = wdb h5" "last (h_out h') = t" by simp_all
  from insert_token_ValD [OF ins] obtain ts where
    tk: "db_tokens (wdb h5) = db_tokens (wdb h4) @ [new_token_row name (hash_token L t) project e ts (db_tokens (wdb h4))]" by auto
  have "unexpired L now e" if now: "\<forall>days. ttl = Some days \<longrightarrow> now < wclock h (wtick h) + int (unat days) * 86400 * 10 ^ 9" for now
  proof (cases ttl)
    case None
    with exp show ?thesis by (simp add: unexpired_def)
  next
    case (Some days)
    with exp obtain at s where at: "date_add_days L (wclock h (wtick h)) (unat days) = Some at" and s: "rfc3339_format L at = Some s" and e: "e = Some s"
      by (auto simp: bindP_Val_iff now_utc_Val_iff split: option.splits)
    from time at have "at = wclock h (wtick h) + int (unat days) * 86400 * 10 ^ 9" unfolding time_ok_def by blast
    moreover from time s have "rfc3339_parse L s = Some at" unfolding time_ok_def by blast
    ultimately show ?thesis using Some now by (simp add: unexpired_def e)
  qed
  with ok tk h' show ?thesis by (auto simp: who_append admits_new_token identity_new_token)
qed

section \<open>The passphrase\<close>

text \<open>What a file yields: readable, regular, not a link, closed to group and others when the
  operator keeps it, UTF-8, and without one trailing line end.\<close>

definition file_passphrase :: "'m host_scheme \<Rightarrow> passphrase_file_mode \<Rightarrow> string \<Rightarrow> string \<Rightarrow> bool" where
  "file_passphrase h mode path p \<longleftrightarrow> (\<exists>m text. h_files h path = Some (RegularFile m True (str_bytes text)) \<and> is_str text \<and>
     (mode = OwnerOnly \<longrightarrow> m mod 64 = 0) \<and> p = strip_single_trailing_newline text)"

definition passphrase_source :: "'m host_scheme \<Rightarrow> string \<Rightarrow> bool" where
  "passphrase_source h p \<longleftrightarrow> (case env_var h ''SECRETS_PASSPHRASE'' of
     Some q \<Rightarrow> p = q
   | None \<Rightarrow> (case env_var_os h ''SECRETS_PASSPHRASE_FILE'' of
     Some path \<Rightarrow> file_passphrase h OwnerOnly path p
   | None \<Rightarrow> (case systemd_credential_path h SYSTEMD_PASSPHRASE_CREDENTIAL of
     Some path \<Rightarrow> file_passphrase h SystemdCredential path p
   | None \<Rightarrow> h_terminal h \<and> (\<exists>rest. h_inputs h = Some p # rest))))"

lemma acquire_passphrase_ValD:
  "acquire_passphrase h = (Val p, h') \<Longrightarrow> p \<noteq> [] \<and> passphrase_source h p"
  by (auto simp: acquire_passphrase_def passphrase_source_def file_passphrase_def read_passphrase_file_Val bail_def
      bindP_Val_iff prompt_password_def from_utf8_Some split: option.splits if_splits list.splits)

section \<open>The lock\<close>

lemma held_lock_refuses:
  fixes h :: host
  assumes e: "from_env socket h = (Val cfg, h1)" and held: "lock_path (db_path cfg) \<in> set (h_locks h)"
    and c: "c = Serve \<or> c = Rekey"
  shows "\<exists>e h'. run_command L socket can_bind c h = (Fail e, h') \<and> wdb h' = wdb h \<and> h_locks h' = h_locks h"
proof -
  have h1: "h1 = h" by (rule from_env_state [OF e])
  have acq: "\<exists>f h2. acquire_lock (db_path cfg) hint h = (Fail f, h2) \<and> wdb h2 = wdb h \<and> h_locks h2 = h_locks h" for hint
    using held by (auto simp: acquire_lock_def bindP_def mapErrP_def query_def sql_def Let_def)
  from c show ?thesis
  proof
    assume c: "c = Serve"
    obtain f h2 where "acquire_lock (db_path cfg) ''another secrets-server appears to be running on this database'' h = (Fail f, h2)"
      "wdb h2 = wdb h \<and> h_locks h2 = h_locks h" using acq by blast
    with e h1 show ?thesis by (simp add: c run_command_def serve_def keep_lock_def bindP_def)
  next
    assume c: "c = Rekey"
    obtain f h2 where "acquire_lock (db_path cfg) ''stop the running secrets-server before rekeying'' h = (Fail f, h2)"
      "wdb h2 = wdb h \<and> h_locks h2 = h_locks h" using acq by blast
    with e h1 show ?thesis by (simp add: c run_command_def rekey_command_def with_lock_def bindP_def)
  qed
qed

lemma valid_name_is_valid_project: "valid_name = valid_project"
  by (simp add: valid_name_def valid_project_def fun_eq_iff)

end
