(* ===== verification/CommandProperties.thy ===== *)
theory CommandProperties
  imports Samples System CommandResults
begin

text \<open>
  The properties of the installation as a whole: the server binary's commands, the lock
  between them, the passphrases they accept, and what stays true of the database whatever
  sequence of processes and requests works on it.
\<close>

section \<open>Samples\<close>

text \<open>A host with the passphrase in the environment, on a given database.\<close>

definition toy_host :: "database \<Rightarrow> string list \<Rightarrow> host" where
  "toy_host d locks = \<lparr>entropy = str_bytes ''p'' @ replicate 200 3, wdb = d, wio = [], wtick = 0, wclock = (\<lambda>_. 0),
     h_env = [''SECRETS_PASSPHRASE'' \<mapsto> str_bytes ''p'', ''SECRETS_NEW_PASSPHRASE'' \<mapsto> str_bytes ''q''],
     h_files = Map.empty, h_terminal = False, h_inputs = [], h_locks = locks, h_out = []\<rparr>"

definition toy_socket :: "string \<Rightarrow> socket_addr option" where
  "toy_socket s = Some \<lparr>sa_text = s, sa_loopback = True\<rparr>"

definition toy_config :: config where
  "toy_config = \<lparr>db_path = ''secrets.db'', audit_path = ''audit.jsonl'', bind_addr = \<lparr>sa_text = ''127.0.0.1:8787'', sa_loopback = True\<rparr>\<rparr>"

lemma toy_host_simps [simp]: "wio (toy_host d l) = []" "wdb (toy_host d l) = d" "h_locks (toy_host d l) = l" "h_files (toy_host d l) = Map.empty"
  by (simp_all add: toy_host_def)

lemma toy_config_from_env: "from_env toy_socket (toy_host d l) = (Val toy_config, toy_host d l)"
  by (simp add: from_env_def bindP_def getP_def okOrP_def toy_socket_def toy_config_def env_var_def env_var_os_def toy_host_def)

lemma toy_lock_path: "lock_path (db_path toy_config) = ''secrets.db.lock''"
  by (simp add: toy_config_def lock_path_def file_name_def split_path_def with_file_name_def parent_text_def path_join_def)

definition toy_fresh :: system where
  "toy_fresh = \<lparr>sy_db = empty_db, sy_locks = [], sy_live = []\<rparr>"

lemma toy_fresh_ok: "fresh ''secrets.db'' toy_fresh"
  by (simp add: fresh_def toy_fresh_def empty_db_def db_wf_def projects_wf_def secrets_wf_def salted_def)

lemma toy_runs_on: "runs_on toy_socket ''secrets.db'' (toy_host d l) \<lparr>sy_db = d, sy_locks = l, sy_live = ks\<rparr>"
  using toy_config_from_env [of d l] by (simp add: runs_on_def) (simp add: toy_config_def)

lemma toy_p: "is_str ''p''" "is_str ''q''"
  by (rule ascii_is_str, simp add: ascii_str_def)+

lemma toy_passphrase: "acquire_passphrase (toy_host d l) = (Val ''p'', toy_host d l)"
  by (simp add: acquire_passphrase_def env_var_def toy_host_def toy_p retP_def)

text \<open>The key of a first start on that host.\<close>

definition the_key :: "string \<Rightarrow> master_key" where
  "the_key p = (case derive_key toy_lib p (take 16 (entropy (toy_host empty_db []))) kdf_strong of Inr K \<Rightarrow> K | Inl _ \<Rightarrow> MasterKey [])"

lemma the_key: "derive_key toy_lib p (take 16 (entropy (toy_host d l))) kdf_strong = Inr (the_key p)"
proof -
  have "entropy (toy_host d l) = entropy (toy_host empty_db [])" by (simp add: toy_host_def)
  moreover obtain k where "derive_key toy_lib p (take 16 (entropy (toy_host empty_db []))) kdf_strong = Inr k"
    using toy_derive by blast
  ultimately show ?thesis by (simp add: the_key_def)
qed

lemma toy_locked: "(toy_host d l)\<lparr>h_locks := l'\<rparr> = toy_host d l'"
  by (simp add: toy_host_def)

lemma toy_start_key: "start_key toy_lib ''p'' (toy_host empty_db l) (the_key ''p'')"
proof -
  have "40 \<le> length (entropy (toy_host empty_db l))" by (simp add: toy_host_def)
  moreover have "\<not> salted empty_db" by (simp add: salted_def empty_db_def)
  ultimately show ?thesis by (simp add: start_key_def the_key)
qed

lemma toy_log_ok: "log_ok Map.empty (audit_path toy_config)"
proof -
  have "path_parent (audit_path toy_config) = Some []"
    by (simp add: toy_config_def path_parent_def split_path_def parent_text_def)
  then show ?thesis by (simp add: log_ok_def make_dirs_def) (simp add: toy_config_def)
qed

lemma toy_serves: "\<exists>h'. serve toy_lib toy_socket (\<lambda>_. True) (toy_host empty_db []) = (Val (the_key ''p''), h')"
  by (rule serve_succeeds [OF toy_aead toy_argon2_ok _ toy_config_from_env _ _ _ toy_start_key])
    (simp_all add: toy_locked toy_passphrase toy_log_ok)

lemma toy_new_passphrase: "acquire_new_passphrase ''p'' (toy_host d l) = (Val ''q'', toy_host d l)"
  by (simp add: acquire_new_passphrase_def env_var_def toy_p) (simp add: toy_host_def toy_p env_var_def retP_def)

lemma toy_rekeys: "\<exists>h'. rekey_command toy_lib toy_socket (toy_host toy_db []) = (Val (), h')"
proof -
  let ?h = "toy_host toy_db [''secrets.db.lock'']"
  obtain d where op: "open_at toy_config ?h = (Val (), ?h\<lparr>wdb := d\<rparr>)" and d: "db_rows d = db_rows toy_db"
    using open_at_ok [of ?h toy_config] by auto
  let ?w = "?h\<lparr>wdb := d\<rparr>"
  have items: "rekey_items d = rekey_items toy_db"
    using d by (simp add: rekey_items_def project_of_row_def db_rows_def)
  have "\<exists>w'. rekey toy_lib ''p'' ''q'' ?w = (Val (length (rekey_items (wdb ?w))), w') \<and> wio w' = []"
    unfolding rekey_def
  proof (rule rekey_succeeds_lemma [OF toy_aead toy_argon2_ok])
    show "verified_key toy_lib ''p'' (wdb ?w) toy_key" using verified_key_cong [OF d] toy_verified by simp
    show "\<forall>it \<in> set (rekey_items (wdb ?w)). opens_short toy_lib toy_key it" using toy_items_open items by simp
    show "16 + 24 * Suc (length (rekey_items (wdb ?w))) \<le> length (entropy ?w)" by (simp add: items toy_items) (simp add: toy_host_def)
    show "derive_key toy_lib ''q'' (take 16 (entropy ?w)) kdf_strong = Inr (the_key ''q'')" using the_key by simp
  qed simp_all
  with op show ?thesis
    using acquire_lock_eq [of "toy_host toy_db []" "db_path toy_config"]
    by (auto simp: rekey_command_def bindP_def toy_config_from_env with_lock_def toy_lock_path try_lock_def toy_locked toy_passphrase
        toy_new_passphrase println_def)
qed

lemma toy_creates: "\<exists>h'. token_create toy_lib toy_socket ''new'' None (Some 1) (toy_host toy_db []) = (Val (), h')"
proof -
  let ?h = "(toy_host toy_db [])\<lparr>wtick := 1\<rparr>"
  obtain d where op: "open_at toy_config ?h = (Val (), ?h\<lparr>wdb := d\<rparr>)"
    using open_at_ok [of ?h toy_config] by auto
  have "valid_name ''new''" by (simp add: valid_name_def is_ascii_alnum_def)
  moreover have "from_env toy_socket ?h = (Val toy_config, ?h)"
    by (simp add: from_env_def bindP_def getP_def okOrP_def toy_socket_def toy_config_def env_var_def env_var_os_def toy_host_def)
  moreover have "date_add_days toy_lib 0 1 = Some (86400 * 10 ^ 9)" by (simp add: toy_lib_def)
  moreover have "rfc3339_format toy_lib t = Some (bytes_str (le_bytes 10 (nat t)))" if "0 \<le> t" "t < 2 ^ 80" for t
    using that by (simp add: toy_lib_def toy_format_def)
  moreover have "wclock (toy_host toy_db []) n = 0" "wtick (toy_host toy_db []) = 0" "32 \<le> length (entropy (toy_host toy_db []))" for n
    by (simp_all add: toy_host_def)
  ultimately show ?thesis using op
    by (simp add: token_create_def bindP_def now_utc_def generate_token_def fill_bytes_def mapErrP_def insert_token_def
        now_rfc3339_def sql_def println_def)
qed

section \<open>The installation\<close>

text \<open>C2: the secrets stay readable by whoever serves them. In every state reached from an empty
  installation by starts, stops, commands and requests whose sections interleave in any order,
  with any statements failing, at most one server runs, and its key opens the verifier and
  every stored secret; and so does the key of every passphrase entered in the run that the
  database accepts. Assumed of each state reached: no two of the passphrases entered in the run
  open the verifier stored there with different keys. A run with one passphrase meets it
  whatever the cipher does; of a run with several it excludes that a wrong passphrase passes
  the authentication tag of the stored verifier by accident.\<close>
theorem installation_stays_readable:
  assumes "aead_ok L" and "web_ok W" and "(clear_step L W socket can_bind path P)\<^sup>*\<^sup>* s s'" and "fresh path s"
  shows "length (sy_live s') \<le> 1 \<and>
    (\<forall>(K, ps) \<in> set (sy_live s'). (\<exists>p \<in> P. verified_key L p (sy_db s') K) \<and> readable L K (sy_db s')) \<and>
    (\<forall>p \<in> P. \<forall>K. verified_key L p (sy_db s') K \<longrightarrow> readable L K (sy_db s')) \<and>
    (db_secrets (sy_db s') \<noteq> [] \<longrightarrow> (\<exists>p \<in> P. \<exists>K. verified_key L p (sy_db s') K)) \<and> db_wf (sy_db s')"
proof -
  from sys_inv_reachable [OF assms] have inv: "sys_inv L P path s'" and un: "unambiguous L P (sy_db s')" by simp_all
  from inv have snd: "sound L P (sy_db s')" by (simp add: sys_inv_def)
  have "readable L K (sy_db s')" if "p \<in> P" "verified_key L p (sy_db s') K" for p K
    using sound_readable [OF snd un that] by simp
  with inv snd show ?thesis by (fastforce simp: sys_inv_def sound_def)
qed

text \<open>A server starts, and a request arrives.\<close>

theorem installation_stays_readable_witness:
  "\<exists>K s'. (clear_step toy_lib toy_web toy_socket (\<lambda>_. True) ''secrets.db'' {''p''})\<^sup>*\<^sup>* toy_fresh s' \<and>
     sy_live s' = [(K, [(toy_put, Arrived)])] \<and> verified_key toy_lib ''p'' (sy_db s') K \<and> readable toy_lib K (sy_db s')"
proof -
  let ?K = "the_key ''p''" and ?step = "clear_step toy_lib toy_web toy_socket (\<lambda>_. True) ''secrets.db'' {''p''}"
  obtain h' where run: "serve toy_lib toy_socket (\<lambda>_. True) (toy_host empty_db []) = (Val ?K, h')" using toy_serves by blast
  let ?s = "\<lparr>sy_db = wdb h', sy_locks = h_locks h', sy_live = [(?K, [])]\<rparr>"
  from run have "run_command toy_lib toy_socket (\<lambda>_. True) Serve (toy_host empty_db []) = (Val (Some ?K), h')"
    by (simp add: run_command_def bindP_def)
  from sys_step.started [OF toy_runs_on _ this, of "{''p''}" toy_web] have start: "?step toy_fresh ?s"
    by (simp add: toy_fresh_def toy_passphrase clear_step_def unambiguous_single)
  have "sys_step toy_lib toy_web toy_socket (\<lambda>_. True) ''secrets.db'' {''p''} ?s (?s\<lparr>sy_live := [] @ (?K, [] @ [(toy_put, Arrived)]) # []\<rparr>)"
    by (rule sys_step.arrived) simp
  then have "?step ?s (?s\<lparr>sy_live := [(?K, [(toy_put, Arrived)])]\<rparr>)" by (simp add: clear_step_def unambiguous_single)
  with start have reach: "?step\<^sup>*\<^sup>* toy_fresh (?s\<lparr>sy_live := [(?K, [(toy_put, Arrived)])]\<rparr>)"
    by (simp add: converse_rtranclp_into_rtranclp r_into_rtranclp)
  with installation_stays_readable [OF toy_aead toy_web_ok reach toy_fresh_ok]
  show ?thesis by (intro exI [of _ ?K] exI [of _ "?s\<lparr>sy_live := [(?K, [(toy_put, Arrived)])]\<rparr>"]) simp
qed

text \<open>C36: one process at a time. While the lock of the database is held, a second server and a
  rekey end with an error, and neither the tables nor the locks change.\<close>
theorem lock_excludes_serve_and_rekey:
  assumes "from_env socket h = (Val cfg, h1)" and "lock_path (db_path cfg) \<in> set (h_locks (h :: host))" and "c = Serve \<or> c = Rekey"
  shows "\<exists>e h'. run_command L socket can_bind c h = (Fail e, h') \<and> wdb h' = wdb h \<and> h_locks h' = h_locks h"
  by (rule held_lock_refuses [OF assms])

theorem lock_excludes_serve_and_rekey_witness:
  "\<exists>e h'. run_command toy_lib toy_socket (\<lambda>_. True) Rekey (toy_host toy_db [''secrets.db.lock'']) = (Fail e, h') \<and> wdb h' = toy_db"
  using lock_excludes_serve_and_rekey [OF toy_config_from_env, of toy_db "[''secrets.db.lock'']" Rekey toy_lib "\<lambda>_. True"]
  by (auto simp: toy_lock_path)

text \<open>The rekey command is all or nothing, and gives its lock back. Either it succeeds or
  the rows of every table are as before, whichever step or statement failed.\<close>
theorem rekey_command_all_or_nothing:
  "((\<exists>u. fst (rekey_command L socket h) = Val u) \<or> db_rows (wdb (snd (rekey_command L socket h))) = db_rows (wdb h)) \<and>
   h_locks (snd (rekey_command L socket (h :: host))) = h_locks h"
  using rekey_command_unless_Val rekey_command_locks by blast

text \<open>C37: a rekey command that returns has moved the vault. The current passphrase verified, the
  new one is non-empty and different and now verifies, what its key opens is what the old key
  opened, and the count printed is the number of secrets.\<close>
theorem rekey_command_moves_vault:
  fixes h :: host
  assumes "aead_ok L" and "db_wf (wdb h)" and "rekey_command L socket h = (Val u, h')"
  shows "\<exists>cur new K K' n. fst (acquire_passphrase h) = Val cur \<and> new \<noteq> [] \<and> new \<noteq> cur \<and>
    verified_key L cur (wdb h) K \<and> verified_key L new (wdb h') K' \<and> vault L K' (wdb h') = vault L K (wdb h) \<and>
    n = length (db_secrets (wdb h)) \<and>
    last (h_out h') = ''Re-encrypted '' @ decimal n @ '' secret(s) with a new master passphrase.''"
  by (rule rekey_command_ValD [OF assms])

theorem rekey_command_moves_vault_witness:
  "\<exists>h' K K' n. rekey_command toy_lib toy_socket (toy_host toy_db []) = (Val (), h') \<and> n \<noteq> [] \<and> verified_key toy_lib n (wdb h') K' \<and>
     vault toy_lib K' (wdb h') = vault toy_lib K toy_db"
proof -
  obtain h' where run: "rekey_command toy_lib toy_socket (toy_host toy_db []) = (Val (), h')" using toy_rekeys by blast
  from rekey_command_moves_vault [OF toy_aead _ run] toy_db_wf obtain K K' n where
    "n \<noteq> []" "verified_key toy_lib n (wdb h') K'" "vault toy_lib K' (wdb h') = vault toy_lib K toy_db" by auto
  with run show ?thesis by blast
qed

text \<open>C38: serving starts. With the lock free, no statement failing, a passphrase whose key
  verifies (or an uninitialised database and enough entropy), a place for the audit log and a
  socket to bind, the server comes up with that key.\<close>
theorem server_comes_up:
  fixes h :: host
  assumes "aead_ok L" and "argon2_ok L" and "wio h = []"
    and "from_env socket h = (Val cfg, h)" and "lock_path (db_path cfg) \<notin> set (h_locks h)"
    and "acquire_passphrase (h\<lparr>h_locks := lock_path (db_path cfg) # h_locks h\<rparr>) = (Val p, h1)"
    and "wio h1 = []" and "start_key L p h1 K" and "can_bind (bind_addr cfg)"
    and "log_ok (h_files h1) (audit_path cfg)"
  shows "\<exists>h'. run_command L socket can_bind Serve h = (Val (Some K), h')"
proof -
  from serve_succeeds [where can_bind = can_bind, OF assms] obtain h' where "serve L socket can_bind h = (Val K, h')" ..
  then show ?thesis by (simp add: run_command_def bindP_def)
qed

theorem server_comes_up_witness:
  "\<exists>h'. run_command toy_lib toy_socket (\<lambda>_. True) Serve (toy_host empty_db []) = (Val (Some (the_key ''p'')), h')"
proof -
  show ?thesis
    by (rule server_comes_up [OF toy_aead toy_argon2_ok _ toy_config_from_env _ _ _ toy_start_key])
      (simp_all add: toy_locked toy_passphrase toy_log_ok)
qed

text \<open>C39: a token made on the command line works. The last line printed by a successful
  token create is a token the server accepts with the given name and scope at every instant
  before its expiry, and the names passed the same rule the server applies.\<close>
theorem printed_token_is_accepted:
  fixes h :: host
  assumes "time_ok L" and "token_create L socket name project ttl h = (Val u, h')"
  shows "valid_project name \<and> (\<forall>p. project = Some p \<longrightarrow> valid_project p) \<and>
    (\<forall>now. (\<forall>days. ttl = Some days \<longrightarrow> now < wclock h (wtick h) + int (unat days) * 86400 * 10 ^ 9) \<longrightarrow>
      who L now (hash_token L (last (h_out h'))) (db_tokens (wdb h')) = Some \<lparr>at_name = name, at_scope = project\<rparr>)"
  using token_create_ValD [OF assms] by (simp add: valid_name_is_valid_project)

theorem printed_token_is_accepted_witness:
  "\<exists>h'. token_create toy_lib toy_socket ''new'' None (Some 1) (toy_host toy_db []) = (Val (), h') \<and>
     who toy_lib 5 (hash_token toy_lib (last (h_out h'))) (db_tokens (wdb h')) = Some \<lparr>at_name = ''new'', at_scope = None\<rparr>"
proof -
  obtain h' where run: "token_create toy_lib toy_socket ''new'' None (Some 1) (toy_host toy_db []) = (Val (), h')" using toy_creates by blast
  have "wclock (toy_host toy_db []) n = 0" for n by (simp add: toy_host_def)
  with printed_token_is_accepted [OF toy_time run] run show ?thesis by simp
qed

text \<open>The passphrase comes from the first source that is set, and is never empty: the
  environment, the operator's file (a regular file, no link, closed to group and others), the
  systemd credential, the terminal; a file loses one trailing line end.\<close>
theorem passphrase_from_first_source:
  assumes "acquire_passphrase h = (Val p, h')"
  shows "p \<noteq> [] \<and> passphrase_source h p"
  by (rule acquire_passphrase_ValD [OF assms])

theorem passphrase_from_first_source_witness: "passphrase_source (toy_host toy_db []) ''p''"
  using passphrase_from_first_source [OF toy_passphrase [of toy_db "[]"]] by simp

text \<open>C40: the audit log is private. When opening it succeeds, a regular file closed to group and
  others stands at its path, what it held is still there, and no symbolic link was followed.\<close>
theorem audit_log_is_private:
  assumes "audit_open path h = (Val u, h')"
  shows "\<exists>m r b. h_files h' path = Some (RegularFile m r b) \<and> \<not> group_or_others m \<and>
    (h_files h path = None \<and> b = [] \<or> (\<exists>m0. h_files h path = Some (RegularFile m0 r b)))"
  by (rule audit_open_ValD [OF assms])

theorem audit_log_is_private_witness:
  "\<exists>h' b. audit_open ''audit.jsonl'' (toy_host toy_db []) = (Val (), h') \<and> h_files h' ''audit.jsonl'' = Some (RegularFile 384 True b)"
proof -
  have p: "path_parent ''audit.jsonl'' = Some []" by (simp add: path_parent_def split_path_def parent_text_def)
  have "audit_open ''audit.jsonl'' (toy_host toy_db []) =
      (Val (), (toy_host toy_db [])\<lparr>h_files := [''audit.jsonl'' \<mapsto> RegularFile 384 True []]\<rparr>)"
    by (simp add: audit_open_def p bindP_def fs_call_ok make_dirs_def open_append_def ensure_private_def group_or_others_def)
  with audit_log_is_private [OF this] show ?thesis by auto
qed

end
