(* ===== verification/ClientHost.thy ===== *)
theory ClientHost
  imports Crypto Files TextFormat
begin

text \<open>
  The process of the client (\<open>crates/secrets-client\<close>) and what surrounds it: environment,
  files, clock, terminal and standard streams, and the network as the answers ureq will give.
  Errors are those of \<open>error.rs\<close>; their wording is kept only where it is a fixed text, and
  \<open>OfflineCacheUnavailable\<close> holds the two errors whose texts the code puts into it.
\<close>

section \<open>Errors\<close>

datatype client_error =
    UnexpectedResponse
  | ClientUnauthorized
  | ClientForbidden
  | ClientNotFound
  | Http nat
  | Transport string
  | OfflineCacheUnavailable client_error client_error
  | ConfigError string
  | CacheError string

fun is_transport :: "client_error \<Rightarrow> bool" where
  "is_transport (Transport m) \<longleftrightarrow> True"
| "is_transport _ \<longleftrightarrow> False"

section \<open>Network\<close>

text \<open>
  What \<open>ureq\<close> returns: a successful response with its body (\<open>None\<close>: reading it fails, at the
  limit on its length or before), an error status, or any other failure (no route, TLS, timeout, too many redirects, ..).
\<close>

datatype ureq_result =
    UreqOk "byte list option"
  | UreqStatus nat
  | UreqOther string

record http_call =
  hc_method :: string
  hc_url :: string
  hc_auth :: string
  hc_body :: "byte list option"

section \<open>State\<close>

text \<open>
  \<open>cl_faults\<close>: for each file operation to come, \<open>Some n\<close> makes it fail (a write after \<open>n\<close>
  bytes); the empty list: none fails any more. \<open>cl_net\<close> are the results of the calls of ureq to
  come (when it runs out the server is unreachable) and \<open>cl_hops\<close>, call by call, the further
  requests ureq makes when it follows redirects: the program sets no limit on them and sees
  only the final result. \<open>cl_sent\<close> are the requests on the wire, \<open>cl_dir_mode\<close> the mode of a new
  directory (0777 less the umask).
\<close>

record client = rng +
  cl_env :: "string \<rightharpoonup> byte list"
  cl_home :: "string option"
  cl_cache_home :: "string option"
  cl_files :: files
  cl_dir_mode :: nat
  cl_faults :: "nat option list"
  cl_now :: "nat \<Rightarrow> int"
  cl_tick :: nat
  cl_net :: "ureq_result list"
  cl_hops :: "http_call list list"
  cl_sent :: "http_call list"
  cl_terminal :: bool
  cl_inputs :: "string option list"
  cl_stdin :: "byte list option"
  cl_out :: string

text \<open>Turning a failure into a value, as a \<open>match\<close> on a \<open>Result\<close> does.\<close>

definition tryP :: "('s, 'e, 'a) proc \<Rightarrow> ('s, 'f, 'e + 'a) proc" where
  "tryP m = (\<lambda>s. case m s of
     (Val x, s') \<Rightarrow> (Val (Inr x), s')
   | (Fail e, s') \<Rightarrow> (Val (Inl e), s')
   | (Panic, s') \<Rightarrow> (Panic, s'))"

section \<open>Environment, clock, streams\<close>

definition cl_var :: "'m client_scheme \<Rightarrow> string \<Rightarrow> string option" where
  "cl_var h name = Option.bind (cl_env h name) from_utf8"

definition cl_var_os :: "'m client_scheme \<Rightarrow> string \<Rightarrow> string option" where
  "cl_var_os h name = map_option bytes_str (cl_env h name)"

text \<open>\<open>SystemTime::now\<close>, in nanoseconds since the epoch.\<close>

definition system_time :: "('m client_scheme, 'e, int) proc" where
  "system_time = (\<lambda>h. (Val (cl_now h (cl_tick h)), h\<lparr>cl_tick := Suc (cl_tick h)\<rparr>))"

definition print_out :: "string \<Rightarrow> ('m client_scheme, 'e, unit) proc" where
  "print_out s = (\<lambda>h. (Val (), h\<lparr>cl_out := cl_out h @ s\<rparr>))"

definition print_line :: "string \<Rightarrow> ('m client_scheme, 'e, unit) proc" where
  "print_line s = print_out (s @ [CHR 0x0A])"

text \<open>One call of ureq: the request, and the redirects it follows.\<close>

definition next_hops :: "'m client_scheme \<Rightarrow> http_call list" where
  "next_hops h = (case cl_hops h of [] \<Rightarrow> [] | hops # rest \<Rightarrow> hops)"

definition http :: "http_call \<Rightarrow> ('m client_scheme, 'e, ureq_result) proc" where
  "http c = (\<lambda>h. let h' = h\<lparr>cl_sent := cl_sent h @ c # next_hops h, cl_net := tl (cl_net h), cl_hops := tl (cl_hops h)\<rparr> in
     case cl_net h of [] \<Rightarrow> (Val (UreqOther ''io error''), h') | r # rs \<Rightarrow> (Val r, h'))"

section \<open>Files\<close>

definition fault :: "('m client_scheme, 'e, nat option) proc" where
  "fault = (\<lambda>h. case cl_faults h of [] \<Rightarrow> (Val None, h) | f # fs \<Rightarrow> (Val f, h\<lparr>cl_faults := fs\<rparr>))"

text \<open>A system call that changes the files, and one that reads them.\<close>

definition file_op :: "'e \<Rightarrow> (files \<Rightarrow> files option) \<Rightarrow> ('m client_scheme, 'e, unit) proc" where
  "file_op e g = bindP fault (\<lambda>f. if f \<noteq> None then throwP e else
     (\<lambda>h. case g (cl_files h) of None \<Rightarrow> (Fail e, h) | Some fs \<Rightarrow> (Val (), h\<lparr>cl_files := fs\<rparr>)))"

definition file_query :: "'e \<Rightarrow> (files \<Rightarrow> 'a option) \<Rightarrow> ('m client_scheme, 'e, 'a) proc" where
  "file_query e g = bindP fault (\<lambda>f. if f \<noteq> None then throwP e else
     bindP (getP (\<lambda>h. g (cl_files h))) (okOrP e))"

text \<open>\<open>write_all\<close>: a failure leaves the bytes written so far.\<close>

definition write_all :: "'e \<Rightarrow> string \<Rightarrow> byte list \<Rightarrow> ('m client_scheme, 'e, unit) proc" where
  "write_all e p bs = bindP fault (\<lambda>f h. case f of
     None \<Rightarrow> (Val (), h\<lparr>cl_files := write_file p bs (cl_files h)\<rparr>)
   | Some n \<Rightarrow> (Fail e, h\<lparr>cl_files := write_file p (take n bs) (cl_files h)\<rparr>))"

section \<open>Facts\<close>

lemma tryP_Val_iff: "tryP m s = (Val r, s') \<longleftrightarrow>
    (case r of Inr x \<Rightarrow> m s = (Val x, s') | Inl e \<Rightarrow> m s = (Fail e, s'))"
  by (auto simp: tryP_def split: prod.splits outcome.splits sum.splits)

lemma snd_tryP [simp]: "snd (tryP m s) = snd (m s)"
  by (auto simp: tryP_def split: prod.splits outcome.splits)

lemma keeps_tryP [frame]: "keeps f m \<Longrightarrow> keeps f (tryP m)"
  by (simp add: keeps_def)

lemma keeps_fault: "(\<And>h v. f (h\<lparr>cl_faults := v\<rparr>) = f h) \<Longrightarrow> keeps f fault"
  by (auto simp: keeps_def fault_def split: list.splits)

lemma keeps_file_op:
  assumes "\<And>h v. f (h\<lparr>cl_faults := v\<rparr>) = f h" and "\<And>h v. f (h\<lparr>cl_files := v\<rparr>) = f h"
  shows "keeps f (file_op e g)"
proof -
  have "keeps f (\<lambda>h. case g (cl_files h) of None \<Rightarrow> (Fail e, h) | Some fs \<Rightarrow> (Val (), h\<lparr>cl_files := fs\<rparr>))"
    by (auto simp: keeps_def assms(2) split: option.splits)
  then show ?thesis unfolding file_op_def by (intro frame keeps_fault assms(1))
qed

lemma keeps_file_query: "(\<And>h v. f (h\<lparr>cl_faults := v\<rparr>) = f h) \<Longrightarrow> keeps f (file_query e g)"
  unfolding file_query_def by (intro frame keeps_fault)

lemma keeps_write_all:
  assumes "\<And>h v. f (h\<lparr>cl_faults := v\<rparr>) = f h" and "\<And>h v. f (h\<lparr>cl_files := v\<rparr>) = f h"
  shows "keeps f (write_all e p bs)"
proof -
  have "keeps f (\<lambda>h. case x of None \<Rightarrow> (Val (), h\<lparr>cl_files := write_file p bs (cl_files h)\<rparr>)
     | Some n \<Rightarrow> (Fail e, h\<lparr>cl_files := write_file p (take n bs) (cl_files h)\<rparr>))" for x
    by (cases x) (simp_all add: keeps_def assms(2))
  then show ?thesis unfolding write_all_def by (intro frame keeps_fault assms(1))
qed

lemma keeps_system_time: "(\<And>h v. f (h\<lparr>cl_tick := v\<rparr>) = f h) \<Longrightarrow> keeps f system_time"
  by (simp add: keeps_def system_time_def)

lemma keeps_print_out: "(\<And>h v. f (h\<lparr>cl_out := v\<rparr>) = f h) \<Longrightarrow> keeps f (print_out s)"
  by (simp add: keeps_def print_out_def)

lemma keeps_http: "(\<And>h u v x. f (h\<lparr>cl_sent := u, cl_net := v, cl_hops := x\<rparr>) = f h) \<Longrightarrow> keeps f (http c)"
  by (auto simp: keeps_def http_def Let_def split: list.splits)

lemma fault_quiet: "cl_faults h = [] \<Longrightarrow> fault h = (Val None, h)"
  by (simp add: fault_def)

lemma file_op_ok: "cl_faults h = [] \<Longrightarrow> g (cl_files h) = Some fs \<Longrightarrow> file_op e g h = (Val (), h\<lparr>cl_files := fs\<rparr>)"
  by (simp add: file_op_def bindP_def fault_quiet)

lemma file_query_ok: "cl_faults h = [] \<Longrightarrow> g (cl_files h) = Some x \<Longrightarrow> file_query e g h = (Val x, h)"
  by (simp add: file_query_def bindP_def fault_quiet)

lemma write_all_ok: "cl_faults h = [] \<Longrightarrow> write_all e p bs h = (Val (), h\<lparr>cl_files := write_file p bs (cl_files h)\<rparr>)"
  by (simp add: write_all_def bindP_def fault_quiet)

lemma fault_files: "fault h = (r, h') \<Longrightarrow> cl_files h' = cl_files h"
  by (auto simp: fault_def split: list.splits)

lemma file_op_files: "file_op e g h = (r, h') \<Longrightarrow>
    (r = Val () \<and> g (cl_files h) = Some (cl_files h')) \<or> (r = Fail e \<and> cl_files h' = cl_files h)"
  by (auto simp: file_op_def bindP_def fault_def split: list.splits option.splits if_splits prod.splits)

lemma file_query_Val: "file_query e g h = (Val x, h') \<Longrightarrow> g (cl_files h) = Some x \<and> cl_files h' = cl_files h"
  by (auto simp: file_query_def bindP_Val_iff fault_def split: list.splits)

lemma write_all_files:
  fixes e :: 'e
  assumes "write_all e p bs h = (r, h')"
  shows "\<exists>k. cl_files h' = write_file p (take k bs) (cl_files h) \<and> (r = Val () \<and> length bs \<le> k \<or> r = Fail e)"
proof -
  obtain f h1 where f: "fault h = (Val f :: ('e, nat option) outcome, h1)" by (cases "cl_faults h") (simp_all add: fault_def)
  from assms f fault_files [OF f] show ?thesis
    by (cases f) (auto simp: write_all_def bindP_def intro: exI [of _ "length bs"])
qed

end
