(* ===== verification/PrivateFile.thy ===== *)
theory PrivateFile
  imports ClientHost
begin

text \<open>
  Private files of the client (\<open>write_private_file\<close>, \<open>random_temp_sibling\<close>,
  \<open>private_open_for_write\<close> and \<open>open_private_for_read\<close> of
  \<open>crates/secrets-client/src/cache.rs\<close>; the programs run with the Unix variants, the other
  one of opening for write is compared with it): a file is written under a fresh random
  name beside its place and renamed into it. The lemmas bound what a write may change however
  it ends.
\<close>

section \<open>Operations\<close>

definition random_temp_sibling :: "lib \<Rightarrow> string \<Rightarrow> ('m client_scheme, client_error, string) proc" where
  "random_temp_sibling L path =
     bindP (fill_bytes 16) (\<lambda>suffix.
     bindP (okOrP (CacheError ''invalid cache path'') (file_name path)) (\<lambda>name.
     retP (with_file_name path (name @ ''.'' @ b64url_encode L suffix @ ''.tmp''))))"

definition private_open_for_write :: "string \<Rightarrow> ('m client_scheme, client_error, unit) proc" where
  "private_open_for_write path = file_op (CacheError ''failed to open'') (create_new path)"

text \<open>Off Unix the new file gets the mode new files have; a link or file in the way is refused
  there too.\<close>

definition private_open_for_write_other :: "nat \<Rightarrow> string \<Rightarrow> ('m client_scheme, client_error, unit) proc" where
  "private_open_for_write_other m path = file_op (CacheError ''failed to open'') (create_new_other m path)"

text \<open>\<open>let _ = fs::remove_file(..)\<close>.\<close>

definition remove_quietly :: "string \<Rightarrow> ('m client_scheme, client_error, unit) proc" where
  "remove_quietly path = bindP (tryP (file_op (CacheError []) (remove_file path)) :: ('m client_scheme, client_error, client_error + unit) proc) (\<lambda>_. retP ())"

text \<open>The temporary file is written and renamed into place, and removed if either fails.\<close>

definition replace_via :: "string \<Rightarrow> string \<Rightarrow> byte list \<Rightarrow> ('m client_scheme, client_error, unit) proc" where
  "replace_via tmp path data =
     bindP (tryP (bindP (private_open_for_write tmp) (\<lambda>_. write_all (CacheError ''failed to write'') tmp data))) (\<lambda>written.
     case written of
       Inl e \<Rightarrow> bindP (remove_quietly tmp) (\<lambda>_. throwP e)
     | Inr _ \<Rightarrow>
         bindP (tryP (file_op (CacheError ''failed to replace'') (rename_file tmp path))) (\<lambda>renamed.
         case renamed of
           Inl e \<Rightarrow> bindP (remove_quietly tmp) (\<lambda>_. throwP e)
         | Inr _ \<Rightarrow> retP ()))"

definition make_parent :: "string \<Rightarrow> ('m client_scheme, client_error, unit) proc" where
  "make_parent path = (case path_parent path of
     None \<Rightarrow> retP ()
   | Some parent \<Rightarrow> bindP (getP cl_dir_mode) (\<lambda>m. file_op (CacheError ''failed to create directory'') (make_dirs m parent)))"

definition write_private_file :: "lib \<Rightarrow> string \<Rightarrow> byte list \<Rightarrow> ('m client_scheme, client_error, unit) proc" where
  "write_private_file L path data =
     bindP (make_parent path) (\<lambda>_.
     bindP (random_temp_sibling L path) (\<lambda>tmp.
     replace_via tmp path data))"

text \<open>Reading: no link, a regular file, and no permission for group or others.\<close>

definition open_private_for_read :: "string \<Rightarrow> ('m client_scheme, client_error, byte list) proc" where
  "open_private_for_read path = bindP (file_query (CacheError ''failed to open'') (\<lambda>fs. fs path)) (\<lambda>f. case f of
       RegularFile m readable bytes \<Rightarrow>
         if \<not> readable then throwP (CacheError ''failed to open'')
         else if m mod 64 \<noteq> 0 then throwP (CacheError ''refusing to use cache key unless it is 0600'')
         else retP bytes
     | SymbolicLink q \<Rightarrow> throwP (CacheError ''failed to open'')
     | Directory m \<Rightarrow> throwP (CacheError ''not a regular file'')
     | SpecialFile m \<Rightarrow> throwP (CacheError ''not a regular file''))"

section \<open>What a write may change\<close>

text \<open>The paths a write of \<open>path\<close> may touch besides it: its directory, when it was missing, and
  one temporary name.\<close>

definition only_touches :: "string set \<Rightarrow> files \<Rightarrow> files \<Rightarrow> bool" where
  "only_touches A fs fs' \<longleftrightarrow> (\<forall>p. p \<notin> A \<longrightarrow> fs' p = fs p)"

lemma only_touches_refl [simp]: "only_touches A fs fs"
  by (simp add: only_touches_def)

lemma only_touches_trans: "only_touches A fs fs' \<Longrightarrow> only_touches A fs' fs'' \<Longrightarrow> only_touches A fs fs''"
  by (simp add: only_touches_def)

lemma write_file_at: "fs p = Some (RegularFile m r b) \<Longrightarrow> write_file p bs fs = fs(p \<mapsto> RegularFile m r (b @ bs))"
  by (simp add: write_file_def)

lemma create_new_Some: "create_new p fs = Some fs' \<longleftrightarrow> fs p = None \<and> fs' = fs(p \<mapsto> RegularFile 384 True [])"
  by (auto simp: create_new_def)

lemma create_new_other_Some: "create_new_other m p fs = Some fs' \<longleftrightarrow> fs p = None \<and> fs' = fs(p \<mapsto> RegularFile m True [])"
  by (auto simp: create_new_other_def)

text \<open>The two variants of opening a new private file differ in its mode only: they refuse the same
  states and touch nothing else.\<close>

lemma private_open_variants:
  fixes h :: "'m client_scheme"
  assumes "private_open_for_write path h = (r, h1)" and "private_open_for_write_other m path h = (r', h2)"
  shows "r' = r \<and> (r = Val () \<longrightarrow> cl_files h path = None \<and> cl_files h1 path = Some (RegularFile 384 True []) \<and>
    cl_files h2 path = Some (RegularFile m True []) \<and> (\<forall>q. q \<noteq> path \<longrightarrow> cl_files h1 q = cl_files h q \<and> cl_files h2 q = cl_files h q))"
proof -
  let ?op = "\<lambda>g. file_op (CacheError ''failed to open'') g h"
  have runs: "?op (create_new path) = (r, h1)" "?op (create_new_other m path) = (r', h2)"
    using assms by (simp_all only: private_open_for_write_def private_open_for_write_other_def)
  have "fst (?op g) = fst (?op g')" if "\<And>fs. g fs = None \<longleftrightarrow> g' fs = None" for g g'
    using that [of "cl_files h"] by (cases "g (cl_files h)"; cases "g' (cl_files h)") (simp_all add: file_op_def bindP_def fault_def split: list.splits)
  from this [of "create_new path" "create_new_other m path"] runs have "r' = r"
    by (simp add: create_new_def create_new_other_def)
  with file_op_files [OF runs(1)] file_op_files [OF runs(2)] show ?thesis
    by (auto simp: create_new_Some create_new_other_Some)
qed

lemma rename_file_Some: "rename_file p q fs = Some fs' \<longleftrightarrow>
    (\<exists>n. fs p = Some n \<and> (\<forall>m. fs q \<noteq> Some (Directory m)) \<and> fs' = fs(p := None, q := Some n))"
  by (auto simp: rename_file_def split: option.splits node.splits)

lemma remove_quietly_files:
  fixes h :: "'m client_scheme"
  assumes "remove_quietly p h = (r, h')"
  shows "r = Val () \<and> only_touches {p} (cl_files h) (cl_files h')"
proof -
  obtain r1 h1 where f: "file_op (CacheError []) (remove_file p) h = (r1 :: (client_error, unit) outcome, h1)"
    by (cases "file_op (CacheError []) (remove_file p) h :: (client_error, unit) outcome \<times> _")
  from file_op_files [OF f] show ?thesis
  proof (elim disjE conjE)
    assume "r1 = Val ()" "remove_file p (cl_files h) = Some (cl_files h1)"
    moreover have "only_touches {p} fs fs'" if "remove_file p fs = Some fs'" for fs fs'
      using that by (auto simp: remove_file_def only_touches_def split: option.splits node.splits)
    ultimately show ?thesis using f assms by (auto simp: remove_quietly_def bindP_def tryP_def)
  next
    assume "r1 = Fail (CacheError [])" "cl_files h1 = cl_files h"
    with f assms show ?thesis by (auto simp: remove_quietly_def bindP_def tryP_def)
  qed
qed

lemma temp_written:
  assumes "bindP (private_open_for_write tmp) (\<lambda>_. write_all e tmp data) h = (r, h')"
  shows "only_touches {tmp} (cl_files h) (cl_files h') \<and> r \<noteq> Panic \<and>
    (\<forall>u. r = Val u \<longrightarrow> cl_files h' = (cl_files h)(tmp \<mapsto> RegularFile 384 True data))"
proof -
  obtain r1 h1 where o: "private_open_for_write tmp h = (r1, h1)" by (cases "private_open_for_write tmp h")
  from file_op_files [OF o [unfolded private_open_for_write_def]] show ?thesis
  proof (elim disjE conjE)
    assume r1: "r1 = Val ()" and "create_new tmp (cl_files h) = Some (cl_files h1)"
    then have h1: "cl_files h1 = (cl_files h)(tmp \<mapsto> RegularFile 384 True [])" by (simp add: create_new_Some)
    from assms o r1 have "write_all e tmp data h1 = (r, h')" by (simp add: bindP_def)
    from write_all_files [OF this] obtain k where "cl_files h' = write_file tmp (take k data) (cl_files h1)"
      and "r = Val () \<and> length data \<le> k \<or> r = Fail e" by blast
    with h1 show ?thesis by (auto simp: write_file_at only_touches_def)
  next
    assume "r1 = Fail (CacheError ''failed to open'')" "cl_files h1 = cl_files h"
    with assms o show ?thesis by (auto simp: bindP_def)
  qed
qed

lemma keeps_temp: "(\<And>w e. f (w\<lparr>entropy := e\<rparr>) = f w) \<Longrightarrow> keeps f (random_temp_sibling L path)"
  unfolding random_temp_sibling_def by (intro frame keeps_fill_bytes)

lemma temp_is_elsewhere:
  assumes "b64_ok L" and "random_temp_sibling L path h = (Val tmp, h')"
  shows "tmp \<noteq> path"
proof -
  from assms(2) obtain name bs where name: "file_name path = Some name"
    and tmp: "tmp = with_file_name path (name @ ''.'' @ b64url_encode L bs @ ''.tmp'')"
    by (auto simp: random_temp_sibling_def bindP_Val_iff)
  have "CHR ''/'' \<notin> set (b64url_encode L bs)"
  proof
    assume "CHR ''/'' \<in> set (b64url_encode L bs)"
    with assms(1) have "is_ascii_alnum (CHR ''/'')" by (auto simp: b64_ok_def)
    then show False by (simp add: is_ascii_alnum_def)
  qed
  then have "plain_name (name @ ''.'' @ b64url_encode L bs @ ''.tmp'')"
    using file_name_plain [OF name] by (auto simp: plain_name_def)
  then have "file_name tmp = Some (name @ ''.'' @ b64url_encode L bs @ ''.tmp'')" unfolding tmp by (rule file_name_with)
  with name show ?thesis by auto
qed

lemma replace_via_files:
  fixes h :: "'m client_scheme"
  assumes run: "replace_via tmp path data h = (r, h')" and ne: "tmp \<noteq> path"
  shows "only_touches {path, tmp} (cl_files h) (cl_files h') \<and>
    (if r = Val () then cl_files h' path = Some (RegularFile 384 True data) else cl_files h' path = cl_files h path)"
proof -
  let ?w = "bindP (private_open_for_write tmp) (\<lambda>_. write_all (CacheError ''failed to write'') tmp data)"
  obtain r3 h3 where w: "?w h = (r3, h3)" by (cases "?w h")
  note w3 = temp_written [OF w]
  show ?thesis
  proof (cases r3)
    case (Fail e)
    then obtain h4 where q: "remove_quietly tmp h3 = (Val (), h4)" and "r = Fail e" "h' = h4"
      using run w remove_quietly_files [of tmp h3]
      by (cases "remove_quietly tmp h3") (auto simp: replace_via_def bindP_def tryP_def)
    with remove_quietly_files [OF q] w3 ne show ?thesis by (auto simp: only_touches_def)
  next
    case (Val v)
    obtain r4 h4 where rn: "file_op (CacheError ''failed to replace'') (rename_file tmp path) h3 = (r4, h4)"
      by (cases "file_op (CacheError ''failed to replace'') (rename_file tmp path) h3")
    from w3 Val have h3: "cl_files h3 = (cl_files h)(tmp \<mapsto> RegularFile 384 True data)" by simp
    from file_op_files [OF rn] show ?thesis
    proof (elim disjE conjE)
      assume r4: "r4 = Val ()" and "rename_file tmp path (cl_files h3) = Some (cl_files h4)"
      with h3 have h4: "cl_files h4 = (cl_files h)(tmp := None, path \<mapsto> RegularFile 384 True data)"
        by (auto simp: rename_file_Some)
      have "r = Val ()" "h' = h4"
        using run w Val rn r4 by (simp_all add: replace_via_def bindP_def tryP_def)
      with h4 show ?thesis by (auto simp: only_touches_def)
    next
      assume r4: "r4 = Fail (CacheError ''failed to replace'')" and h4: "cl_files h4 = cl_files h3"
      then obtain h5 where q: "remove_quietly tmp h4 = (Val (), h5)" and "r = Fail (CacheError ''failed to replace'')" "h' = h5"
        using run w Val rn remove_quietly_files [of tmp h4]
        by (cases "remove_quietly tmp h4") (auto simp: replace_via_def bindP_def tryP_def)
      with remove_quietly_files [OF q] h4 h3 ne show ?thesis by (auto simp: only_touches_def)
    qed
  qed (use w3 in simp)
qed

lemma make_parent_files:
  assumes "make_parent path h = (r, h')" and par: "path_parent path \<noteq> Some path"
  shows "only_touches (set_option (path_parent path)) (cl_files h) (cl_files h') \<and> cl_files h' path = cl_files h path \<and> r \<noteq> Panic"
proof (cases "path_parent path")
  case (Some d)
  with assms have "file_op (CacheError ''failed to create directory'') (make_dirs (cl_dir_mode h) d) h = (r, h')"
    by (simp add: make_parent_def bindP_def)
  from file_op_files [OF this] have eq: "make_dirs (cl_dir_mode h) d (cl_files h) = Some (cl_files h') \<or> cl_files h' = cl_files h" and np: "r \<noteq> Panic" by auto
  then have "cl_files h' p = cl_files h p \<or> p = d" for p
    using make_dirs_at [of "cl_dir_mode h" d "cl_files h" "cl_files h'" p] by auto
  with Some par np show ?thesis by (auto simp: only_touches_def)
qed (use assms in \<open>auto simp: make_parent_def\<close>)

text \<open>All or nothing at the target: either it holds the whole data, private and not a link, or
  it is as it was; nothing else but the directory and a temporary name changes.\<close>

lemma write_private_file_files:
  fixes h :: "'m client_scheme"
  assumes b64: "b64_ok L" and run: "write_private_file L path data h = (r, h')" and par: "path_parent path \<noteq> Some path"
  shows "\<exists>tmp. only_touches ({path, tmp} \<union> set_option (path_parent path)) (cl_files h) (cl_files h') \<and>
    (if r = Val () then cl_files h' path = Some (RegularFile 384 True data) else cl_files h' path = cl_files h path)"
proof -
  obtain r1 h1 where mk: "make_parent path h = (r1, h1)" by (cases "make_parent path h")
  note dirs = make_parent_files [OF mk par]
  obtain r2 h2 where t: "random_temp_sibling L path h1 = (r2, h2)" by (cases "random_temp_sibling L path h1")
  have h2: "cl_files h2 = cl_files h1" using keepsD' [OF keeps_temp t, of cl_files] by simp
  show ?thesis
  proof (cases "\<exists>u tmp. r1 = Val u \<and> r2 = Val tmp")
    case True
    then obtain tmp where "r1 = Val ()" and r2: "r2 = Val tmp" by auto
    with run mk t have "replace_via tmp path data h2 = (r, h')" by (simp add: write_private_file_def bindP_def)
    moreover have "tmp \<noteq> path" using temp_is_elsewhere [OF b64] t r2 by blast
    ultimately have "only_touches {path, tmp} (cl_files h2) (cl_files h') \<and>
      (if r = Val () then cl_files h' path = Some (RegularFile 384 True data) else cl_files h' path = cl_files h2 path)"
      by (rule replace_via_files)
    with dirs h2 show ?thesis by (intro exI [of _ tmp]) (auto simp: only_touches_def)
  next
    case False
    with run mk t h2 have "r \<noteq> Val ()" "cl_files h' = cl_files h1"
      by (auto simp: write_private_file_def bindP_def split: outcome.splits)
    with dirs show ?thesis by (intro exI [of _ path]) (auto simp: only_touches_def)
  qed
qed

text \<open>A write that succeeds leaves every other node that was there as it was.\<close>

definition keeps_nodes :: "string \<Rightarrow> files \<Rightarrow> files \<Rightarrow> bool" where
  "keeps_nodes path fs fs' \<longleftrightarrow> (\<forall>p n. p \<noteq> path \<longrightarrow> fs p = Some n \<longrightarrow> fs' p = Some n)"

lemma replace_via_keeps:
  fixes h :: "'m client_scheme"
  assumes run: "replace_via tmp path data h = (Val u, h')"
  shows "keeps_nodes path (cl_files h) (cl_files h')"
proof -
  let ?w = "bindP (private_open_for_write tmp) (\<lambda>_. write_all (CacheError ''failed to write'') tmp data)"
  obtain r1 h1 where w: "?w h = (r1, h1)" by (cases "?w h")
  have "r1 = Val ()"
    using run w by (cases r1) (auto simp: replace_via_def bindP_def tryP_def split: prod.splits outcome.splits)
  obtain r2 h2 where rn: "file_op (CacheError ''failed to replace'') (rename_file tmp path) h1 = (r2, h2)"
    by (cases "file_op (CacheError ''failed to replace'') (rename_file tmp path) h1")
  have "r2 = Val () \<and> h2 = h'"
    using run w \<open>r1 = Val ()\<close> rn by (cases r2) (auto simp: replace_via_def bindP_def tryP_def split: prod.splits outcome.splits)
  note rn = rn [unfolded conjunct1 [OF this] conjunct2 [OF this]]
  from w \<open>r1 = Val ()\<close> obtain h0 v0 v where o: "private_open_for_write tmp h = (Val v0, h0)"
    and wr: "write_all (CacheError ''failed to write'') tmp data h0 = (Val v, h1)"
    by (auto simp: bindP_Val_iff)
  from file_op_files [OF o [unfolded private_open_for_write_def]] have "cl_files h tmp = None" "cl_files h0 = (cl_files h)(tmp \<mapsto> RegularFile 384 True [])"
    by (auto simp: create_new_Some)
  moreover from write_all_files [OF wr] obtain k where "cl_files h1 = write_file tmp (take k data) (cl_files h0)" by blast
  ultimately have h1: "cl_files h1 = (cl_files h)(tmp \<mapsto> RegularFile 384 True (take k data))" and free: "cl_files h tmp = None"
    by (simp_all add: write_file_at)
  from file_op_files [OF rn] obtain n where "cl_files h' = (cl_files h1)(tmp := None, path := Some n)"
    by (auto simp: rename_file_Some)
  with h1 free show ?thesis by (auto simp: keeps_nodes_def)
qed

lemma write_private_file_keeps:
  fixes h :: "'m client_scheme"
  assumes run: "write_private_file L path data h = (Val u, h')"
  shows "keeps_nodes path (cl_files h) (cl_files h')"
proof -
  from run obtain v h1 tmp h2 where mk: "make_parent path h = (Val v, h1)" and t: "random_temp_sibling L path h1 = (Val tmp, h2)"
    and r: "replace_via tmp path data h2 = (Val u, h')"
    by (auto simp: write_private_file_def bindP_Val_iff)
  have h2: "cl_files h2 = cl_files h1" using keepsD' [OF keeps_temp t, of cl_files] by simp
  have "keeps_nodes path (cl_files h) (cl_files h1)"
  proof (cases "path_parent path")
    case (Some d)
    with mk have "file_op (CacheError ''failed to create directory'') (make_dirs (cl_dir_mode h) d) h = (Val v, h1)"
      by (simp add: make_parent_def bindP_def)
    from file_op_files [OF this] have "make_dirs (cl_dir_mode h) d (cl_files h) = Some (cl_files h1)" by auto
    from make_dirs_at [OF this] show ?thesis by (metis keeps_nodes_def option.distinct(1))
  qed (use mk in \<open>simp add: make_parent_def keeps_nodes_def\<close>)
  with replace_via_keeps [OF r] h2 show ?thesis by (simp add: keeps_nodes_def)
qed

text \<open>A write succeeds where its directory can be made and no directory stands in the way.\<close>

lemma write_private_file_ok:
  fixes h :: "'m client_scheme"
  assumes b64: "b64_ok L" and q: "cl_faults h = []" and e: "16 \<le> length (entropy h)"
    and name: "file_name path = Some n" and par: "path_parent path = Some d" and dir: "cl_files h d = Some (Directory m)"
    and free: "cl_files h (with_file_name path (n @ ''.'' @ b64url_encode L (take 16 (entropy h)) @ ''.tmp'')) = None"
    and tgt: "\<forall>m. cl_files h path \<noteq> Some (Directory m)"
  shows "\<exists>fs. write_private_file L path data h = (Val (), h\<lparr>entropy := drop 16 (entropy h), cl_files := fs\<rparr>) \<and>
    fs path = Some (RegularFile 384 True data) \<and> (\<forall>p. p \<noteq> path \<longrightarrow> fs p = cl_files h p)"
proof -
  obtain tmp where tmp: "tmp = with_file_name path (n @ ''.'' @ b64url_encode L (take 16 (entropy h)) @ ''.tmp'')" by blast
  note free = free [folded tmp]
  let ?h = "h\<lparr>entropy := drop 16 (entropy h)\<rparr>"
  have mk: "make_parent path h = (Val (), h)"
    using q par dir by (simp add: make_parent_def bindP_def make_dirs_def node_at_plain file_op_ok)
  have t: "random_temp_sibling L path h = (Val tmp, ?h)"
    using e name by (simp add: random_temp_sibling_def bindP_def fill_bytes_def tmp)
  have ne: "tmp \<noteq> path" by (rule temp_is_elsewhere [OF b64 t])
  let ?fs1 = "(cl_files h)(tmp \<mapsto> RegularFile 384 True [])"
  let ?fs2 = "(cl_files h)(tmp \<mapsto> RegularFile 384 True data)"
  let ?fs = "?fs2(tmp := None, path \<mapsto> RegularFile 384 True data)"
  have "private_open_for_write tmp ?h = (Val (), ?h\<lparr>cl_files := ?fs1\<rparr>)"
    unfolding private_open_for_write_def by (rule file_op_ok) (use q free in \<open>simp_all add: create_new_def\<close>)
  moreover have "write_all e tmp data (?h\<lparr>cl_files := ?fs1\<rparr>) = (Val (), ?h\<lparr>cl_files := ?fs2\<rparr>)" for e :: client_error
    using q by (simp add: write_all_ok write_file_at)
  moreover have "file_op e (rename_file tmp path) (?h\<lparr>cl_files := ?fs2\<rparr>) = (Val (), ?h\<lparr>cl_files := ?fs\<rparr>)" for e :: client_error
  proof -
    have "rename_file tmp path ?fs2 = Some ?fs" using tgt ne by (auto simp: rename_file_Some)
    then show ?thesis by (subst file_op_ok [where fs = ?fs]) (use q in simp_all)
  qed
  ultimately have "replace_via tmp path data ?h = (Val (), ?h\<lparr>cl_files := ?fs\<rparr>)"
    by (simp add: replace_via_def bindP_def tryP_def)
  with mk t have "write_private_file L path data h = (Val (), ?h\<lparr>cl_files := ?fs\<rparr>)"
    by (simp add: write_private_file_def bindP_def)
  with ne free show ?thesis by (intro exI [of _ ?fs]) auto
qed

end
