(* ===== verification/ClientWire.thy ===== *)
theory ClientWire
  imports ClientHost
begin

text \<open>
  What the client exchanges with the server and keeps in its cache: the messages of
  \<open>crates/secrets-client/src/api.rs\<close> and the envelope of \<open>cache.rs\<close>, with \<open>serde_json\<close> as
  third-party functions on them, and the rule on received keys.
\<close>

section \<open>Messages\<close>

type_synonym secret_map = "(string \<times> string) list"

record envelope =
  ev_version :: byte
  ev_created_at_unix :: u64
  ev_nonce :: string
  ev_ciphertext :: string

record token_request =
  tr_name :: string
  tr_project :: "string option"
  tr_ttl_days :: "u32 option"
  tr_no_expiry :: bool

record created_token =
  cr_name :: string
  cr_scope :: "string option"
  cr_expires_at :: "string option"
  cr_token :: string

record client_token_info =
  cti_name :: string
  cti_scope :: "string option"
  cti_created_at :: string
  cti_expires_at :: "string option"
  cti_revoked :: bool

text \<open>\<open>serde_json\<close> on the types of the client.\<close>

record serde =
  encode_map :: "secret_map \<Rightarrow> byte list"
  decode_map :: "byte list \<Rightarrow> secret_map option"
  encode_envelope :: "envelope \<Rightarrow> byte list"
  decode_envelope :: "byte list \<Rightarrow> envelope option"
  encode_value :: "string \<Rightarrow> byte list"
  encode_token_request :: "token_request \<Rightarrow> byte list"
  decode_created :: "byte list \<Rightarrow> created_token option"
  decode_tokens :: "byte list \<Rightarrow> client_token_info list option"
  decode_revoked :: "byte list \<Rightarrow> nat option"

text \<open>What is written is read back, and a parsed map is an ordered map of
  Rust strings.\<close>

definition serde_ok :: "serde \<Rightarrow> bool" where
  "serde_ok D \<longleftrightarrow>
     (\<forall>m. bt_inv m \<longrightarrow> (\<forall>(k, v) \<in> set m. is_str k \<and> is_str v) \<longrightarrow> decode_map D (encode_map D m) = Some m) \<and>
     (\<forall>b m. decode_map D b = Some m \<longrightarrow> bt_inv m \<and> (\<forall>(k, v) \<in> set m. is_str v)) \<and>
     (\<forall>e. is_str (ev_nonce e) \<longrightarrow> is_str (ev_ciphertext e) \<longrightarrow> decode_envelope D (encode_envelope D e) = Some e)"

section \<open>Received keys\<close>

definition valid_secret_key :: "string \<Rightarrow> bool" where
  "valid_secret_key key \<longleftrightarrow> key \<noteq> [] \<and> length key \<le> 128 \<and>
     list_all (\<lambda>b. is_ascii_alnum b \<or> b = CHR ''-'' \<or> b = CHR ''_'' \<or> b = CHR ''.'') key"

interpretation received_key: name_rule valid_secret_key 128 "{CHR ''-'', CHR ''_'', CHR ''.''}"
  by unfold_locales (auto simp: valid_secret_key_def list_all_iff)

fun map_from_plain :: "(string \<times> string) list \<Rightarrow> secret_map \<Rightarrow> client_error + secret_map" where
  "map_from_plain [] out = Inr out"
| "map_from_plain ((key, v) # raw) out =
     (if \<not> valid_secret_key key then Inl UnexpectedResponse else map_from_plain raw (bt_insert key v out))"

definition secret_map_from_plain :: "(string \<times> string) list \<Rightarrow> client_error + secret_map" where
  "secret_map_from_plain raw = map_from_plain raw []"

section \<open>Facts\<close>

lemma bt_insert_last: "(\<forall>k' \<in> fst ` set m. k' < k) \<Longrightarrow> bt_insert k v m = m @ [(k, v)]"
  by (induction m) (auto simp: not_less_iff_gr_or_eq)

lemma bt_inv_append: "bt_inv (m @ (k, v) # r) \<Longrightarrow> \<forall>k' \<in> fst ` set m. k' < k"
  by (auto simp: bt_inv_def sorted_wrt_append)

lemma map_from_plain_sorted:
  "bt_inv (out @ raw) \<Longrightarrow> map_from_plain raw out =
     (if \<forall>k \<in> fst ` set raw. valid_secret_key k then Inr (out @ raw) else Inl UnexpectedResponse)"
proof (induction raw arbitrary: out)
  case (Cons kv raw)
  obtain k v where kv: "kv = (k, v)" by (cases kv)
  from Cons.prems kv have inv: "bt_inv (out @ (k, v) # raw)" by simp
  have "bt_insert k v out = out @ [(k, v)]" by (rule bt_insert_last [OF bt_inv_append [OF inv]])
  moreover have "map_from_plain raw (out @ [(k, v)]) =
      (if \<forall>k \<in> fst ` set raw. valid_secret_key k then Inr ((out @ [(k, v)]) @ raw) else Inl UnexpectedResponse)"
    by (rule Cons.IH) (use inv in simp)
  ultimately show ?case by (simp add: kv)
qed simp

lemma secret_map_from_plain_eq:
  "bt_inv raw \<Longrightarrow> secret_map_from_plain raw =
     (if \<forall>k \<in> fst ` set raw. valid_secret_key k then Inr raw else Inl UnexpectedResponse)"
  by (simp add: secret_map_from_plain_def map_from_plain_sorted)

end
