(* ===== verification/ClientConfig.thy ===== *)
theory ClientConfig
  imports ClientHost
begin

text \<open>
  Configuration of the client (\<open>crates/secrets-client/src/config.rs\<close>): where the file is, the
  precedence of the environment over it, and the rule on server URLs. Parsing TOML and URLs
  is third-party code; the parsed URL carries the fields of \<open>url::Url\<close> the code looks at.
\<close>

section \<open>Third-party parsers\<close>

record client_config =
  server_url :: string
  cfg_token :: string

record file_config =
  fc_server_url :: "string option"
  fc_token :: "string option"

text \<open>IP addresses as in \<open>std::net\<close>.\<close>

datatype url_host = Ipv4 u32 | Ipv6 "128 word" | Domain string

record url =
  u_scheme :: string
  u_username :: string
  u_password :: "string option"
  u_host :: "url_host option"
  u_query :: "string option"
  u_fragment :: "string option"

record parsers =
  toml_parse :: "string \<Rightarrow> file_config option"
  url_parse :: "string \<Rightarrow> url option"

section \<open>The server URL\<close>

definition ipv4_is_loopback :: "u32 \<Rightarrow> bool" where
  "ipv4_is_loopback a \<longleftrightarrow> drop_bit 24 a = 127"

definition ipv6_is_loopback :: "128 word \<Rightarrow> bool" where
  "ipv6_is_loopback a \<longleftrightarrow> a = 1"

definition is_loopback_host :: "url \<Rightarrow> bool" where
  "is_loopback_host u = (case u_host u of
     Some (Ipv4 a) \<Rightarrow> ipv4_is_loopback a
   | Some (Ipv6 a) \<Rightarrow> ipv6_is_loopback a
   | Some (Domain d) \<Rightarrow> d = ''localhost''
   | None \<Rightarrow> False)"

definition validate_server_url :: "parsers \<Rightarrow> string \<Rightarrow> client_error + unit" where
  "validate_server_url P raw = (case url_parse P raw of
     None \<Rightarrow> Inl (ConfigError ''invalid server_url'')
   | Some u \<Rightarrow>
       if u_scheme u \<noteq> ''https'' \<and> u_scheme u \<noteq> ''http'' then Inl (ConfigError ''server_url has unsupported scheme'')
       else if u_scheme u = ''http'' \<and> \<not> is_loopback_host u then Inl (ConfigError ''server_url must use https'')
       else if u_username u \<noteq> [] \<or> u_password u \<noteq> None then Inl (ConfigError ''server_url must not contain userinfo'')
       else if u_query u \<noteq> None \<or> u_fragment u \<noteq> None then Inl (ConfigError ''server_url must not contain a query or fragment'')
       else Inr ())"

section \<open>Loading\<close>

definition config_path :: "('m client_scheme, client_error, string) proc" where
  "config_path = (\<lambda>h. (case cl_var_os h ''SECRETS_CONFIG'' of
     Some p \<Rightarrow> retP p
   | None \<Rightarrow> bindP (okOrP (ConfigError ''cannot determine home directory'') (cl_home h)) (\<lambda>home.
       retP (path_join (path_join (path_join home ''.config'') ''secrets'') ''config.toml''))) h)"

text \<open>\<open>.ok().filter(|s| !s.is_empty())\<close>.\<close>

definition nonempty :: "string option \<Rightarrow> string option" where
  "nonempty s = (case s of Some x \<Rightarrow> if x = [] then None else Some x | None \<Rightarrow> None)"

definition or_else :: "'a option \<Rightarrow> 'a option \<Rightarrow> 'a option" where
  "or_else a b = (case a of Some x \<Rightarrow> Some x | None \<Rightarrow> b)"

definition trim_end_slashes :: "string \<Rightarrow> string" where
  "trim_end_slashes s = rev (dropWhile (\<lambda>c. c = CHR ''/'') (rev s))"

definition load_file :: "parsers \<Rightarrow> string \<Rightarrow> ('m client_scheme, client_error, file_config) proc" where
  "load_file P path = bindP (getP (\<lambda>h. path_exists (cl_files h) path)) (\<lambda>present.
     if present then
       bindP (file_query (ConfigError ''failed to read config'') (\<lambda>fs. Option.bind (read_file path fs) from_utf8)) (\<lambda>text.
       okOrP (ConfigError ''failed to parse config'') (toml_parse P text))
     else retP \<lparr>fc_server_url = None, fc_token = None\<rparr>)"

text \<open>The warning \<open>check_permissions\<close> writes to stderr, on Unix, when the file behind the path can be
  touched by group or others; elsewhere there is none.\<close>

definition check_permissions :: "files \<Rightarrow> string \<Rightarrow> string option" where
  "check_permissions fs path = (case node_at fs path of
     None \<Rightarrow> None
   | Some n \<Rightarrow> let mode = node_mode n mod 512 in
       if mode mod 64 \<noteq> 0
       then Some (''[warn] '' @ path @ '' has permissions '' @ octal4 mode @ ''; it should be 600 to protect the token'')
       else None)"

text \<open>\<open>load\<close>; stderr is no part of the state, so the warning is not a step of it.\<close>

definition load_config :: "parsers \<Rightarrow> ('m client_scheme, client_error, client_config) proc" where
  "load_config P =
     bindP config_path (\<lambda>path.
     bindP (load_file P path) (\<lambda>file.
     bindP (getP (\<lambda>h. or_else (nonempty (cl_var h ''SECRETS_SERVER_URL'')) (fc_server_url file))) (\<lambda>url.
     bindP (okOrP (ConfigError ''no server_url configured'') url) (\<lambda>server_url.
     bindP (liftP (validate_server_url P server_url)) (\<lambda>_.
     bindP (getP (\<lambda>h. or_else (nonempty (cl_var h ''SECRETS_TOKEN'')) (fc_token file))) (\<lambda>tok.
     bindP (okOrP (ConfigError ''no token configured'') tok) (\<lambda>token.
     retP \<lparr>server_url = trim_end_slashes server_url, cfg_token = token\<rparr>)))))))"

section \<open>Facts\<close>

text \<open>There is a warning exactly when group or others have a permission, links followed, and the
  number it shows reads back as the permission bits.\<close>

lemma check_permissions_iff:
  "check_permissions fs path \<noteq> None \<longleftrightarrow> (\<exists>n. node_at fs path = Some n \<and> node_mode n mod 64 \<noteq> 0)"
proof -
  have "m mod 512 mod 64 = m mod 64" for m :: nat by (simp add: mod_mod_cancel)
  then show ?thesis by (simp add: check_permissions_def Let_def split: option.splits)
qed

lemma check_permissions_shows:
  assumes "check_permissions fs path = Some s"
  shows "\<exists>n t. node_at fs path = Some n \<and> s = ''[warn] '' @ path @ '' has permissions '' @ t @ ''; it should be 600 to protect the token'' \<and>
    length t = 4 \<and> octal_value t = node_mode n mod 512"
proof -
  from assms obtain n where n: "node_at fs path = Some n"
    and s: "s = ''[warn] '' @ path @ '' has permissions '' @ octal4 (node_mode n mod 512) @ ''; it should be 600 to protect the token''"
    by (auto simp: check_permissions_def Let_def split: option.splits if_splits)
  have "octal_value (octal4 (node_mode n mod 512)) = node_mode n mod 512"
    by (rule octal_value_octal4) (use mod_less_divisor [of 512 "node_mode n"] in linarith)
  moreover have "length (octal4 m) = 4" for m by (simp add: octal4_def)
  ultimately show ?thesis using n s by blast
qed

lemma trim_end_slashes_last: "trim_end_slashes s = [] \<or> last (trim_end_slashes s) \<noteq> CHR ''/''"
proof (cases "dropWhile (\<lambda>c. c = CHR ''/'') (rev s)")
  case (Cons c r)
  then have "c \<noteq> CHR ''/''" using hd_dropWhile [of "\<lambda>c. c = CHR ''/''" "rev s"] by simp
  with Cons show ?thesis by (simp add: trim_end_slashes_def)
qed (simp add: trim_end_slashes_def)

lemma trim_end_slashes_prefix: "\<exists>n. s = trim_end_slashes s @ replicate n (CHR ''/'')"
proof -
  let ?P = "\<lambda>c. c = CHR ''/''"
  have "rev s = takeWhile ?P (rev s) @ dropWhile ?P (rev s)" by simp
  then have "s = rev (dropWhile ?P (rev s)) @ rev (takeWhile ?P (rev s))" by (metis rev_append rev_rev_ident)
  moreover have "takeWhile ?P (rev s) = replicate (length (takeWhile ?P (rev s))) (CHR ''/'')"
    by (rule replicate_eqI) (auto dest: set_takeWhileD)
  ultimately show ?thesis unfolding trim_end_slashes_def by (metis rev_replicate)
qed

lemma validate_ok: "validate_server_url P raw = Inr () \<longleftrightarrow>
   (\<exists>u. url_parse P raw = Some u \<and> (u_scheme u = ''https'' \<or> u_scheme u = ''http'' \<and> is_loopback_host u) \<and>
     u_username u = [] \<and> u_password u = None \<and> u_query u = None \<and> u_fragment u = None)"
  by (auto simp: validate_server_url_def split: option.splits)

lemma load_config_ValD:
  assumes "load_config P h = (Val cfg, h')"
  shows "\<exists>raw. validate_server_url P raw = Inr () \<and> server_url cfg = trim_end_slashes raw \<and>
    (case nonempty (cl_var h ''SECRETS_SERVER_URL'') of Some u \<Rightarrow> raw = u | None \<Rightarrow> True) \<and>
    (case nonempty (cl_var h ''SECRETS_TOKEN'') of Some t \<Rightarrow> cfg_token cfg = t | None \<Rightarrow> True)"
proof -
  have "keeps cl_env (load_file P path)" for path
    unfolding load_file_def by (intro frame keeps_file_query) simp
  moreover have "keeps cl_env config_path"
    by (auto simp: keeps_def config_path_def bindP_def okOrP_def split: option.splits)
  moreover from assms obtain path h0 fc h1 raw where "config_path h = (Val path, h0)" and "load_file P path h0 = (Val fc, h1)"
    and raw: "or_else (nonempty (cl_var h1 ''SECRETS_SERVER_URL'')) (fc_server_url fc) = Some raw" "validate_server_url P raw = Inr ()"
    and tok: "or_else (nonempty (cl_var h1 ''SECRETS_TOKEN'')) (fc_token fc) = Some (cfg_token cfg)"
    and url: "server_url cfg = trim_end_slashes raw"
    by (auto simp: load_config_def bindP_Val_iff)
  ultimately have "cl_env h1 = cl_env h" using keepsD' by metis
  then have var: "cl_var h1 n = cl_var h n" for n by (simp add: cl_var_def)
  show ?thesis
    by (rule exI [of _ raw]) (use raw tok url in \<open>auto simp: var or_else_def split: option.splits\<close>)
qed

end
