(* ===== verification/ClientCache.thy ===== *)
theory ClientCache
  imports PrivateFile ClientWire ClientConfig
begin

text \<open>
  The offline cache (\<open>crates/secrets-client/src/cache.rs\<close>): opening it with its key file
  (Linux variant), sealing a fetched map into an envelope bound to server, token, project and
  time, and reading it back within 24 hours.
\<close>

section \<open>Constants and state\<close>

definition CACHE_VERSION :: byte where "CACHE_VERSION = 2"
definition CACHE_TTL_SECS :: u64 where "CACHE_TTL_SECS = 24 * 60 * 60"
definition MAX_FUTURE_SKEW_SECS :: u64 where "MAX_FUTURE_SKEW_SECS = 120"

definition CACHE_AAD_PREFIX :: "byte list" where
  "CACHE_AAD_PREFIX = str_bytes ''secrets-manager-client-cache-v2''"

record cache_store =
  cs_dir :: string
  cs_key :: master_key
  cs_server_url :: string
  cs_token_hash :: "byte list"

section \<open>Helpers\<close>

definition cache_dir :: "('m client_scheme, client_error, string) proc" where
  "cache_dir = (\<lambda>h. (case cl_var_os h ''SECRETS_CACHE_DIR'' of
     Some p \<Rightarrow> retP p
   | None \<Rightarrow> bindP (okOrP (CacheError ''cannot determine cache directory'') (cl_cache_home h)) (\<lambda>base.
       retP (path_join base ''secrets''))) h)"

text \<open>Whole seconds since the epoch as a \<open>u64\<close>; \<open>SystemTime\<close> holds fewer than \<open>2 ^ 63\<close>.\<close>

definition now_unix :: "('m client_scheme, client_error, u64) proc" where
  "now_unix = bindP system_time (\<lambda>t.
     if t < 0 then throwP (CacheError ''system clock is before Unix epoch'')
     else retP (word_of_int (t div 10 ^ 9)))"

definition b64_decode :: "lib \<Rightarrow> string \<Rightarrow> client_error + byte list" where
  "b64_decode L s = (case b64url_decode L s of None \<Rightarrow> Inl (CacheError ''invalid base64 in cache'') | Some b \<Rightarrow> Inr b)"

definition key_from_slice :: "byte list \<Rightarrow> client_error + master_key" where
  "key_from_slice bytes =
     (if length bytes \<noteq> 32 then Inl (CacheError ''invalid cache key length'') else Inr (MasterKey bytes))"

definition random_key :: "('m client_scheme, client_error, byte list) proc" where
  "random_key = fill_bytes 32"

definition cache_aad :: "cache_store \<Rightarrow> string \<Rightarrow> u64 \<Rightarrow> byte list" where
  "cache_aad cs project created_at_unix =
     CACHE_AAD_PREFIX @ len_prefixed (str_bytes (cs_server_url cs)) @ cs_token_hash cs @
     len_prefixed (str_bytes project) @ u64_le created_at_unix"

definition cache_path :: "lib \<Rightarrow> cache_store \<Rightarrow> string \<Rightarrow> string" where
  "cache_path L cs project = path_join (cs_dir cs)
     (b64url_encode L (sha256 L (str_bytes (cs_server_url cs) @ [0] @ cs_token_hash cs @ [0] @ str_bytes project)) @ ''.json'')"

section \<open>Opening\<close>

definition load_or_create_cache_key :: "lib \<Rightarrow> string \<Rightarrow> ('m client_scheme, client_error, master_key) proc" where
  "load_or_create_cache_key L dir =
     (let path = path_join dir ''cache-key'' in
      bindP (getP (\<lambda>h. path_exists (cl_files h) path)) (\<lambda>present.
      if present then
        bindP (open_private_for_read path) (\<lambda>raw. liftP (key_from_slice raw))
      else
        bindP random_key (\<lambda>raw.
        bindP (write_private_file L path raw) (\<lambda>_.
        retP (MasterKey raw)))))"

definition open_cache :: "lib \<Rightarrow> client_config \<Rightarrow> ('m client_scheme, client_error, cache_store) proc" where
  "open_cache L cfg =
     bindP cache_dir (\<lambda>dir.
     bindP (getP cl_dir_mode) (\<lambda>m.
     bindP (file_op (CacheError ''failed to create cache directory'') (make_dirs m dir)) (\<lambda>_.
     bindP (file_query (CacheError ''failed to stat'') (\<lambda>fs. node_at fs dir)) (\<lambda>meta.
     bindP (if (case meta of Directory m \<Rightarrow> m | RegularFile m r b \<Rightarrow> m | SymbolicLink q \<Rightarrow> 0 | SpecialFile m \<Rightarrow> m) mod 64 \<noteq> 0
            then file_op (CacheError ''failed to chmod'') (\<lambda>fs. Some (set_mode 448 dir fs)) else retP ()) (\<lambda>_.
     bindP (load_or_create_cache_key L dir) (\<lambda>key.
     retP \<lparr>cs_dir = dir, cs_key = key, cs_server_url = server_url cfg,
           cs_token_hash = hash_token L (cfg_token cfg)\<rparr>))))))"

section \<open>Storing, loading, removing\<close>

definition store_cache ::
    "lib \<Rightarrow> serde \<Rightarrow> cache_store \<Rightarrow> string \<Rightarrow> secret_map \<Rightarrow> ('m client_scheme, client_error, unit) proc" where
  "store_cache L D cs project secrets =
     (let plaintext = encode_map D secrets in
      bindP now_unix (\<lambda>created_at_unix.
      bindP (mapErrP (\<lambda>_. CacheError ''failed to encrypt cache payload'')
              (encrypt L (cs_key cs) plaintext (cache_aad cs project created_at_unix))) (\<lambda>(nonce, ciphertext).
      let data = encode_envelope D \<lparr>ev_version = CACHE_VERSION, ev_created_at_unix = created_at_unix,
                   ev_nonce = b64url_encode L nonce, ev_ciphertext = b64url_encode L ciphertext\<rparr> in
      write_private_file L (cache_path L cs project) data)))"

definition saturating_sub :: "u64 \<Rightarrow> u64 \<Rightarrow> u64" where
  "saturating_sub a b = (if b \<le> a then a - b else 0)"

definition load_cache ::
    "lib \<Rightarrow> serde \<Rightarrow> cache_store \<Rightarrow> string \<Rightarrow> ('m client_scheme, client_error, secret_map) proc" where
  "load_cache L D cs project =
     bindP (file_query (CacheError ''failed to read cache'') (read_file (cache_path L cs project))) (\<lambda>data.
     bindP (okOrP (CacheError ''failed to parse cache envelope'') (decode_envelope D data)) (\<lambda>envelope.
     if ev_version envelope \<noteq> CACHE_VERSION then throwP (CacheError ''unsupported cache version'') else
     bindP now_unix (\<lambda>now.
     if ev_created_at_unix envelope > now + MAX_FUTURE_SKEW_SECS then
       throwP (CacheError ''cache timestamp is in the future; refusing to use it'') else
     let age = saturating_sub now (ev_created_at_unix envelope) in
     if age > CACHE_TTL_SECS then throwP (CacheError ''cache expired'') else
     bindP (liftP (b64_decode L (ev_nonce envelope))) (\<lambda>nonce.
     bindP (liftP (b64_decode L (ev_ciphertext envelope))) (\<lambda>ciphertext.
     bindP (mapErrP (\<lambda>_. CacheError ''failed to decrypt cache payload'')
             (liftP (decrypt L (cs_key cs) nonce ciphertext (cache_aad cs project (ev_created_at_unix envelope))))) (\<lambda>plaintext.
     bindP (okOrP (CacheError ''failed to parse cache payload'') (decode_map D plaintext)) (\<lambda>raw.
     liftP (secret_map_from_plain raw))))))))"

definition remove_cache :: "lib \<Rightarrow> cache_store \<Rightarrow> string \<Rightarrow> ('m client_scheme, client_error, unit) proc" where
  "remove_cache L cs project = remove_quietly (cache_path L cs project)"

end
