(* ===== verification/ClientApi.thy ===== *)
theory ClientApi
  imports ClientCache
begin

text \<open>
  The HTTP client (\<open>crates/secrets-client/src/api.rs\<close>): one call of ureq per operation, bounded
  bodies, errors mapped to values, and the offline cache used when the server cannot be
  reached. Warnings on stderr are not modelled.
\<close>

definition MAX_RESPONSE_BYTES :: nat where
  "MAX_RESPONSE_BYTES = 2 ^ 20"

record api =
  api_base :: string
  api_token :: string
  api_cache :: "cache_store option"

section \<open>Construction\<close>

definition with_cache :: "lib \<Rightarrow> client_config \<Rightarrow> bool \<Rightarrow> ('m client_scheme, client_error, api) proc" where
  "with_cache L cfg cache_enabled =
     bindP (if cache_enabled then
              bindP (tryP (open_cache L cfg)) (\<lambda>r. case r of Inr cache \<Rightarrow> retP (Some cache) | Inl e \<Rightarrow> retP None)
            else retP None) (\<lambda>cache.
     retP \<lparr>api_base = server_url cfg, api_token = cfg_token cfg, api_cache = cache\<rparr>)"

definition new_api :: "lib \<Rightarrow> client_config \<Rightarrow> ('m client_scheme, client_error, api) proc" where
  "new_api L cfg = with_cache L cfg True"

definition new_no_cache :: "lib \<Rightarrow> client_config \<Rightarrow> ('m client_scheme, client_error, api) proc" where
  "new_no_cache L cfg = with_cache L cfg False"

definition auth_header :: "api \<Rightarrow> string" where
  "auth_header a = ''Bearer '' @ api_token a"

section \<open>Answers\<close>

fun map_error :: "ureq_result \<Rightarrow> client_error + byte list option" where
  "map_error (UreqOk body) = Inr body"
| "map_error (UreqStatus code) = Inl (if code = 401 then ClientUnauthorized else if code = 403 then ClientForbidden
     else if code = 404 then ClientNotFound else Http code)"
| "map_error (UreqOther m) = Inl (Transport m)"

text \<open>A bounded read.\<close>

definition read_body :: "byte list option \<Rightarrow> client_error + byte list" where
  "read_body body = (case body of
     Some b \<Rightarrow> if MAX_RESPONSE_BYTES < length b then Inl UnexpectedResponse else Inr b
   | None \<Rightarrow> Inl UnexpectedResponse)"

definition read_json :: "(byte list \<Rightarrow> 'a option) \<Rightarrow> byte list option \<Rightarrow> client_error + 'a" where
  "read_json parse body = (case read_body body of
     Inl e \<Rightarrow> Inl e
   | Inr b \<Rightarrow> (case parse b of None \<Rightarrow> Inl UnexpectedResponse | Some x \<Rightarrow> Inr x))"

definition call_api :: "api \<Rightarrow> string \<Rightarrow> string \<Rightarrow> byte list option \<Rightarrow> ('m client_scheme, client_error, byte list option) proc" where
  "call_api a method path body =
     bindP (http \<lparr>hc_method = method, hc_url = api_base a @ path, hc_auth = auth_header a, hc_body = body\<rparr>) (\<lambda>r.
     liftP (map_error r))"

section \<open>Secrets\<close>

definition fetch_secrets :: "serde \<Rightarrow> api \<Rightarrow> string \<Rightarrow> ('m client_scheme, client_error, secret_map) proc" where
  "fetch_secrets D a project =
     bindP (call_api a ''GET'' (''/v1/projects/'' @ project @ ''/secrets'') None) (\<lambda>r.
     bindP (liftP (read_body r)) (\<lambda>buf.
     bindP (okOrP UnexpectedResponse (decode_map D buf)) (\<lambda>raw.
     liftP (secret_map_from_plain raw))))"

definition get_secrets_client :: "lib \<Rightarrow> serde \<Rightarrow> api \<Rightarrow> string \<Rightarrow> ('m client_scheme, client_error, secret_map) proc" where
  "get_secrets_client L D a project =
     bindP (tryP (fetch_secrets D a project)) (\<lambda>fetched. case fetched of
       Inr secrets \<Rightarrow>
         (case api_cache a of
            None \<Rightarrow> retP secrets
          | Some cs \<Rightarrow> bindP (tryP (store_cache L D cs project secrets) :: ('m client_scheme, client_error, client_error + unit) proc) (\<lambda>_. retP secrets))
     | Inl e \<Rightarrow>
         if is_transport e then
           (case api_cache a of
              None \<Rightarrow> throwP e
            | Some cs \<Rightarrow> mapErrP (\<lambda>cache_err. OfflineCacheUnavailable e cache_err) (load_cache L D cs project))
         else throwP e)"

definition set_secret :: "lib \<Rightarrow> serde \<Rightarrow> api \<Rightarrow> string \<Rightarrow> string \<Rightarrow> string \<Rightarrow> ('m client_scheme, client_error, unit) proc" where
  "set_secret L D a project key v =
     bindP (call_api a ''PUT'' (''/v1/projects/'' @ project @ ''/secrets/'' @ key) (Some (encode_value D v))) (\<lambda>_.
     case api_cache a of
       None \<Rightarrow> retP ()
     | Some cs \<Rightarrow> remove_cache L cs project)"

section \<open>Tokens\<close>

definition create_token_client ::
    "serde \<Rightarrow> api \<Rightarrow> string \<Rightarrow> string option \<Rightarrow> u32 option \<Rightarrow> bool \<Rightarrow> ('m client_scheme, client_error, created_token) proc" where
  "create_token_client D a name project ttl_days no_expiry =
     bindP (call_api a ''POST'' ''/v1/tokens'' (Some (encode_token_request D
        \<lparr>tr_name = name, tr_project = project, tr_ttl_days = ttl_days, tr_no_expiry = no_expiry\<rparr>))) (\<lambda>r.
     liftP (read_json (decode_created D) r))"

definition list_tokens_client :: "serde \<Rightarrow> api \<Rightarrow> ('m client_scheme, client_error, client_token_info list) proc" where
  "list_tokens_client D a = bindP (call_api a ''GET'' ''/v1/tokens'' None) (\<lambda>r. liftP (read_json (decode_tokens D) r))"

definition revoke_token_client :: "serde \<Rightarrow> api \<Rightarrow> string \<Rightarrow> ('m client_scheme, client_error, nat) proc" where
  "revoke_token_client D a name =
     bindP (call_api a ''DELETE'' (''/v1/tokens/'' @ name) None) (\<lambda>r. liftP (read_json (decode_revoked D) r))"

end
