(* ===== verification/ClientCommands.thy ===== *)
theory ClientCommands
  imports ClientApi
begin

text \<open>
  The subcommands of the client (\<open>crates/secrets-client/src/commands.rs\<close>, \<open>cli.rs\<close>,
  \<open>main.rs\<close>): what each prints, and how the secrets reach the environment of
  the command that replaces the process (Unix) or is waited for (elsewhere). Writing to stdout is taken to succeed.
\<close>

section \<open>Command line\<close>

datatype client_token_cmd =
    CTokenCreate string "string option" u32 bool
  | CTokenRevoke string
  | CTokenList

datatype client_command =
    CRun (run_project: string) (run_no_cache: bool) (run_args: "string list")
  | CGet string bool string
  | CSet string string
  | CList string bool
  | CExport string bool string
  | CToken client_token_cmd

fun no_cache :: "client_command \<Rightarrow> bool" where
  "no_cache (CRun p b c) = b"
| "no_cache (CGet p b k) = b"
| "no_cache (CList p b) = b"
| "no_cache (CExport p b f) = b"
| "no_cache (CSet p k) = False"
| "no_cache (CToken t) = False"

text \<open>How the client ends: with a status, or replaced by another program and its environment.\<close>

record child =
  ch_program :: string
  ch_args :: "string list"
  ch_env :: "string \<rightharpoonup> byte list"

datatype ending = Exit int | Replaced child

datatype command_error = FromApi client_error | CommandMessage string

section \<open>Environment injection\<close>

definition build_command :: "string list \<Rightarrow> secret_map \<Rightarrow> (string \<rightharpoonup> byte list) \<Rightarrow> child" where
  "build_command cmd secrets parent = \<lparr>ch_program = hd cmd, ch_args = tl cmd,
     ch_env = fold (\<lambda>(k, v) env. env(k \<mapsto> str_bytes v)) secrets parent\<rparr>"

text \<open>\<open>exec\<close> refuses a NUL byte in the program, an argument or a variable; otherwise
  \<open>exec_ok\<close> tells whether the system can start the program.\<close>

definition has_nul :: "string \<Rightarrow> bool" where
  "has_nul s \<longleftrightarrow> CHR 0x00 \<in> set s"

definition run_client :: "lib \<Rightarrow> serde \<Rightarrow> (child \<Rightarrow> bool) \<Rightarrow> api \<Rightarrow> string \<Rightarrow> string list \<Rightarrow> ('m client_scheme, command_error, ending) proc" where
  "run_client L D exec_ok a project cmd =
     (if cmd = [] then throwP (CommandMessage ''no command given after `--`'') else
      bindP (mapErrP FromApi (get_secrets_client L D a project)) (\<lambda>secrets.
      bindP (getP cl_env) (\<lambda>parent.
      let child = build_command cmd secrets parent in
      if list_ex has_nul cmd \<or> list_ex (\<lambda>(k, v). has_nul k \<or> has_nul v) secrets \<or> \<not> exec_ok child
      then throwP (CommandMessage ''failed to exec'') else retP (Replaced child))))"

text \<open>Systems other than Unix start a child and wait: \<open>child_status\<close> is \<open>None\<close> when it cannot be
  started, and otherwise the code it ends with, if it has one.\<close>

definition run_client_wait :: "lib \<Rightarrow> serde \<Rightarrow> (child \<Rightarrow> int option option) \<Rightarrow> api \<Rightarrow> string \<Rightarrow> string list \<Rightarrow> ('m client_scheme, command_error, ending) proc" where
  "run_client_wait L D child_status a project cmd =
     (if cmd = [] then throwP (CommandMessage ''no command given after `--`'') else
      bindP (mapErrP FromApi (get_secrets_client L D a project)) (\<lambda>secrets.
      bindP (getP cl_env) (\<lambda>parent.
      let child = build_command cmd secrets parent in
      if list_ex has_nul cmd \<or> list_ex (\<lambda>(k, v). has_nul k \<or> has_nul v) secrets
      then throwP (CommandMessage ''failed to run'') else
      case child_status child of
        None \<Rightarrow> throwP (CommandMessage ''failed to run'')
      | Some code \<Rightarrow> retP (Exit (case code of Some c \<Rightarrow> c | None \<Rightarrow> 1)))))"

section \<open>Reading and printing\<close>

definition get_client :: "lib \<Rightarrow> serde \<Rightarrow> api \<Rightarrow> string \<Rightarrow> string \<Rightarrow> ('m client_scheme, command_error, ending) proc" where
  "get_client L D a project key =
     bindP (mapErrP FromApi (get_secrets_client L D a project)) (\<lambda>secrets.
     case map_of secrets key of
       Some v \<Rightarrow> bindP (print_out v) (\<lambda>_. bindP (print_out [CHR 0x0A]) (\<lambda>_. retP (Exit 0)))
     | None \<Rightarrow> throwP (CommandMessage (''key not found: '' @ key)))"

fun print_lines :: "string list \<Rightarrow> ('m client_scheme, 'e, unit) proc" where
  "print_lines [] = retP ()"
| "print_lines (l # ls) = bindP (print_line l) (\<lambda>_. print_lines ls)"

definition list_client :: "lib \<Rightarrow> serde \<Rightarrow> api \<Rightarrow> string \<Rightarrow> ('m client_scheme, command_error, ending) proc" where
  "list_client L D a project =
     bindP (mapErrP FromApi (get_secrets_client L D a project)) (\<lambda>secrets.
     bindP (print_lines (map fst secrets)) (\<lambda>_. retP (Exit 0)))"

definition dotenv_safe :: "char \<Rightarrow> bool" where
  "dotenv_safe b \<longleftrightarrow> is_ascii_alnum b \<or> b \<in> {CHR ''_'', CHR ''-'', CHR ''.'', CHR ''/'', CHR '':'', CHR ''@''}"

text \<open>The characters escaped are ASCII, so escaping bytes is escaping characters.\<close>

definition escape_char :: "char \<Rightarrow> string" where
  "escape_char c = (if c = CHR 0x5C then [CHR 0x5C, CHR 0x5C] else if c = CHR 0x22 then [CHR 0x5C, CHR 0x22]
     else if c = CHR 0x0A then [CHR 0x5C, CHR ''n''] else if c = CHR 0x0D then [CHR 0x5C, CHR ''r''] else [c])"

definition dotenv_value :: "string \<Rightarrow> string" where
  "dotenv_value v = (if v \<noteq> [] \<and> list_all dotenv_safe v then v
     else [CHR 0x22] @ concat (map escape_char v) @ [CHR 0x22])"

definition dotenv_text :: "secret_map \<Rightarrow> string" where
  "dotenv_text secrets = concat (map (\<lambda>(k, v). k @ ''='' @ dotenv_value v @ [CHR 0x0A]) secrets)"

definition export_client :: "lib \<Rightarrow> serde \<Rightarrow> api \<Rightarrow> string \<Rightarrow> string \<Rightarrow> ('m client_scheme, command_error, ending) proc" where
  "export_client L D a project format =
     (if format \<noteq> ''dotenv'' then throwP (CommandMessage (''unsupported export format: '' @ format)) else
      bindP (mapErrP FromApi (get_secrets_client L D a project)) (\<lambda>secrets.
      bindP (print_out (dotenv_text secrets)) (\<lambda>_. retP (Exit 0))))"

definition read_secret_value :: "('m client_scheme, command_error, string) proc" where
  "read_secret_value = (\<lambda>h. (if cl_terminal h then
      (\<lambda>h. case cl_inputs h of
         Some s # rest \<Rightarrow> (Val s, h\<lparr>cl_inputs := rest\<rparr>)
       | None # rest \<Rightarrow> (Fail (CommandMessage ''failed to read value from terminal''), h\<lparr>cl_inputs := rest\<rparr>)
       | [] \<Rightarrow> (Fail (CommandMessage ''failed to read value from terminal''), h))
    else
      bindP (okOrP (CommandMessage ''failed to read value from stdin'') (Option.bind (cl_stdin h) from_utf8)) (\<lambda>text.
      let buf = strip_single_trailing_newline text in
      if buf = [] then throwP (CommandMessage ''empty value'') else retP buf)) h)"

definition set_client :: "lib \<Rightarrow> serde \<Rightarrow> api \<Rightarrow> string \<Rightarrow> string \<Rightarrow> ('m client_scheme, command_error, ending) proc" where
  "set_client L D a project key =
     bindP read_secret_value (\<lambda>v.
     bindP (mapErrP FromApi (set_secret L D a project key v)) (\<lambda>_.
     retP (Exit 0)))"

section \<open>Tokens\<close>

definition token_create_client ::
    "serde \<Rightarrow> api \<Rightarrow> string \<Rightarrow> string option \<Rightarrow> u32 option \<Rightarrow> bool \<Rightarrow> ('m client_scheme, command_error, ending) proc" where
  "token_create_client D a name project ttl_days no_expiry =
     bindP (mapErrP FromApi (create_token_client D a name project ttl_days no_expiry)) (\<lambda>created.
     bindP (print_lines [''Token created (name: '' @ cr_name created @ '').'',
       (case cr_scope created of Some scope \<Rightarrow> ''Scope: project '' @ quoted scope | None \<Rightarrow> ''Scope: all projects''),
       (case cr_expires_at created of Some e \<Rightarrow> ''Expires: '' @ e
          | None \<Rightarrow> ''Expires: never (revoke manually when no longer needed)''),
       ''Store it now - it is shown only once:'', cr_token created]) (\<lambda>_.
     retP (Exit 0)))"

definition client_token_line :: "client_token_info \<Rightarrow> string" where
  "client_token_line t = pad_right 20 (cti_name t) @ '' '' @
     pad_right 16 (case cti_scope t of Some s \<Rightarrow> s | None \<Rightarrow> ''(all)'') @ '' '' @
     pad_right 26 (cti_created_at t) @ '' '' @
     pad_right 26 (case cti_expires_at t of Some e \<Rightarrow> e | None \<Rightarrow> ''(never)'') @ '' '' @
     (if cti_revoked t then ''yes'' else ''no'')"

definition token_list_client :: "serde \<Rightarrow> api \<Rightarrow> ('m client_scheme, command_error, ending) proc" where
  "token_list_client D a =
     bindP (mapErrP FromApi (list_tokens_client D a)) (\<lambda>tokens.
     bindP (if tokens = [] then print_line ''(no tokens)'' else
       bindP (print_line (pad_right 20 ''NAME'' @ '' '' @ pad_right 16 ''SCOPE'' @ '' '' @
                          pad_right 26 ''CREATED'' @ '' '' @ pad_right 26 ''EXPIRES'' @ '' REVOKED'')) (\<lambda>_.
       print_lines (map client_token_line tokens))) (\<lambda>_.
     retP (Exit 0)))"

definition token_revoke_client :: "serde \<Rightarrow> api \<Rightarrow> string \<Rightarrow> ('m client_scheme, command_error, ending) proc" where
  "token_revoke_client D a name =
     bindP (mapErrP FromApi (revoke_token_client D a name)) (\<lambda>n.
     bindP (print_line (''Revoked '' @ decimal n @ '' token(s) named '' @ quoted name @ ''.'')) (\<lambda>_.
     retP (Exit 0)))"

section \<open>Dispatch\<close>

text \<open>The command of a configured client, and \<open>dispatch\<close> with the configuration before it.\<close>

definition perform :: "lib \<Rightarrow> serde \<Rightarrow> (child \<Rightarrow> bool) \<Rightarrow> api \<Rightarrow> client_command \<Rightarrow> ('m client_scheme, command_error, ending) proc" where
  "perform L D exec_ok a c = (case c of
       CRun project b cmd \<Rightarrow> run_client L D exec_ok a project cmd
     | CGet project b key \<Rightarrow> get_client L D a project key
     | CSet project key \<Rightarrow> set_client L D a project key
     | CList project b \<Rightarrow> list_client L D a project
     | CExport project b format \<Rightarrow> export_client L D a project format
     | CToken (CTokenCreate name project ttl_days no_expiry) \<Rightarrow>
         token_create_client D a name project (if \<not> no_expiry then Some ttl_days else None) no_expiry
     | CToken (CTokenRevoke name) \<Rightarrow> token_revoke_client D a name
     | CToken CTokenList \<Rightarrow> token_list_client D a)"

definition dispatch :: "lib \<Rightarrow> parsers \<Rightarrow> serde \<Rightarrow> (child \<Rightarrow> bool) \<Rightarrow> client_command \<Rightarrow> ('m client_scheme, command_error, ending) proc" where
  "dispatch L P D exec_ok c =
     bindP (mapErrP FromApi (load_config P)) (\<lambda>cfg.
     bindP (mapErrP FromApi (if no_cache c then new_no_cache L cfg else new_api L cfg)) (\<lambda>a.
     perform L D exec_ok a c))"

text \<open>\<open>main\<close>: the exit code clamped to a byte; the release profile aborts on a panic.\<close>

datatype process_end = Status nat | NowRuns child | Aborted

definition clamp :: "int \<Rightarrow> int \<Rightarrow> int \<Rightarrow> int" where
  "clamp lo hi x = (if x < lo then lo else if hi < x then hi else x)"

definition main_client :: "(command_error, ending) outcome \<Rightarrow> process_end" where
  "main_client r = (case r of
     Val (Exit code) \<Rightarrow> Status (nat (clamp 0 255 code))
   | Val (Replaced c) \<Rightarrow> NowRuns c
   | Fail e \<Rightarrow> Status 1
   | Panic \<Rightarrow> Aborted)"

end
