(* ===== verification/ClientEffects.thy ===== *)
theory ClientEffects
  imports ClientCommands
begin

text \<open>
  What a command of the client may touch besides its result: the requests it makes and the
  files it changes.
\<close>

section \<open>The cache works on files, clock and randomness\<close>

definition beyond_cache :: "('m client_scheme \<Rightarrow> 'a) \<Rightarrow> bool" where
  "beyond_cache f \<longleftrightarrow> (\<forall>h v. f (h\<lparr>cl_files := v\<rparr>) = f h) \<and> (\<forall>h v. f (h\<lparr>cl_faults := v\<rparr>) = f h) \<and>
     (\<forall>h v. f (h\<lparr>cl_tick := v\<rparr>) = f h) \<and> (\<forall>h v. f (h\<lparr>entropy := v\<rparr>) = f h)"

lemma beyond_cacheD:
  "beyond_cache f \<Longrightarrow> f (h\<lparr>cl_files := v\<rparr>) = f h"
  "beyond_cache f \<Longrightarrow> f (h\<lparr>cl_faults := w\<rparr>) = f h"
  "beyond_cache f \<Longrightarrow> f (h\<lparr>cl_tick := t\<rparr>) = f h"
  "beyond_cache f \<Longrightarrow> f (h\<lparr>entropy := e\<rparr>) = f h"
  by (simp_all add: beyond_cache_def)

lemmas keeps_host = keeps_file_op keeps_file_query keeps_write_all keeps_system_time keeps_fill_bytes keeps_encrypt

lemma keeps_state: "(\<And>h. keeps f (g h)) \<Longrightarrow> keeps f (\<lambda>h. g h h)"
  by (simp add: keeps_def)

lemma keeps_case_node: "(\<And>m r b. keeps f (u m r b)) \<Longrightarrow> (\<And>q. keeps f (v q)) \<Longrightarrow> (\<And>m. keeps f (w m)) \<Longrightarrow> (\<And>m. keeps f (x m)) \<Longrightarrow>
    keeps f (case n of RegularFile m r b \<Rightarrow> u m r b | SymbolicLink q \<Rightarrow> v q | Directory m \<Rightarrow> w m | SpecialFile m \<Rightarrow> x m)"
  by (cases n) simp_all

lemma keeps_cache_dir [frame]: "keeps f cache_dir"
  unfolding cache_dir_def by (rule keeps_state, intro frame)

lemma keeps_now_unix: "beyond_cache f \<Longrightarrow> keeps f now_unix"
  unfolding now_unix_def by (intro frame keeps_host) (simp add: beyond_cacheD)

lemma keeps_remove_quietly: "beyond_cache f \<Longrightarrow> keeps f (remove_quietly p)"
  unfolding remove_quietly_def by (intro frame keeps_host) (simp_all add: beyond_cacheD)

lemma keeps_write_private: "beyond_cache f \<Longrightarrow> keeps f (write_private_file L p d)"
  unfolding write_private_file_def make_parent_def random_temp_sibling_def replace_via_def private_open_for_write_def
  by (intro frame keeps_host keeps_remove_quietly) (simp_all add: beyond_cacheD)

lemma keeps_read_private: "beyond_cache f \<Longrightarrow> keeps f (open_private_for_read p)"
  unfolding open_private_for_read_def
  by (intro frame keeps_host keeps_case_node) (simp_all add: beyond_cacheD)

lemma keeps_store_cache: "beyond_cache f \<Longrightarrow> keeps f (store_cache L D cs p m)"
  unfolding store_cache_def Let_def
  by (intro frame keeps_host keeps_now_unix keeps_write_private) (simp_all add: beyond_cacheD)

lemma keeps_load_cache: "beyond_cache f \<Longrightarrow> keeps f (load_cache L D cs p)"
  unfolding load_cache_def Let_def
  by (intro frame keeps_host keeps_now_unix) (simp_all add: beyond_cacheD)

lemma keeps_remove_cache: "beyond_cache f \<Longrightarrow> keeps f (remove_cache L cs p)"
  unfolding remove_cache_def by (rule keeps_remove_quietly)

lemma keeps_open_cache: "beyond_cache f \<Longrightarrow> keeps f (open_cache L cfg)"
  unfolding open_cache_def load_or_create_cache_key_def random_key_def Let_def
  by (intro frame keeps_host keeps_write_private keeps_read_private) (simp_all add: beyond_cacheD)

lemmas keeps_caching = keeps_store_cache keeps_load_cache keeps_remove_cache keeps_open_cache

section \<open>Printing and reading\<close>

lemma keeps_print_lines: "(\<And>h v. f (h\<lparr>cl_out := v\<rparr>) = f h) \<Longrightarrow> keeps f (print_lines ls)"
  by (induction ls) (simp_all add: print_line_def keeps_bindP keeps_print_out keeps_retP)

lemma keeps_read_value: "(\<And>h v. f (h\<lparr>cl_inputs := v\<rparr>) = f h) \<Longrightarrow> keeps f read_secret_value"
proof -
  assume inp: "\<And>h v. f (h\<lparr>cl_inputs := v\<rparr>) = f h"
  have typed: "keeps f (\<lambda>h. case cl_inputs h of
         Some s # rest \<Rightarrow> (Val s, h\<lparr>cl_inputs := rest\<rparr>)
       | None # rest \<Rightarrow> (Fail (CommandMessage ''failed to read value from terminal''), h\<lparr>cl_inputs := rest\<rparr>)
       | [] \<Rightarrow> (Fail (CommandMessage ''failed to read value from terminal''), h))"
    by (auto simp: keeps_def inp split: list.splits option.splits)
  show ?thesis
    unfolding read_secret_value_def Let_def by (rule keeps_state, intro frame typed)
qed

lemma keeps_config_path [frame]: "keeps f config_path"
  unfolding config_path_def by (rule keeps_state, intro frame)

lemma keeps_load_config: "(\<And>h v. f (h\<lparr>cl_faults := v\<rparr>) = f h) \<Longrightarrow> keeps f (load_config P)"
  unfolding load_config_def load_file_def by (intro frame keeps_file_query)

section \<open>Requests\<close>

text \<open>A procedure that makes at most one call of ureq, of a certain kind: what goes over the wire is
  that request and the redirects ureq follows from it.\<close>

definition on_wire :: "'m client_scheme \<Rightarrow> http_call list \<times> http_call list list" where
  "on_wire h = (cl_sent h, cl_hops h)"

definition sends :: "(http_call \<Rightarrow> bool) \<Rightarrow> ('m client_scheme, 'e, 'a) proc \<Rightarrow> bool" where
  "sends Q m \<longleftrightarrow> (\<forall>h. cl_sent (snd (m h)) = cl_sent h \<or> (\<exists>c. Q c \<and> cl_sent (snd (m h)) = cl_sent h @ c # next_hops h))"

lemma sends_keeps: "keeps cl_sent m \<Longrightarrow> sends Q m"
  by (simp add: sends_def keeps_def)

lemma sends_then:
  assumes "sends Q m" and "\<And>x. keeps cl_sent (f x)"
  shows "sends Q (bindP m f)"
  unfolding sends_def
proof
  fix h
  obtain r h' where m: "m h = (r, h')" by (cases "m h")
  have "cl_sent (snd (bindP m f h)) = cl_sent h'"
    using m keepsD [OF assms(2), of _ h'] by (cases r) (simp_all add: bindP_def)
  with assms(1) m show "cl_sent (snd (bindP m f h)) = cl_sent h \<or> (\<exists>c. Q c \<and> cl_sent (snd (bindP m f h)) = cl_sent h @ c # next_hops h)"
    unfolding sends_def by (metis snd_conv)
qed

lemma sends_after:
  assumes "keeps on_wire m" and "\<And>x h h'. m h = (Val x, h') \<Longrightarrow> sends Q (f x)"
  shows "sends Q (bindP m f)"
  unfolding sends_def
proof
  fix h
  obtain r h' where m: "m h = (r, h')" by (cases "m h")
  have "on_wire h' = on_wire h" by (rule keepsD' [OF assms(1) m])
  then have h': "cl_sent h' = cl_sent h" "next_hops h' = next_hops h" by (simp_all add: on_wire_def next_hops_def)
  show "cl_sent (snd (bindP m f h)) = cl_sent h \<or> (\<exists>c. Q c \<and> cl_sent (snd (bindP m f h)) = cl_sent h @ c # next_hops h)"
  proof (cases r)
    case (Val x)
    with assms(2) m have "sends Q (f x)" by blast
    with m Val h' show ?thesis unfolding sends_def by (simp add: bindP_def) (metis h')
  qed (use m h' in \<open>simp_all add: bindP_def\<close>)
qed

lemma sends_mapErr: "sends Q m \<Longrightarrow> sends Q (mapErrP g m)"
  by (simp add: sends_def)

lemma sends_try: "sends Q m \<Longrightarrow> sends Q (tryP m)"
  by (simp add: sends_def)

text \<open>The requests of a client configured with a server and a token.\<close>

definition to_server :: "string \<Rightarrow> string \<Rightarrow> http_call \<Rightarrow> bool" where
  "to_server base tok c \<longleftrightarrow> hc_auth c = ''Bearer '' @ tok \<and> (\<exists>path. hc_url c = base @ ''/v1/'' @ path)"

abbreviation api_sends :: "api \<Rightarrow> ('m client_scheme, 'e, 'a) proc \<Rightarrow> bool" where
  "api_sends a \<equiv> sends (to_server (api_base a) (api_token a))"

lemma sends_call: "(\<exists>p. path = ''/v1/'' @ p) \<Longrightarrow> api_sends a (call_api a meth path body)"
  unfolding call_api_def
  by (rule sends_then) (auto simp: sends_def http_def Let_def to_server_def auth_header_def keeps_liftP split: list.splits)

lemma beyond_sent: "beyond_cache cl_sent" "beyond_cache on_wire"
  by (simp_all add: beyond_cache_def on_wire_def)

lemma sends_get_secrets: "api_sends a (get_secrets_client L D a p)"
proof -
  have "api_sends a (fetch_secrets D a p)"
    unfolding fetch_secrets_def by (intro sends_then sends_call frame) simp
  then show ?thesis
    unfolding get_secrets_client_def
    by (intro sends_then sends_try frame keeps_caching beyond_sent)
qed

lemma sends_set_secret: "api_sends a (set_secret L D a p k v)"
  unfolding set_secret_def by (intro sends_then sends_call frame keeps_caching beyond_sent) simp

lemma sends_tokens:
  "api_sends a (create_token_client D a name project ttl b)" "api_sends a (list_tokens_client D a)"
  "api_sends a (revoke_token_client D a name)"
  unfolding create_token_client_def list_tokens_client_def revoke_token_client_def
  by (intro sends_then sends_call frame; simp)+

lemmas sends_api = sends_get_secrets sends_set_secret sends_tokens

lemma sends_if: "(b \<Longrightarrow> sends Q m) \<Longrightarrow> (\<not> b \<Longrightarrow> sends Q n) \<Longrightarrow> sends Q (if b then m else n)"
  by simp

lemma sends_run: "api_sends a (run_client L D ok a p cmd)"
  unfolding run_client_def Let_def
  by (intro sends_if sends_keeps [OF keeps_throwP] sends_then sends_mapErr sends_api frame)

lemma sends_get: "api_sends a (get_client L D a p k)"
  unfolding get_client_def by (intro sends_then sends_mapErr sends_api frame keeps_print_out) simp_all

lemma sends_list: "api_sends a (list_client L D a p)"
  unfolding list_client_def by (intro sends_then sends_mapErr sends_api frame keeps_print_lines) simp

lemma sends_export: "api_sends a (export_client L D a p fmt)"
  unfolding export_client_def
  by (intro sends_if sends_keeps [OF keeps_throwP] sends_then sends_mapErr sends_api frame keeps_print_out) simp

lemma sends_token_create: "api_sends a (token_create_client D a name project ttl b)"
  unfolding token_create_client_def by (intro sends_then sends_mapErr sends_api frame keeps_print_lines) simp

lemma sends_token_list: "api_sends a (token_list_client D a)"
  unfolding token_list_client_def print_line_def
  by (intro sends_then sends_mapErr sends_api frame keeps_print_lines keeps_print_out) simp_all

lemma sends_token_revoke: "api_sends a (token_revoke_client D a name)"
  unfolding token_revoke_client_def print_line_def
  by (intro sends_then sends_mapErr sends_api frame keeps_print_out) simp

lemmas sends_commands = sends_run sends_get sends_list sends_export sends_token_create sends_token_list sends_token_revoke

lemma sends_set_client: "api_sends a (set_client L D a p k)"
  unfolding set_client_def
  by (intro sends_after [OF keeps_read_value] sends_then sends_mapErr sends_api frame) (simp_all add: on_wire_def)

lemma with_cache_Val: "with_cache L cfg b h = (Val a, h') \<Longrightarrow> api_base a = server_url cfg \<and> api_token a = cfg_token cfg \<and> (\<not> b \<longrightarrow> api_cache a = None)"
  by (auto simp: with_cache_def bindP_Val_iff)

lemma keeps_with_cache: "beyond_cache f \<Longrightarrow> keeps f (with_cache L cfg b)"
  unfolding with_cache_def by (intro frame keeps_caching)

lemma sends_perform: "api_sends a (perform L D ok a c)"
  using sends_commands [of a] sends_set_client [of a]
  by (auto simp: perform_def split: client_command.splits client_token_cmd.splits)

lemma sends_dispatch:
  fixes h :: "'m client_scheme"
  assumes "load_config P h = (Val cfg, h1)" and "dispatch L P D ok c h = (r, h')"
  shows "cl_sent h' = cl_sent h \<or> (\<exists>call. to_server (server_url cfg) (cfg_token cfg) call \<and> cl_sent h' = cl_sent h @ call # next_hops h)"
proof -
  let ?api = "mapErrP FromApi (if no_cache c then new_no_cache L cfg else new_api L cfg) :: ('m client_scheme, command_error, api) proc"
  have "on_wire h1 = on_wire h" by (rule keepsD' [OF keeps_load_config assms(1)]) (simp add: on_wire_def)
  then have same: "cl_sent h1 = cl_sent h" "next_hops h1 = next_hops h" by (simp_all add: on_wire_def next_hops_def)
  have "sends (to_server (server_url cfg) (cfg_token cfg)) (bindP ?api (\<lambda>a. perform L D ok a c))"
  proof (rule sends_after)
    show "keeps on_wire ?api"
      unfolding new_no_cache_def new_api_def by (intro frame keeps_with_cache beyond_sent)
    fix a h h'
    assume "?api h = (Val a, h')"
    then have "api_base a = server_url cfg" "api_token a = cfg_token cfg"
      by (auto simp: new_no_cache_def new_api_def dest: with_cache_Val split: if_splits)
    with sends_perform [of a] show "sends (to_server (server_url cfg) (cfg_token cfg)) (perform L D ok a c)" by simp
  qed
  moreover have "dispatch L P D ok c h = bindP ?api (\<lambda>a. perform L D ok a c) h1"
    using assms(1) by (simp add: dispatch_def bindP_def mapErrP_def)
  ultimately show ?thesis using assms(2) same unfolding sends_def by (metis snd_conv)
qed

lemma sends_nothing: "load_config P h = (r, h1) \<Longrightarrow> \<forall>cfg. r \<noteq> Val cfg \<Longrightarrow> dispatch L P D ok c h = (r', h') \<Longrightarrow> cl_sent h' = cl_sent h"
proof -
  assume run: "load_config P h = (r, h1)" and r: "\<forall>cfg. r \<noteq> Val cfg" and "dispatch L P D ok c h = (r', h')"
  then have "h' = h1" by (cases r) (auto simp: dispatch_def bindP_def mapErrP_def)
  moreover have "cl_sent h1 = cl_sent h" by (rule keepsD' [OF keeps_load_config run]) simp
  ultimately show ?thesis by simp
qed

section \<open>Without a cache\<close>

lemma keeps_call: "(\<And>h u v x. f (h\<lparr>cl_sent := u, cl_net := v, cl_hops := x\<rparr>) = f h) \<Longrightarrow> keeps f (call_api a meth path body)"
  unfolding call_api_def by (intro frame keeps_http)

lemma keeps_get_no_cache:
  assumes "api_cache a = None" and "\<And>h u v x. f (h\<lparr>cl_sent := u, cl_net := v, cl_hops := x\<rparr>) = f h"
  shows "keeps f (get_secrets_client L D a p)"
  unfolding get_secrets_client_def fetch_secrets_def assms(1) option.case by (intro frame keeps_call assms(2))

lemma no_cache_perform:
  assumes "no_cache c" and "api_cache a = None"
  shows "keeps cl_files (perform L D ok a c)"
proof -
  have get: "keeps cl_files (get_secrets_client L D a p)" for p
    by (rule keeps_get_no_cache [OF assms(2)]) simp
  have "keeps cl_files (run_client L D ok a p cmd)" for p cmd
    unfolding run_client_def Let_def by (intro frame get)
  moreover have "keeps cl_files (get_client L D a p k)" for p k
    unfolding get_client_def by (intro frame get keeps_print_out) simp_all
  moreover have "keeps cl_files (list_client L D a p)" for p
    unfolding list_client_def by (intro frame get keeps_print_lines) simp
  moreover have "keeps cl_files (export_client L D a p f)" for p f
    unfolding export_client_def by (intro frame get keeps_print_out) simp
  ultimately show ?thesis using assms(1) by (cases c) (simp_all add: perform_def)
qed

text \<open>A command run with \<open>--no-cache\<close> changes no file.\<close>

lemma no_cache_keeps_files:
  assumes c: "no_cache c"
  shows "keeps cl_files (dispatch L P D ok c)"
proof -
  have cfg: "keeps cl_files (load_config P)" by (rule keeps_load_config) simp
  have none: "mapErrP FromApi (if no_cache c then new_no_cache L cfg else new_api L cfg) =
      retP \<lparr>api_base = server_url cfg, api_token = cfg_token cfg, api_cache = None\<rparr>" for cfg
    using c by (simp add: new_no_cache_def with_cache_def bindP_def retP_def mapErrP_def)
  have cmd: "keeps cl_files (bindP (retP \<lparr>api_base = b, api_token = t, api_cache = None\<rparr>) (\<lambda>a. perform L D ok a c))" for b t
    by (simp add: no_cache_perform [OF c] bindP_def retP_def)
  show ?thesis unfolding dispatch_def none by (rule keeps_bindP [OF keeps_mapErrP [OF cfg] cmd])
qed

end
