(* ===== verification/CacheResults.thy ===== *)
theory CacheResults
  imports ClientCache
begin

text \<open>
  What the offline cache guarantees: its label determines server, token, project and time;
  \<open>cached\<close> is the map a file system offers for a project at an instant, over the integers,
  and \<open>load_cache\<close> implements it; a stored map is offered for 24 hours and no longer. The
  locale \<open>expiring_cache\<close> is the contract the HTTP client relies on.
\<close>

section \<open>Time\<close>

definition fresh_at :: "int \<Rightarrow> int \<Rightarrow> bool" where
  "fresh_at created now \<longleftrightarrow> created \<le> now + 120 \<and> now \<le> created + 24 * 60 * 60"

text \<open>The seconds a reading of the clock gives.\<close>

definition clock_secs :: "'m client_scheme \<Rightarrow> int" where
  "clock_secs h = cl_now h (cl_tick h) div 10 ^ 9"

definition clock_ok :: "'m client_scheme \<Rightarrow> bool" where
  "clock_ok h \<longleftrightarrow> 0 \<le> clock_secs h \<and> clock_secs h < 2 ^ 63"

lemma now_unix_Val: "now_unix h = (Val s, h') \<longleftrightarrow>
    0 \<le> cl_now h (cl_tick h) \<and> s = word_of_int (clock_secs h) \<and> h' = h\<lparr>cl_tick := Suc (cl_tick h)\<rparr>"
  by (auto simp: now_unix_def bindP_Val_iff system_time_def clock_secs_def)

lemma clock_nonneg: "0 \<le> clock_secs h \<longleftrightarrow> 0 \<le> cl_now h (cl_tick h)"
  by (simp add: clock_secs_def pos_imp_zdiv_nonneg_iff)

lemma now_unix_ok: "clock_ok h \<Longrightarrow> now_unix h = (Val (word_of_int (clock_secs h)), h\<lparr>cl_tick := Suc (cl_tick h)\<rparr>)"
  by (simp add: now_unix_Val clock_ok_def clock_nonneg)

lemma uint_secs: "0 \<le> s \<Longrightarrow> s < 2 ^ 63 \<Longrightarrow> uint (word_of_int s :: u64) = s"
  by (simp add: uint_word_of_int)

text \<open>The checks on words are the checks on integers.\<close>

lemma time_checks:
  fixes c :: u64
  assumes "0 \<le> s" and "s < 2 ^ 63"
  shows "\<not> word_of_int s + MAX_FUTURE_SKEW_SECS < c \<and> \<not> CACHE_TTL_SECS < saturating_sub (word_of_int s) c
    \<longleftrightarrow> fresh_at (uint c) s"
proof -
  let ?now = "word_of_int s :: u64"
  have now: "uint ?now = s" by (rule uint_secs [OF assms])
  have "uint (?now + 120) = s + 120"
    using assms now by (simp add: uint_word_ariths mod_pos_pos_trivial)
  then have skew: "?now + MAX_FUTURE_SKEW_SECS < c \<longleftrightarrow> s + 120 < uint c"
    by (simp add: MAX_FUTURE_SKEW_SECS_def word_less_def)
  have ttl: "CACHE_TTL_SECS < saturating_sub ?now c \<longleftrightarrow> uint c + 86400 < s"
  proof (cases "c \<le> ?now")
    case True
    then have "uint (?now - c) = s - uint c" using now by (simp add: uint_minus_simple_alt word_le_def)
    with True show ?thesis by (auto simp: CACHE_TTL_SECS_def saturating_sub_def word_less_def)
  next
    case False
    then have "s < uint c" using now by (simp add: word_le_def)
    with False show ?thesis by (simp add: CACHE_TTL_SECS_def saturating_sub_def word_less_def)
  qed
  show ?thesis using skew ttl by (auto simp: fresh_at_def)
qed

section \<open>Labels\<close>

lemma cache_aad_inject:
  assumes "length (cs_server_url cs) < 2 ^ 32" and "length (cs_server_url cs') < 2 ^ 32"
    and "length p < 2 ^ 32" and "length p' < 2 ^ 32" and "length (cs_token_hash cs) = length (cs_token_hash cs')"
  shows "cache_aad cs p t = cache_aad cs' p' t' \<longleftrightarrow>
    cs_server_url cs = cs_server_url cs' \<and> cs_token_hash cs = cs_token_hash cs' \<and> p = p' \<and> t = t'"
  using assms by (simp add: cache_aad_def lenp.frame_append_iff lenp.frame_inject short_block_def)

section \<open>The map a file system offers\<close>

definition open_envelope :: "lib \<Rightarrow> serde \<Rightarrow> cache_store \<Rightarrow> string \<Rightarrow> envelope \<Rightarrow> secret_map option" where
  "open_envelope L D cs p e = (case (b64url_decode L (ev_nonce e), b64url_decode L (ev_ciphertext e)) of
     (Some n, Some c) \<Rightarrow> (case decrypt L (cs_key cs) n c (cache_aad cs p (ev_created_at_unix e)) of
        Inr pt \<Rightarrow> (case decode_map D pt of
           Some m \<Rightarrow> if \<forall>k \<in> fst ` set m. valid_secret_key k then Some m else None
         | None \<Rightarrow> None)
      | Inl err \<Rightarrow> None)
   | _ \<Rightarrow> None)"

definition cached :: "lib \<Rightarrow> serde \<Rightarrow> cache_store \<Rightarrow> files \<Rightarrow> int \<Rightarrow> string \<Rightarrow> secret_map option" where
  "cached L D cs fs now p = (case Option.bind (read_file (cache_path L cs p) fs) (decode_envelope D) of
     Some e \<Rightarrow> if ev_version e = CACHE_VERSION \<and> fresh_at (uint (ev_created_at_unix e)) now
       then open_envelope L D cs p e else None
   | None \<Rightarrow> None)"

lemma open_envelope_Some: "open_envelope L D cs p e = Some m \<longleftrightarrow>
    (\<exists>n c pt. b64url_decode L (ev_nonce e) = Some n \<and> b64url_decode L (ev_ciphertext e) = Some c \<and>
       decrypt L (cs_key cs) n c (cache_aad cs p (ev_created_at_unix e)) = Inr pt \<and> decode_map D pt = Some m \<and>
       (\<forall>k \<in> fst ` set m. valid_secret_key k))"
  by (auto simp: open_envelope_def split: option.splits sum.splits)

text \<open>The second half of \<open>load\<close>.\<close>

lemma envelope_opens:
  assumes "serde_ok D"
  shows "bindP (liftP (b64_decode L (ev_nonce e))) (\<lambda>nonce. bindP (liftP (b64_decode L (ev_ciphertext e))) (\<lambda>ciphertext.
     bindP (mapErrP (\<lambda>_. CacheError msg) (liftP (decrypt L (cs_key cs) nonce ciphertext (cache_aad cs p (ev_created_at_unix e))))) (\<lambda>plaintext.
     bindP (okOrP (CacheError msg') (decode_map D plaintext)) (\<lambda>raw. liftP (secret_map_from_plain raw))))) h = (Val m, h')
   \<longleftrightarrow> open_envelope L D cs p e = Some m \<and> h' = h"
proof -
  have plain: "secret_map_from_plain raw = Inr m \<longleftrightarrow> raw = m \<and> (\<forall>k \<in> fst ` set m. valid_secret_key k)"
    if "decode_map D pt = Some raw" for raw pt
    using assms that secret_map_from_plain_eq [of raw] by (auto simp: serde_ok_def split: if_splits)
  show ?thesis
    unfolding open_envelope_Some
    by (auto simp: bindP_Val_iff b64_decode_def plain split: option.splits)
qed

lemma load_cache_Val:
  assumes D: "serde_ok D" and clk: "clock_ok h"
  shows "load_cache L D cs p h = (Val m, h') \<Longrightarrow> cached L D cs (cl_files h) (clock_secs h) p = Some m"
proof -
  assume run: "load_cache L D cs p h = (Val m, h')"
  from run obtain data h1 e where q: "file_query (CacheError ''failed to read cache'') (read_file (cache_path L cs p)) h = (Val data, h1)"
    and e: "decode_envelope D data = Some e" "ev_version e = CACHE_VERSION"
    by (auto simp: load_cache_def bindP_Val_iff)
  from file_query_Val [OF q] have data: "read_file (cache_path L cs p) (cl_files h) = Some data" by simp
  have same: "cl_now h1 (cl_tick h1) = cl_now h (cl_tick h)"
    using keepsD' [OF keeps_file_query q, of "\<lambda>h. cl_now h (cl_tick h)"] by simp
  then have clk1: "clock_ok h1" "clock_secs h1 = clock_secs h" using clk by (simp_all add: clock_ok_def clock_secs_def)
  let ?h2 = "h1\<lparr>cl_tick := Suc (cl_tick h1)\<rparr>"
  let ?now = "word_of_int (clock_secs h) :: u64"
  from run q e now_unix_ok [OF clk1(1)] clk1(2)
  have late: "\<not> ?now + MAX_FUTURE_SKEW_SECS < ev_created_at_unix e" "\<not> CACHE_TTL_SECS < saturating_sub ?now (ev_created_at_unix e)"
    and rest: "open_envelope L D cs p e = Some m"
    by (auto simp: load_cache_def bindP_def [of "file_query _ _"] bindP_def [of now_unix] Let_def envelope_opens [OF D])
  from clk late have "fresh_at (uint (ev_created_at_unix e)) (clock_secs h)"
    using time_checks [of "clock_secs h" "ev_created_at_unix e"] by (simp add: clock_ok_def)
  with data e rest show ?thesis by (simp add: cached_def)
qed

lemma load_cache_ok:
  assumes D: "serde_ok D" and clk: "clock_ok h" and q: "cl_faults h = []"
    and c: "cached L D cs (cl_files h) (clock_secs h) p = Some m"
  shows "load_cache L D cs p h = (Val m, h\<lparr>cl_tick := Suc (cl_tick h)\<rparr>)"
proof -
  from c obtain data e where data: "read_file (cache_path L cs p) (cl_files h) = Some data" and e: "decode_envelope D data = Some e"
      "ev_version e = CACHE_VERSION" "fresh_at (uint (ev_created_at_unix e)) (clock_secs h)" and m: "open_envelope L D cs p e = Some m"
    by (auto simp: cached_def bind_eq_Some_conv split: option.splits if_splits)
  have late: "\<not> word_of_int (clock_secs h) + MAX_FUTURE_SKEW_SECS < ev_created_at_unix e"
    "\<not> CACHE_TTL_SECS < saturating_sub (word_of_int (clock_secs h)) (ev_created_at_unix e)"
    using time_checks [of "clock_secs h" "ev_created_at_unix e"] e(3) clk by (auto simp: clock_ok_def)
  have "file_query (CacheError ''failed to read cache'') (read_file (cache_path L cs p)) h = (Val data, h)"
    by (rule file_query_ok) (use q data in simp_all)
  with e(1,2) late m now_unix_ok [OF clk] show ?thesis
    by (simp add: load_cache_def bindP_def [of "file_query _ _"] bindP_def [of now_unix] Let_def envelope_opens [OF D])
qed

section \<open>The contract\<close>

text \<open>
  A cache whose entries expire: what was stored is offered exactly while it is fresh, and not
  after it was removed. \<open>clock\<close> reads the time of a state.
\<close>

locale expiring_cache =
  fixes put :: "'s \<Rightarrow> 'k \<Rightarrow> 'v \<Rightarrow> 's option" and del :: "'s \<Rightarrow> 'k \<Rightarrow> 's option"
    and offers :: "'s \<Rightarrow> int \<Rightarrow> 'k \<Rightarrow> 'v option" and clock :: "'s \<Rightarrow> int"
    and storable :: "'v \<Rightarrow> bool" and fresh :: "int \<Rightarrow> int \<Rightarrow> bool"
  assumes offers_put: "storable v \<Longrightarrow> put s k v = Some s' \<Longrightarrow> offers s' now k = (if fresh (clock s) now then Some v else None)"
    and offers_del: "del s k = Some s' \<Longrightarrow> offers s' now k = None"
begin

lemma offers_only_put: "storable v \<Longrightarrow> put s k v = Some s' \<Longrightarrow> offers s' now k = Some v' \<Longrightarrow> v' = v \<and> fresh (clock s) now"
  by (simp add: offers_put split: if_splits)

lemma offers_fresh: "storable v \<Longrightarrow> put s k v = Some s' \<Longrightarrow> fresh (clock s) now \<Longrightarrow> offers s' now k = Some v"
  by (simp add: offers_put)

lemma stale_put: "storable v \<Longrightarrow> put s k v = Some s' \<Longrightarrow> \<not> fresh (clock s) now \<Longrightarrow> offers s' now k = None"
  by (simp add: offers_put)

end

definition put_cached :: "lib \<Rightarrow> serde \<Rightarrow> cache_store \<Rightarrow> client \<Rightarrow> string \<Rightarrow> secret_map \<Rightarrow> client option" where
  "put_cached L D cs h p m = (case store_cache L D cs p m h of (Val u, h') \<Rightarrow> if clock_secs h < 2 ^ 63 then Some h' else None | _ \<Rightarrow> None)"

definition del_cached :: "lib \<Rightarrow> cache_store \<Rightarrow> client \<Rightarrow> string \<Rightarrow> client option" where
  "del_cached L cs h p = (if cl_faults h = [] then Some (snd (remove_cache L cs p h)) else None)"

definition storable :: "secret_map \<Rightarrow> bool" where
  "storable m \<longleftrightarrow> bt_inv m \<and> (\<forall>(k, v) \<in> set m. valid_secret_key k \<and> is_str v)"

text \<open>What the code relies on of its libraries.\<close>

definition client_libs :: "lib \<Rightarrow> serde \<Rightarrow> bool" where
  "client_libs L D \<longleftrightarrow> aead_ok L \<and> b64_ok L \<and> serde_ok D"

lemma b64_plain: "b64_ok L \<Longrightarrow> plain_name (b64url_encode L bs @ ''.json'')"
proof -
  assume "b64_ok L"
  then have "is_ascii_alnum c \<or> c = CHR ''-'' \<or> c = CHR ''_''" if "c \<in> set (b64url_encode L bs)" for c
    using that by (auto simp: b64_ok_def)
  moreover have "\<not> is_ascii_alnum (CHR ''/'')" by (simp add: is_ascii_alnum_def)
  ultimately show ?thesis by (auto simp: plain_name_def)
qed

lemma b64_str: "b64_ok L \<Longrightarrow> is_str (b64url_encode L bs)"
proof (rule ascii_is_str)
  assume "b64_ok L"
  then have "is_ascii_alnum c \<or> c = CHR ''-'' \<or> c = CHR ''_''" if "c \<in> set (b64url_encode L bs)" for c
    using that by (auto simp: b64_ok_def)
  then have "of_char c < (128::nat)" if "c \<in> set (b64url_encode L bs)" for c
    using that is_ascii_alnum_ascii [of c] by fastforce
  then show "ascii_str (b64url_encode L bs)" by (simp add: ascii_str_def)
qed

lemma cache_file_name: "b64_ok L \<Longrightarrow> \<exists>n. file_name (cache_path L cs p) = Some n"
  using b64_plain file_name_join by (auto simp: cache_path_def)

lemma cache_path_parent: "b64_ok L \<Longrightarrow> path_parent (cache_path L cs p) \<noteq> Some (cache_path L cs p)"
  using cache_file_name parent_is_elsewhere by metis

lemma store_cache_Val:
  assumes libs: "client_libs L D" and m: "storable m" and small: "clock_secs h < 2 ^ 63"
    and run: "store_cache L D cs p m h = (Val u, h')"
  shows "cached L D cs (cl_files h') now p = (if fresh_at (clock_secs h) now then Some m else None)"
proof -
  let ?t = "word_of_int (clock_secs h) :: u64"
  from libs have L: "aead_ok L" "b64_ok L" "serde_ok D" by (simp_all add: client_libs_def)
  from run obtain h1 n c h2 where nn: "0 \<le> cl_now h (cl_tick h)" and enc: "encrypt L (cs_key cs) (encode_map D m) (cache_aad cs p ?t) h1 = (Val (n, c), h2)"
    and w: "write_private_file L (cache_path L cs p) (encode_envelope D \<lparr>ev_version = CACHE_VERSION, ev_created_at_unix = ?t,
       ev_nonce = b64url_encode L n, ev_ciphertext = b64url_encode L c\<rparr>) h2 = (Val u, h')"
    by (auto simp: store_cache_def bindP_Val_iff Let_def now_unix_Val split: prod.splits)
  let ?e = "\<lparr>ev_version = CACHE_VERSION, ev_created_at_unix = ?t, ev_nonce = b64url_encode L n, ev_ciphertext = b64url_encode L c\<rparr>"
  have "cl_files h' (cache_path L cs p) = Some (RegularFile 384 True (encode_envelope D ?e))"
    using write_private_file_files [OF L(2) w cache_path_parent [OF L(2)]] by auto
  then have "read_file (cache_path L cs p) (cl_files h') = Some (encode_envelope D ?e)"
    by (simp add: read_file_def node_at_plain)
  moreover have "decode_envelope D (encode_envelope D ?e) = Some ?e"
    using L(3) b64_str [OF L(2)] by (simp add: serde_ok_def)
  moreover have "uint ?t = clock_secs h" using nn small clock_nonneg by (intro uint_secs) auto
  moreover have "open_envelope L D cs p ?e = Some m"
  proof -
    have "b64url_decode L (b64url_encode L x) = Some x" for x using L(2) by (simp add: b64_ok_def)
    moreover have "decode_map D (encode_map D m) = Some m"
    proof -
      have "bt_inv m" "\<forall>(k, v) \<in> set m. is_str k \<and> is_str v"
        using m received_key.valid_is_str by (auto simp: storable_def)
      then show ?thesis using L(3) by (simp add: serde_ok_def)
    qed
    moreover have "\<forall>k \<in> fst ` set m. valid_secret_key k" using m by (auto simp: storable_def)
    ultimately show ?thesis using decrypt_encrypt [OF L(1) enc] by (simp add: open_envelope_Some)
  qed
  ultimately show ?thesis by (simp add: cached_def)
qed

lemma remove_cache_quiet:
  assumes "cl_faults h = []"
  shows "cached L D cs (cl_files (snd (remove_cache L cs p h))) now p = None"
proof -
  let ?p = "cache_path L cs p"
  have "read_file ?p (cl_files (snd (remove_cache L cs p h))) = None"
  proof (cases "remove_file ?p (cl_files h)")
    case None
    then have "read_file ?p (cl_files h) = None"
      by (auto simp: remove_file_def read_file_def node_at_none node_at_plain split: option.splits node.splits)
    with None assms show ?thesis by (simp add: remove_cache_def remove_quietly_def bindP_def tryP_def file_op_def fault_quiet)
  next
    case (Some fs)
    then have "fs ?p = None" by (auto simp: remove_file_def split: option.splits node.splits)
    with Some assms show ?thesis
      by (simp add: remove_cache_def remove_quietly_def bindP_def tryP_def file_op_def fault_quiet read_file_def node_at_none)
  qed
  then show ?thesis by (simp add: cached_def)
qed

interpretation offline: expiring_cache
    "if client_libs L D then put_cached L D cs else (\<lambda>h p m. None)" "del_cached L cs"
    "\<lambda>h now p. cached L D cs (cl_files h) now p" clock_secs storable fresh_at for L D cs
proof unfold_locales
  show "cached L D cs (cl_files h') now k = (if fresh_at (clock_secs h) now then Some v else None)"
    if "storable v" and "(if client_libs L D then put_cached L D cs else (\<lambda>h p m. None)) h k v = Some h'" for v h k h' now
    using that store_cache_Val [of L D v h cs k "()" h'] by (auto simp: put_cached_def split: if_splits prod.splits outcome.splits)
  show "cached L D cs (cl_files h') now k = None" if "del_cached L cs h k = Some h'" for h k h' now
    using that remove_cache_quiet by (auto simp: del_cached_def split: if_splits)
qed

end
