(* ===== verification/ClientResults.thy ===== *)
theory ClientResults
  imports CacheResults ClientCommands
begin

text \<open>
  What the client's operations return: where a served map comes from, what a refusal does,
  what a successful \<open>set\<close> forgets, the environment of a started command, and that a map
  fetched online is served offline.
\<close>

section \<open>Requests\<close>

definition answer :: "'m client_scheme \<Rightarrow> ureq_result" where
  "answer h = (case cl_net h of [] \<Rightarrow> UreqOther ''io error'' | r # rs \<Rightarrow> r)"

text \<open>The state after one request.\<close>

definition asked :: "http_call \<Rightarrow> 'm client_scheme \<Rightarrow> 'm client_scheme" where
  "asked c h = h\<lparr>cl_sent := cl_sent h @ c # next_hops h, cl_net := tl (cl_net h), cl_hops := tl (cl_hops h)\<rparr>"

lemma http_eq: "http c h = (Val (answer h), asked c h)"
  by (cases "cl_net h") (simp_all add: http_def answer_def asked_def)

lemma call_api_eq: "call_api a meth path body h = (case map_error (answer h) of
     Inl e \<Rightarrow> (Fail e, asked \<lparr>hc_method = meth, hc_url = api_base a @ path, hc_auth = auth_header a, hc_body = body\<rparr> h)
   | Inr b \<Rightarrow> (Val b, asked \<lparr>hc_method = meth, hc_url = api_base a @ path, hc_auth = auth_header a, hc_body = body\<rparr> h))"
  by (simp add: call_api_def bindP_def http_eq split: sum.splits)

lemma asked_simps [simp]:
  "cl_files (asked c h) = cl_files h" "cl_faults (asked c h) = cl_faults h" "clock_secs (asked c h) = clock_secs h"
  "clock_ok (asked c h) = clock_ok h" "cl_env (asked c h) = cl_env h" "cl_tick (asked c h) = cl_tick h" "entropy (asked c h) = entropy h"
  by (simp_all add: asked_def clock_secs_def clock_ok_def)

definition get_call :: "api \<Rightarrow> string \<Rightarrow> http_call" where
  "get_call a p = \<lparr>hc_method = ''GET'', hc_url = api_base a @ ''/v1/projects/'' @ p @ ''/secrets'', hc_auth = auth_header a, hc_body = None\<rparr>"

text \<open>What a fetch makes of the answer.\<close>

definition fetched :: "serde \<Rightarrow> ureq_result \<Rightarrow> client_error + secret_map" where
  "fetched D r = (case map_error r of
     Inl e \<Rightarrow> Inl e
   | Inr body \<Rightarrow> (case read_json (decode_map D) body of Inl e \<Rightarrow> Inl e | Inr raw \<Rightarrow> secret_map_from_plain raw))"

lemma fetch_secrets_eq: "fetch_secrets D a p h =
    ((case fetched D (answer h) of Inl e \<Rightarrow> Fail e | Inr m \<Rightarrow> Val m), asked (get_call a p) h)"
  by (simp add: fetch_secrets_def bindP_def call_api_eq fetched_def read_json_def get_call_def split: sum.splits option.splits)

lemma fetched_Inr: "serde_ok D \<Longrightarrow> fetched D r = Inr m \<longleftrightarrow>
    (\<exists>b. r = UreqOk (Some b) \<and> length b \<le> MAX_RESPONSE_BYTES \<and> decode_map D b = Some m \<and> (\<forall>k \<in> fst ` set m. valid_secret_key k))"
proof -
  assume D: "serde_ok D"
  have plain: "secret_map_from_plain raw = (if \<forall>k \<in> fst ` set raw. valid_secret_key k then Inr raw else Inl UnexpectedResponse)"
    if "decode_map D b = Some raw" for b raw
    using D that secret_map_from_plain_eq by (auto simp: serde_ok_def)
  show ?thesis
    by (cases r) (auto simp: fetched_def read_json_def read_body_def plain split: option.splits if_splits)
qed

lemma fetched_transport: "fetched D r = Inl e \<Longrightarrow> is_transport e \<longleftrightarrow> (\<exists>m. r = UreqOther m)"
proof -
  have bad: "\<not> is_transport e" if "secret_map_from_plain raw = Inl e" for raw
  proof -
    have "map_from_plain raw out = Inl e \<Longrightarrow> e = UnexpectedResponse" for out
      by (induction raw out rule: map_from_plain.induct) (auto split: if_splits)
    from this [of "[]"] that show ?thesis by (auto simp: secret_map_from_plain_def)
  qed
  assume "fetched D r = Inl e"
  then show ?thesis
    by (cases r) (auto simp: fetched_def read_json_def read_body_def dest: bad split: option.splits if_splits sum.splits)
qed

section \<open>Getting secrets\<close>

lemma get_secrets_fetched_eq: "fetched D (answer h) = Inr m \<Longrightarrow> get_secrets_client L D a p h =
    (case api_cache a of
       None \<Rightarrow> (Val m, asked (get_call a p) h)
     | Some cs \<Rightarrow> (case store_cache L D cs p m (asked (get_call a p) h) of
         (Panic, h') \<Rightarrow> (Panic, h') | (Val u, h') \<Rightarrow> (Val m, h') | (Fail e, h') \<Rightarrow> (Val m, h')))"
  by (simp add: get_secrets_client_def bindP_def tryP_def fetch_secrets_eq split: option.splits prod.splits outcome.splits)

lemma get_secrets_failed_eq: "fetched D (answer h) = Inl e \<Longrightarrow> get_secrets_client L D a p h =
    (if is_transport e then
       (case api_cache a of
          None \<Rightarrow> (Fail e, asked (get_call a p) h)
        | Some cs \<Rightarrow> mapErrP (\<lambda>cache_err. OfflineCacheUnavailable e cache_err) (load_cache L D cs p) (asked (get_call a p) h))
     else (Fail e, asked (get_call a p) h))"
  by (simp add: get_secrets_client_def bindP_def tryP_def fetch_secrets_eq split: option.splits)

lemma get_secrets_Val:
  assumes D: "serde_ok D" and clk: "clock_ok h" and run: "get_secrets_client L D a p h = (Val m, h')"
  shows "(\<forall>k \<in> fst ` set m. valid_secret_key k) \<and> bt_inv m \<and>
    ((\<exists>b. answer h = UreqOk (Some b) \<and> length b \<le> MAX_RESPONSE_BYTES \<and> decode_map D b = Some m) \<or>
     (\<exists>msg cs. answer h = UreqOther msg \<and> api_cache a = Some cs \<and> cached L D cs (cl_files h) (clock_secs h) p = Some m))"
proof (cases "fetched D (answer h)")
  case (Inr m')
  with run have "m' = m" by (auto simp: get_secrets_fetched_eq split: option.splits prod.splits outcome.splits)
  with Inr fetched_Inr [OF D] have "\<exists>b. answer h = UreqOk (Some b) \<and> length b \<le> MAX_RESPONSE_BYTES \<and> decode_map D b = Some m"
    "\<forall>k \<in> fst ` set m. valid_secret_key k" by auto
  with D show ?thesis by (auto simp: serde_ok_def)
next
  case (Inl e)
  with run obtain cs where e: "is_transport e" and cs: "api_cache a = Some cs" "load_cache L D cs p (asked (get_call a p) h) = (Val m, h')"
    by (auto simp: get_secrets_failed_eq split: option.splits if_splits)
  from load_cache_Val [OF D _ cs(2)] clk have c: "cached L D cs (cl_files h) (clock_secs h) p = Some m" by simp
  then obtain pt where "decode_map D pt = Some m" "\<forall>k \<in> fst ` set m. valid_secret_key k"
    by (auto simp: cached_def open_envelope_Some split: option.splits if_splits)
  moreover obtain msg where "answer h = UreqOther msg" using fetched_transport [OF Inl] e by blast
  ultimately show ?thesis using c cs(1) D by (auto simp: serde_ok_def)
qed

lemma get_secrets_refused:
  assumes "answer h = UreqStatus code"
  shows "get_secrets_client L D a p h =
    (Fail (if code = 401 then ClientUnauthorized else if code = 403 then ClientForbidden else if code = 404 then ClientNotFound else Http code),
     asked (get_call a p) h)"
  using assms by (simp add: get_secrets_client_def bindP_def tryP_def fetch_secrets_eq fetched_def)

lemma get_secrets_offline:
  assumes D: "serde_ok D" and clk: "clock_ok h" and q: "cl_faults h = []"
    and a: "answer h = UreqOther msg" "api_cache a = Some cs" and c: "cached L D cs (cl_files h) (clock_secs h) p = Some m"
  shows "\<exists>h'. get_secrets_client L D a p h = (Val m, h')"
proof -
  have "load_cache L D cs p (asked (get_call a p) h) = (Val m, (asked (get_call a p) h)\<lparr>cl_tick := Suc (cl_tick h)\<rparr>)"
    using load_cache_ok [OF D, of "asked (get_call a p) h"] clk q c by simp
  with a show ?thesis
    by (simp add: get_secrets_client_def bindP_def tryP_def fetch_secrets_eq fetched_def mapErrP_def)
qed

text \<open>A fetched map is returned whether or not the cache can be written, unless the random
  source panics.\<close>

lemma get_secrets_fetched:
  assumes "fetched D (answer h) = Inr m"
  shows "fst (get_secrets_client L D a p h) = Val m \<or> (api_cache a \<noteq> None \<and> fst (get_secrets_client L D a p h) = Panic)"
  using assms
  by (auto simp: get_secrets_fetched_eq split: option.splits prod.splits outcome.splits)

section \<open>Setting a secret\<close>

lemma set_secret_Val:
  assumes q: "cl_faults h = []" and cs: "api_cache a = Some cs" and run: "set_secret L D a p k v h = (Val u, h')"
  shows "cached L D cs (cl_files h') now p = None"
proof -
  from run cs obtain b where "remove_cache L cs p (asked \<lparr>hc_method = ''PUT'', hc_url = api_base a @ ''/v1/projects/'' @ p @ ''/secrets/'' @ k,
      hc_auth = auth_header a, hc_body = Some (encode_value D v)\<rparr> h) = (Val u, h')"
    by (auto simp: set_secret_def bindP_Val_iff call_api_eq split: sum.splits)
  from remove_cache_quiet [of "asked _ h", unfolded asked_simps, OF q] this show ?thesis by (metis snd_conv)
qed

lemma set_secret_ok: "answer h = UreqOk b \<Longrightarrow> \<exists>h'. set_secret L D a p k v h = (Val (), h')"
proof -
  assume ok: "answer h = UreqOk b"
  have "\<exists>h''. remove_cache L cs p h' = (Val (), h'')" for cs and h' :: "'a client_scheme"
    using remove_quietly_files [of "cache_path L cs p" h'] by (cases "remove_quietly (cache_path L cs p) h'") (auto simp: remove_cache_def)
  with ok show ?thesis by (simp add: set_secret_def bindP_def call_api_eq split: option.split)
qed

section \<open>The environment of a command\<close>

lemma fold_env: "bt_inv m \<Longrightarrow> fold (\<lambda>(k, v) env. env(k \<mapsto> str_bytes v)) m env =
    env ++ (\<lambda>k. map_option str_bytes (map_of m k))"
proof (induction m arbitrary: env)
  case (Cons kv m)
  obtain k v where kv: "kv = (k, v)" by (cases kv)
  from Cons.prems kv have inv: "bt_inv m" and new: "map_of m k = None"
    by (auto simp: bt_inv_Cons map_of_eq_None_iff)
  from Cons.IH [OF inv, of "env(k \<mapsto> str_bytes v)"] new show ?case
    by (auto simp: kv map_add_def fun_eq_iff split: option.splits)
qed (simp add: map_add_def)

lemma run_client_Val:
  assumes "run_client L D exec_ok a p cmd h = (Val r, h')"
  shows "\<exists>prog args m. cmd = prog # args \<and> get_secrets_client L D a p h = (Val m, h') \<and>
    r = Replaced (build_command cmd m (cl_env h'))"
  using assms by (cases cmd) (auto simp: run_client_def bindP_Val_iff Let_def split: if_splits)

section \<open>From online to offline\<close>

text \<open>A file system in which the cache file of a project can be replaced.\<close>

definition cache_writable :: "lib \<Rightarrow> cache_store \<Rightarrow> string \<Rightarrow> 'm client_scheme \<Rightarrow> bool" where
  "cache_writable L cs p h \<longleftrightarrow> (let path = cache_path L cs p in
     cl_faults h = [] \<and> 40 \<le> length (entropy h) \<and>
     (case path_parent path of Some d \<Rightarrow> (case cl_files h d of Some (Directory m) \<Rightarrow> True | _ \<Rightarrow> False) | None \<Rightarrow> False) \<and>
     (\<forall>s. cl_files h (with_file_name path (the (file_name path) @ ''.'' @ s @ ''.tmp'')) = None) \<and>
     (case cl_files h path of Some (Directory m) \<Rightarrow> False | _ \<Rightarrow> True))"

lemma store_cache_ok:
  fixes h :: "'m client_scheme"
  assumes libs: "client_libs L D" and key: "key_ok (cs_key cs)" and w: "cache_writable L cs p h" and clk: "clock_ok h"
    and small: "length (encode_map D m) < 2 ^ 32"
  shows "\<exists>h'. store_cache L D cs p m h = (Val (), h')"
proof -
  let ?path = "cache_path L cs p"
  let ?h1 = "h\<lparr>cl_tick := Suc (cl_tick h)\<rparr>"
  from libs have aead: "aead_ok L" and b64: "b64_ok L" by (simp_all add: client_libs_def)
  from w have q: "cl_faults h = []" and e: "40 \<le> length (entropy h)"
    and free: "\<And>s. cl_files h (with_file_name ?path (the (file_name ?path) @ ''.'' @ s @ ''.tmp'')) = None"
    and tgt: "\<forall>m. cl_files h ?path \<noteq> Some (Directory m)"
    by (auto simp: cache_writable_def Let_def)
  from w obtain d dm where par: "path_parent ?path = Some d" and dir: "cl_files h d = Some (Directory dm)"
    by (auto simp: cache_writable_def Let_def split: option.splits node.splits)
  obtain n where name: "file_name ?path = Some n" using cache_file_name [OF b64] by blast
  have e1: "24 \<le> length (entropy ?h1)" using e by simp
  obtain ct where enc: "encrypt L (cs_key cs) (encode_map D m) (cache_aad cs p (word_of_int (clock_secs h))) ?h1 =
      (Val (take 24 (entropy ?h1), ct), ?h1\<lparr>entropy := drop 24 (entropy ?h1)\<rparr>)"
    by (rule encrypt_succeeds [OF aead key e1 small])
  let ?h2 = "?h1\<lparr>entropy := drop 24 (entropy ?h1)\<rparr>"
  have "\<exists>fs. write_private_file L ?path data ?h2 = (Val (), ?h2\<lparr>entropy := drop 16 (entropy ?h2), cl_files := fs\<rparr>) \<and>
      fs ?path = Some (RegularFile 384 True data) \<and> (\<forall>p'. p' \<noteq> ?path \<longrightarrow> fs p' = cl_files ?h2 p')" for data
    by (rule write_private_file_ok [OF b64 _ _ name par]) (use q e dir free tgt name in simp_all)
  then have "\<exists>h'. write_private_file L ?path data ?h2 = (Val (), h')" for data by blast
  with enc now_unix_ok [OF clk] show ?thesis
    by (simp add: store_cache_def bindP_def Let_def mapErrP_def)
qed

lemma online_then_offline:
  fixes h :: client
  assumes libs: "client_libs L D" and key: "key_ok (cs_key cs)" and w: "cache_writable L cs p h" and clk: "clock_ok h"
    and cs: "api_cache a = Some cs" and m: "fetched D (answer h) = Inr m" "length (encode_map D m) < 2 ^ 32"
  shows "\<exists>h1. get_secrets_client L D a p h = (Val m, h1) \<and>
    (\<forall>now. cached L D cs (cl_files h1) now p = (if fresh_at (clock_secs h) now then Some m else None))"
proof -
  let ?h = "asked (get_call a p) h"
  from libs have D: "serde_ok D" by (simp add: client_libs_def)
  from m(1) obtain b where "decode_map D b = Some m" "\<forall>k \<in> fst ` set m. valid_secret_key k"
    using fetched_Inr [OF D] by blast
  with D have st: "storable m" by (force simp: serde_ok_def storable_def)
  have w': "cache_writable L cs p ?h" using w unfolding cache_writable_def asked_simps .
  have clk': "clock_ok ?h" using clk by simp
  from store_cache_ok [OF libs key w' clk' m(2)] obtain h1 where run: "store_cache L D cs p m ?h = (Val (), h1)" by blast
  from clk have "clock_secs h < 2 ^ 63" by (simp add: clock_ok_def)
  with run have put: "(if client_libs L D then put_cached L D cs else (\<lambda>h p m. None)) ?h p m = Some h1"
    using libs by (simp add: put_cached_def)
  have "cached L D cs (cl_files h1) now p = (if fresh_at (clock_secs h) now then Some m else None)" for now
    using offline.offers_put [OF st put, of now] by simp
  moreover have "get_secrets_client L D a p h = (Val m, h1)"
    using run cs by (simp add: get_secrets_fetched_eq [OF m(1)])
  ultimately show ?thesis by blast
qed

lemma get_secrets_unreachable:
  assumes D: "serde_ok D" and clk: "clock_ok h" and q: "cl_faults h = []" and a: "answer h = UreqOther msg" "api_cache a = Some cs"
  shows "(\<exists>h'. get_secrets_client L D a p h = (Val m, h')) \<longleftrightarrow> cached L D cs (cl_files h) (clock_secs h) p = Some m"
  using get_secrets_offline [OF assms] get_secrets_Val [OF D clk, of L a p] a by auto

end
