(* ===== verification/Journey.thy ===== *)
theory Journey
  imports App ClientEffects ClientResults
begin

text \<open>
  The client and the server together: the request a client makes as the server receives it,
  the server's response as the client receives it, and what a successful \<open>get\<close> or \<open>set\<close> of
  the client then says about the vault behind the server.
\<close>

section \<open>The wire\<close>

definition wire_method :: "string \<Rightarrow> http_method" where
  "wire_method m = (if m = ''GET'' then GET else if m = ''POST'' then POST else if m = ''PUT'' then PUT
     else if m = ''DELETE'' then DELETE else OtherMethod m)"

definition json_content :: "byte list" where
  "json_content = str_bytes ''application/json''"

text \<open>A request to a server reached at \<open>base\<close>; \<open>send_json\<close> names the type of its body.\<close>

definition wire_request :: "string \<Rightarrow> http_call \<Rightarrow> request" where
  "wire_request base c = \<lparr>rq_method = wire_method (hc_method c), rq_path = drop (length base) (hc_url c),
     rq_auth = Some (str_bytes (hc_auth c)), rq_content_type = map_option (\<lambda>_. json_content) (hc_body c),
     rq_body = (case hc_body c of None \<Rightarrow> [] | Some b \<Rightarrow> b)\<rparr>"

text \<open>\<open>render\<close> is the server's \<open>serde_json\<close>; ureq turns statuses from 400 into errors.\<close>

definition body_bytes :: "(json \<Rightarrow> byte list) \<Rightarrow> response \<Rightarrow> byte list" where
  "body_bytes render rsp = (case rs_body rsp of
     None \<Rightarrow> [] | Some (JsonBody j) \<Rightarrow> render j | Some (TextBody t) \<Rightarrow> str_bytes t)"

definition wire_answer :: "(json \<Rightarrow> byte list) \<Rightarrow> response \<Rightarrow> ureq_result" where
  "wire_answer render rsp = (if 400 \<le> rs_status rsp then UreqStatus (rs_status rsp)
     else UreqOk (Some (body_bytes render rsp)))"

text \<open>The two sides agree on JSON, and percent-decoding leaves valid names alone.\<close>

definition wire_ok :: "web \<Rightarrow> serde \<Rightarrow> (json \<Rightarrow> byte list) \<Rightarrow> bool" where
  "wire_ok W D render \<longleftrightarrow>
     (\<forall>l. bt_inv l \<longrightarrow> (\<forall>(k, v) \<in> set l. is_str v) \<longrightarrow> decode_map D (render (secrets_json l)) = Some l) \<and>
     (\<forall>v. is_str v \<longrightarrow> parse_set_secret W (encode_value D v) = Some v) \<and>
     (\<forall>s. valid_project s \<or> valid_key s \<longrightarrow> path_decode W s = Some s)"

section \<open>Routes of the client's requests\<close>

lemma valid_names_no_slash:
  "valid_project p \<Longrightarrow> CHR ''/'' \<notin> set p" "valid_key k \<Longrightarrow> CHR ''/'' \<notin> set k"
  "valid_project p \<Longrightarrow> p \<noteq> []" "valid_key k \<Longrightarrow> k \<noteq> []"
  by (auto simp: valid_project_def valid_key_def list_all_iff is_ascii_alnum_def)

lemma split_secrets: "CHR ''/'' \<notin> set p \<Longrightarrow>
    split_slash (''/v1/projects/'' @ p @ ''/secrets'') = [[], ''v1'', ''projects'', p, ''secrets'']"
  using split_slash_snoc [of p "''/v1/projects''"] split_slash_snoc [of "''secrets''" "''/v1/projects'' @ CHR ''/'' # p"] by simp

lemma split_secret: "CHR ''/'' \<notin> set p \<Longrightarrow> CHR ''/'' \<notin> set k \<Longrightarrow>
    split_slash (''/v1/projects/'' @ p @ ''/secrets/'' @ k) = [[], ''v1'', ''projects'', p, ''secrets'', k]"
  using split_slash_snoc [of k "''/v1/projects/'' @ p @ ''/secrets''"] split_secrets [of p] by simp

text \<open>What the audit log records as the project of a request is the path segment as it came, up to
  64 bytes, whoever sent it.\<close>

lemma raw_segment_is_logged:
  assumes "CHR ''/'' \<notin> set x" and "length x \<le> 64"
  shows "logged_project (Some (template (RSecrets name))) (''/v1/projects/'' @ x @ ''/secrets'') = Some x"
proof -
  have "truncate_for_log x = x"
    using assms(2) by (cases "length x") (simp_all add: truncate_for_log_def is_char_boundary_def min_def)
  with split_secrets [OF assms(1)] show ?thesis
    by (simp add: logged_project_def PROJECT_PREFIX_def strip_prefix_def nth_segment_def)
qed

definition put_call :: "serde \<Rightarrow> api \<Rightarrow> string \<Rightarrow> string \<Rightarrow> string \<Rightarrow> http_call" where
  "put_call D a p k v = \<lparr>hc_method = ''PUT'', hc_url = api_base a @ ''/v1/projects/'' @ p @ ''/secrets/'' @ k,
     hc_auth = auth_header a, hc_body = Some (encode_value D v)\<rparr>"

lemma get_route: "valid_project p \<Longrightarrow> match_route (rq_path (wire_request (api_base a) (get_call a p))) = Some (RSecrets p)"
  using valid_names_no_slash(1,3) [of p] split_secrets [of p]
  by (simp add: wire_request_def get_call_def match_route_def)

lemma put_route: "valid_project p \<Longrightarrow> valid_key k \<Longrightarrow>
    match_route (rq_path (wire_request (api_base a) (put_call D a p k v))) = Some (RSecret p k)"
  using valid_names_no_slash(1,3) [of p] valid_names_no_slash(2,4) [of k] split_secret [of p k]
  by (simp add: wire_request_def put_call_def match_route_def)

section \<open>Successful requests\<close>

lemma error_status_400: "400 \<le> fst (error_status e)"
  by (cases e) simp_all

lemma error_response_400: "400 \<le> rs_status (error_response e)"
  using error_status_400 [of e] by (cases "error_status e") (simp add: error_response_def)

lemma handle_success:
  fixes w :: "'m server_scheme" and f :: "authed_token \<Rightarrow> ('m server_scheme, app_error, response) proc"
  assumes ct: "ct_ok L" and run: "handle L W K req w = (Val rsp, w')" and st: "rs_status rsp < 400"
    and r: "match_route (rq_path req) = Some r" "r \<noteq> RHealth" and f: "endpoint L W K req r (rq_method req) = Some f"
    and meth: "rq_method req \<noteq> HEAD"
  shows "\<exists>t w1 w2. accepted L W req (wclock w) (wdb w) t \<and> wdb w1 = wdb w \<and> f t w1 = (Val rsp, w2) \<and> wdb w' = wdb w2"
proof -
  from run r(1) obtain name w0 rsp' w2 w3 where n: "resolve_token_name L W (rq_auth req) w = (Val name, w0)"
    and s: "serve_route L W K req r w0 = (Val rsp', w2)" and rsp: "rsp = strip_head req rsp'"
    and rec: "audit_record L (rq_method req) (template r)
        (logged_project (Some (template r)) (rq_path req)) name (rs_status rsp) w2 = (Val () :: (app_error, unit) outcome, w')"
    by (auto simp: handle_def audit_middleware_def Let_def bindP_Val_iff)
  have w0: "wdb w0 = wdb w" "wclock w0 = wclock w"
    by (rule keepsD' [OF keeps_resolve_token_name n]; simp)+
  have w': "wdb w' = wdb w2" by (rule keepsD' [OF keeps_audit_record rec]) simp_all
  have "rsp' = rsp" using rsp meth by (simp add: strip_head_def)
  with s f r(2) have a: "authed L W req f w0 = (Val rsp, w2)" by (simp add: serve_route_def)
  let ?m = "bindP (from_request_parts L W (rq_auth req)) f"
  obtain r1 w4 where m: "?m w0 = (r1, w4)" by (cases "?m w0")
  have "\<exists>e. r1 = Fail e \<and> rsp = error_response e \<or> r1 = Val rsp \<and> w4 = w2"
    using a m by (cases r1) (auto simp: authed_def into_response_def)
  with st error_response_400 m have "?m w0 = (Val rsp, w2)" by (metis not_le)
  then obtain t w1 where t: "from_request_parts L W (rq_auth req) w0 = (Val t, w1)" and h: "f t w1 = (Val rsp, w2)"
    unfolding bindP_Val_iff by blast
  from from_request_ValD [OF ct t] w0 have "accepted L W req (wclock w) (wdb w) t" "wdb w1 = wdb w" by simp_all
  with h w' show ?thesis by blast
qed

lemma answered_ok: "map_error (wire_answer render rsp) = Inr b \<longleftrightarrow>
    rs_status rsp < 400 \<and> b = Some (body_bytes render rsp)"
  by (auto simp: wire_answer_def)

lemma vault_str: "vault L K d p = Some m \<Longrightarrow> m k = Some v \<Longrightarrow> is_str v"
proof -
  have "opened L K p r = Some v \<Longrightarrow> is_str v" for r
    by (simp add: opened_def from_utf8_Some split: sum.splits)
  moreover assume "vault L K d p = Some m" "m k = Some v"
  ultimately show ?thesis by (auto simp: vault_def bind_eq_Some_conv)
qed

text \<open>Reading: what the client returns is the project's map in the vault.\<close>

lemma client_get_vault:
  fixes w :: "'m server_scheme"
  assumes ct: "ct_ok L" and wf: "db_wf (wdb w)" and wire: "wire_ok W D render" and sd: "serde_ok D" and p: "valid_project p"
    and srv: "handle L W K (wire_request (api_base a) (get_call a p)) w = (Val rsp, w')"
    and ans: "answer h = wire_answer render rsp" and run: "get_secrets_client L D a p h = (Val m, h')"
  shows "vault L K (wdb w) p = Some (map_of m) \<and> wdb w' = wdb w \<and>
    (\<exists>t. accepted L W (wire_request (api_base a) (get_call a p)) (wclock w) (wdb w) t \<and> scope_allows (at_scope t) p)"
proof -
  let ?req = "wire_request (api_base a) (get_call a p)"
  have "fetched D (answer h) = Inr m"
  proof (cases "fetched D (answer h)")
    case (Inl e)
    have "\<not> is_transport e" using fetched_transport [OF Inl] ans by (auto simp: wire_answer_def split: if_splits)
    with Inl run show ?thesis by (simp add: get_secrets_failed_eq)
  next
    case (Inr m')
    with run show ?thesis by (auto simp: get_secrets_fetched_eq split: option.splits prod.splits outcome.splits)
  qed
  with fetched_Inr [OF sd] ans obtain b where b: "UreqOk (Some b) = wire_answer render rsp" "decode_map D b = Some m" by metis
  then have st: "rs_status rsp < 400" by (auto simp: wire_answer_def split: if_splits)
  have meth: "rq_method ?req = GET" by (simp add: wire_request_def get_call_def wire_method_def)
  then have "endpoint L W K ?req (RSecrets p) (rq_method ?req) =
      Some (\<lambda>t. with_path W [(''name'', p)] (\<lambda>q. get_secrets L K t (q ! 0)) :: ('m server_scheme, app_error, response) proc)" by simp
  from handle_success [OF ct srv st get_route [OF p] _ this] meth
  obtain t and w1 w2 :: "'m server_scheme"
    where t: "accepted L W ?req (wclock w) (wdb w) t" and w1: "wdb w1 = wdb w" and w2: "wdb w' = wdb w2"
      and f: "with_path W [(''name'', p)] (\<lambda>q. get_secrets L K t (q ! 0)) w1 = (Val rsp, w2)"
    by auto
  from wire p have "path_decode W p = Some p" by (simp add: wire_ok_def)
  with f have "get_secrets L K t p w1 = (Val rsp, w2)" by (simp add: with_path_def)
  from get_secrets_ValD [OF _ this] wf w1 obtain l where l: "rsp = respond 200 (secrets_json l)" "bt_inv l"
      "vault L K (wdb w) p = Some (map_of l)" "scope_allows (at_scope t) p" "wdb w2 = wdb w" by auto
  have "\<forall>(k, v) \<in> set l. is_str v"
    using vault_str [OF l(3)] bt_inv_distinct [OF l(2)] by auto
  with wire l(2) have "decode_map D (render (secrets_json l)) = Some l" by (simp add: wire_ok_def)
  with b l(1) have "m = l" by (simp add: wire_answer_def body_bytes_def respond_def)
  with l t w2 show ?thesis by auto
qed

text \<open>Writing: a successful \<open>set\<close> is an update of the vault.\<close>

lemma client_set_vault:
  fixes w :: "'m server_scheme"
  assumes ok: "aead_ok L" "ct_ok L" "web_ok W" and wf: "db_wf (wdb w)" and wire: "wire_ok W D render"
    and p: "valid_project p" "valid_key k" and v: "is_str v"
    and srv: "handle L W K (wire_request (api_base a) (put_call D a p k v)) w = (Val rsp, w')"
    and ans: "answer h = wire_answer render rsp" and run: "set_secret L D a p k v h = (Val u, h')"
  shows "(\<exists>m. vault L K (wdb w) p = Some m \<and> vault L K (wdb w') = (vault L K (wdb w))(p \<mapsto> m(k \<mapsto> v))) \<and>
    db_wf (wdb w') \<and>
    (\<exists>t. accepted L W (wire_request (api_base a) (put_call D a p k v)) (wclock w) (wdb w) t \<and> scope_allows (at_scope t) p)"
proof -
  let ?req = "wire_request (api_base a) (put_call D a p k v)"
  from run ans have "\<exists>b. map_error (wire_answer render rsp) = Inr b"
    by (auto simp: set_secret_def bindP_Val_iff call_api_eq split: sum.splits)
  then have st: "rs_status rsp < 400" using answered_ok by blast
  have meth: "rq_method ?req = PUT" by (simp add: wire_request_def put_call_def wire_method_def)
  then have "endpoint L W K ?req (RSecret p k) (rq_method ?req) =
      Some (\<lambda>t. with_path W [(''name'', p), (''key'', k)] (\<lambda>q. put_secret L W K t (q ! 0) (q ! 1) ?req) :: ('m server_scheme, app_error, response) proc)" by simp
  from handle_success [OF ok(2) srv st put_route [OF p] _ this] meth
  obtain t and w1 w2 :: "'m server_scheme"
    where t: "accepted L W ?req (wclock w) (wdb w) t" and w1: "wdb w1 = wdb w" and w2: "wdb w' = wdb w2"
      and f: "with_path W [(''name'', p), (''key'', k)] (\<lambda>q. put_secret L W K t (q ! 0) (q ! 1) ?req) w1 = (Val rsp, w2)"
    by auto
  from wire p have "path_decode W p = Some p" "path_decode W k = Some k" by (auto simp: wire_ok_def)
  with f have put: "put_secret L W K t p k ?req w1 = (Val rsp, w2)" by (simp add: with_path_def)
  from put_secret_ValD [OF ok(1,3) _ put] wf w1 obtain v' m where v': "json_body W (parse_set_secret W) ?req = Inr v'"
    and m: "vault L K (wdb w) p = Some m" "vault L K (wdb w2) = (vault L K (wdb w))(p \<mapsto> m(k \<mapsto> v'))" "scope_allows (at_scope t) p"
    by auto
  from wire v have "parse_set_secret W (encode_value D v) = Some v" by (simp add: wire_ok_def)
  moreover have "rq_body ?req = encode_value D v" by (simp add: wire_request_def put_call_def)
  ultimately have "v' = v" using v' by (simp add: json_body_def split: if_splits)
  moreover have "db_wf (wdb w2)"
    using put_secret_change [OF ok(1,3), of K t p k ?req w1] api_change_wf put wf w1 by (force simp: changes_def)
  ultimately show ?thesis using m t w2 by auto
qed

section \<open>A healthy server answers\<close>

lemma handle_serves:
  fixes w :: "'m server_scheme" and f :: "authed_token \<Rightarrow> ('m server_scheme, app_error, response) proc"
  assumes ct: "ct_ok L" and h: "healthy w" and t: "extract_bearer W (rq_auth req) = Some t"
    and who: "who L (wclock w (Suc (wtick w))) (hash_token L t) (db_tokens (wdb w)) = Some a"
    and r: "match_route (rq_path req) = Some r" "r \<noteq> RHealth" and f: "endpoint L W K req r (rq_method req) = Some f"
    and meth: "rq_method req \<noteq> HEAD" and run: "f a (w\<lparr>wtick := Suc (Suc (wtick w))\<rparr>) = (Val rsp, w2)"
    and time: "rfc3339_format L (wclock w2 (wtick w2)) = Some ts"
  shows "\<exists>w'. handle L W K req w = (Val rsp, w') \<and> wdb w' = wdb w2"
proof -
  let ?w1 = "w\<lparr>wtick := Suc (wtick w)\<rparr>"
  have auth: "authenticate L x v = (Val (who L (wclock v (wtick v)) x (db_tokens (wdb v))), v\<lparr>wtick := Suc (wtick v)\<rparr>)"
    if "wio v = []" for x and v :: "'m server_scheme"
    using that by (simp add: authenticate_Val_iff [OF ct])
  have n: "\<exists>n. resolve_token_name L W (rq_auth req) w = (Val n, ?w1)"
    using h t by (simp add: resolve_token_name_def optional_def with_db_def healthy_def bindP_def mapErrP_def auth retP_def)
  have "from_request_parts L W (rq_auth req) ?w1 = (Val a, w\<lparr>wtick := Suc (Suc (wtick w))\<rparr>)"
    using h t who by (simp add: from_request_parts_def bindP_def with_db_def healthy_def mapErrP_def auth)
  with f r(2) run have s: "serve_route L W K req r ?w1 = (Val rsp, w2)"
    by (simp add: serve_route_def authed_def into_response_def bindP_def)
  obtain n where n: "resolve_token_name L W (rq_auth req) w = (Val n, ?w1)" using n by blast
  let ?rec = "audit_record L (rq_method req) (template r) (logged_project (Some (template r)) (rq_path req)) n (rs_status rsp)"
  obtain w' where rec: "?rec w2 = (Val () :: (app_error, unit) outcome, w')" and w': "wdb w' = wdb w2"
    by (simp add: audit_record_def bindP_def now_rfc3339_ok [OF time] Let_def)
  have "handle L W K req w = (Val rsp, w')"
    using n s r(1) meth rec by (simp add: handle_def audit_middleware_def Let_def bindP_def strip_head_def retP_def)
  with w' show ?thesis by blast
qed

end
