(* ===== verification/ClientSamples.thy ===== *)
theory ClientSamples
  imports Samples Journey
begin

text \<open>
  Concrete instances for the client: a codec of string lists that stands for JSON, a client
  with an empty cache directory, and a server's answers, on which the hypotheses of the
  client's properties hold.
\<close>

section \<open>A codec\<close>

definition enc_str :: "string \<Rightarrow> byte list" where
  "enc_str s = concat (map (\<lambda>c. [1, char_byte c]) s) @ [0]"

fun dec_strs :: "byte list \<Rightarrow> string \<Rightarrow> string list option" where
  "dec_strs [] acc = (if acc = [] then Some [] else None)"
| "dec_strs [b] acc = (if b = 0 then Some [acc] else None)"
| "dec_strs (b # c # r) acc =
     (if b = 0 then map_option ((#) acc) (dec_strs (c # r) []) else dec_strs r (acc @ [byte_char c]))"

lemma dec_end: "dec_strs (0 # r) acc = map_option ((#) acc) (dec_strs r [])"
  by (cases r) simp_all

lemma dec_enc_str: "dec_strs (enc_str s @ r) acc = map_option ((#) (acc @ s)) (dec_strs r [])"
  by (induction s arbitrary: acc) (simp_all add: enc_str_def dec_end)

lemma dec_enc_strs: "dec_strs (concat (map enc_str ss)) [] = Some ss"
  by (induction ss) (simp_all add: dec_enc_str)

fun pairs :: "string list \<Rightarrow> secret_map" where
  "pairs (k # v # r) = (k, v) # pairs r"
| "pairs _ = []"

definition enc_map :: "secret_map \<Rightarrow> byte list" where
  "enc_map m = concat (map enc_str (concat (map (\<lambda>(k, v). [k, v]) m)))"

lemma pairs_concat: "pairs (concat (map (\<lambda>(k, v). [k, v]) m)) = m"
  by (induction m) auto

definition dec_map :: "byte list \<Rightarrow> secret_map option" where
  "dec_map b = (case dec_strs b [] of None \<Rightarrow> None
     | Some ss \<Rightarrow> if bt_inv (pairs ss) \<and> list_all (\<lambda>(k, v). is_str v) (pairs ss) then Some (pairs ss) else None)"

definition toy_serde :: serde where
  "toy_serde = \<lparr>encode_map = enc_map, decode_map = dec_map,
     encode_envelope = (\<lambda>e. concat (map enc_str [[byte_char (ev_version e)], bytes_str (le_bytes 8 (unat (ev_created_at_unix e))),
       ev_nonce e, ev_ciphertext e])),
     decode_envelope = (\<lambda>b. case dec_strs b [] of
         Some [[v], t, n, c] \<Rightarrow> Some \<lparr>ev_version = char_byte v, ev_created_at_unix = word_of_nat (le_value (str_bytes t)),
           ev_nonce = n, ev_ciphertext = c\<rparr>
       | _ \<Rightarrow> None),
     encode_value = str_bytes, encode_token_request = (\<lambda>r. str_bytes (tr_name r)), decode_created = (\<lambda>b. None),
     decode_tokens = (\<lambda>b. None), decode_revoked = (\<lambda>b. None)\<rparr>"

lemma dec_enc_map: "dec_map (enc_map m) = (if bt_inv m \<and> list_all (\<lambda>(k, v). is_str v) m then Some m else None)"
  by (simp add: dec_map_def enc_map_def dec_enc_strs pairs_concat)

lemma toy_envelope: "decode_envelope toy_serde (encode_envelope toy_serde e) = Some e"
proof -
  have "unat (ev_created_at_unix e) < 2 ^ LENGTH(64)" by (rule unsigned_less)
  then have "word_of_nat (unat (ev_created_at_unix e) mod 2 ^ 64) = ev_created_at_unix e" by simp
  moreover have "(256::nat) ^ 8 = 2 ^ 64" by simp
  ultimately have "word_of_nat (le_value (le_bytes 8 (unat (ev_created_at_unix e)))) = ev_created_at_unix e"
    by (simp only: le_value_le_bytes)
  then show ?thesis by (simp add: toy_serde_def dec_enc_strs del: concat.simps list.map)
qed

lemma toy_serde_ok: "serde_ok toy_serde"
  unfolding serde_ok_def
proof (intro conjI allI impI)
  show "decode_map toy_serde (encode_map toy_serde m) = Some m" if "bt_inv m" "\<forall>(k, v) \<in> set m. is_str k \<and> is_str v" for m
    using that by (auto simp: toy_serde_def dec_enc_map list_all_iff)
  show "bt_inv m" "\<forall>(k, v) \<in> set m. is_str v" if "decode_map toy_serde b = Some m" for b m
    using that by (auto simp: toy_serde_def dec_map_def list_all_iff split: option.splits if_splits)
  show "decode_envelope toy_serde (encode_envelope toy_serde e) = Some e" for e by (rule toy_envelope)
qed

lemma toy_client_libs: "client_libs toy_lib toy_serde"
  by (simp add: client_libs_def toy_aead toy_b64_ok toy_serde_ok)

section \<open>A client\<close>

definition toy_cfg :: client_config where
  "toy_cfg = \<lparr>server_url = ''https://s'', cfg_token = ''r''\<rparr>"

definition toy_cache :: cache_store where
  "toy_cache = \<lparr>cs_dir = ''d'', cs_key = toy_key, cs_server_url = ''https://s'', cs_token_hash = replicate 32 0\<rparr>"

definition toy_api :: api where
  "toy_api = \<lparr>api_base = ''https://s'', api_token = ''r'', api_cache = Some toy_cache\<rparr>"

definition toy_client :: "ureq_result list \<Rightarrow> client" where
  "toy_client net = \<lparr>entropy = replicate 200 3, cl_env = Map.empty, cl_home = Some ''h'', cl_cache_home = Some ''c'',
     cl_files = [''d'' \<mapsto> Directory 448], cl_dir_mode = 493, cl_faults = [], cl_now = (\<lambda>_. 0), cl_tick = 0,
     cl_net = net, cl_hops = [], cl_sent = [], cl_terminal = False, cl_inputs = [], cl_stdin = Some (str_bytes ''v''), cl_out = []\<rparr>"

definition toy_map :: secret_map where
  "toy_map = [(''A'', ''1''), (''B'', ''x y'')]"

definition toy_answer :: ureq_result where
  "toy_answer = UreqOk (Some (enc_map toy_map))"

lemma toy_client_simps [simp]:
  "cl_faults (toy_client n) = []" "clock_secs (toy_client n) = 0" "clock_ok (toy_client n)" "length (entropy (toy_client n)) = 200"
  "answer (toy_client (r # n)) = r" "cl_files (toy_client n) = [''d'' \<mapsto> Directory 448]" "cl_sent (toy_client n) = []"
  "cl_env (toy_client n) = Map.empty" "cl_tick (toy_client n) = 0"
  by (simp_all add: toy_client_def clock_ok_def clock_secs_def answer_def)

lemma toy_strs: "is_str ''1''" "is_str ''x y''" "is_str ''v''"
  by (rule ascii_is_str, simp add: ascii_str_def)+

lemma toy_map_ok: "bt_inv toy_map" "\<forall>k \<in> fst ` set toy_map. valid_secret_key k" "list_all (\<lambda>(k, v). is_str v) toy_map"
  by (simp_all add: toy_map_def bt_inv_def valid_secret_key_def is_ascii_alnum_def toy_strs)

lemma toy_fetched: "fetched toy_serde toy_answer = Inr toy_map"
proof -
  have "length (enc_map toy_map) \<le> MAX_RESPONSE_BYTES"
    by (simp add: enc_map_def toy_map_def enc_str_def MAX_RESPONSE_BYTES_def)
  moreover have "decode_map toy_serde (enc_map toy_map) = Some toy_map"
    using toy_map_ok by (simp add: toy_serde_def dec_enc_map)
  ultimately show ?thesis
    using toy_map_ok(2) fetched_Inr [OF toy_serde_ok] unfolding toy_answer_def by blast
qed

lemma toy_api_cache: "api_cache toy_api = Some toy_cache"
  by (simp add: toy_api_def)

lemma toy_cache_key: "key_ok (cs_key toy_cache)"
  using toy_key_ok by (simp add: toy_cache_def)

text \<open>The file of a project lies directly in the cache directory.\<close>

lemma toy_cache_path: "\<exists>n. plain_name n \<and> cache_path toy_lib toy_cache p = ''d/'' @ n \<and> n \<noteq> ''d''"
proof -
  let ?b = "b64url_encode toy_lib (sha256 toy_lib (str_bytes (cs_server_url toy_cache) @ [0] @ cs_token_hash toy_cache @ [0] @ str_bytes p))"
  have "plain_name (?b @ ''.json'')" by (rule b64_plain [OF toy_b64_ok])
  moreover have "cache_path toy_lib toy_cache p = ''d/'' @ ?b @ ''.json''"
    by (simp add: cache_path_def path_join_def toy_cache_def)
  moreover have "?b @ ''.json'' \<noteq> ''d''" by (cases ?b) auto
  ultimately show ?thesis by blast
qed

lemma split_path_in_d: "plain_name n \<Longrightarrow> split_path (''d/'' @ n) = [n, ''d'']"
proof -
  assume n: "plain_name n"
  then have "split_slash (''d'' @ CHR ''/'' # n) = split_slash ''d'' @ [n]" by (intro split_slash_snoc) (simp add: plain_name_def)
  then show ?thesis using n by (simp add: split_path_def plain_name_def trim_tail_keep)
qed

lemma toy_cache_writable: "cache_writable toy_lib toy_cache p (toy_client net)"
proof -
  obtain n where n: "plain_name n" and path: "cache_path toy_lib toy_cache p = ''d/'' @ n" using toy_cache_path by blast
  note sp = split_path_in_d [OF n]
  have par: "parent_text (''d/'' @ n) = ''d''" using sp by (simp add: parent_text_def)
  have "path_parent (''d/'' @ n) = Some ''d''" using sp par by (simp add: path_parent_def)
  moreover have name: "file_name (''d/'' @ n) = Some n" using sp n by (simp add: file_name_def plain_name_def)
  moreover have "with_file_name (''d/'' @ n) (x @ ''.tmp'') = ''d/'' @ x @ ''.tmp''" for x
    using name par by (simp add: with_file_name_def path_join_def)
  then have "with_file_name (''d/'' @ n) (n @ ''.'' @ s @ ''.tmp'') \<noteq> ''d''" for s
    by (metis append_assoc append_Cons list.discI list.inject append_Nil)
  ultimately show ?thesis unfolding cache_writable_def path Let_def by simp
qed

end
