(* ===== verification/CacheKeys.thy ===== *)
theory CacheKeys
  imports CacheResults
begin

text \<open>
  Where the cache key lives: the variants of \<open>load_or_create_cache_key\<close> for macOS, Windows and
  systems that are neither (\<open>crates/secrets-client/src/cache.rs\<close>; the Linux one is in
  \<open>ClientCache\<close>), the contract \<open>key_store\<close> they share (a key, once made, is the key from
  then on), and that a cache opened again is the same cache.
\<close>

section \<open>macOS: the keychain\<close>

text \<open>The generic password of the service, and calls that will fail for other reasons. What
  \<open>security_framework\<close> does is kept to that.\<close>

record mac_client = client +
  mc_item :: "byte list option"
  mc_faults :: "bool list"

datatype keychain_answer = KeychainItem "byte list" | KeychainNotFound | KeychainError

definition mac_fault :: "'m mac_client_scheme \<Rightarrow> bool" where
  "mac_fault h \<longleftrightarrow> mc_faults h \<noteq> [] \<and> hd (mc_faults h)"

definition get_generic_password :: "('m mac_client_scheme, 'e, keychain_answer) proc" where
  "get_generic_password = (\<lambda>h. (Val (if mac_fault h then KeychainError
     else case mc_item h of Some b \<Rightarrow> KeychainItem b | None \<Rightarrow> KeychainNotFound), h\<lparr>mc_faults := tl (mc_faults h)\<rparr>))"

definition set_generic_password :: "'e \<Rightarrow> byte list \<Rightarrow> ('m mac_client_scheme, 'e, unit) proc" where
  "set_generic_password e b = (\<lambda>h. if mac_fault h then (Fail e, h\<lparr>mc_faults := tl (mc_faults h)\<rparr>)
     else (Val (), h\<lparr>mc_faults := tl (mc_faults h), mc_item := Some b\<rparr>))"

definition load_or_create_cache_key_macos :: "lib \<Rightarrow> ('m mac_client_scheme, client_error, master_key) proc" where
  "load_or_create_cache_key_macos L = bindP get_generic_password (\<lambda>answer. case answer of
       KeychainItem encoded \<Rightarrow>
         bindP (okOrP (CacheError ''cache key in macOS Keychain is not valid UTF-8'') (from_utf8 encoded)) (\<lambda>encoded.
         bindP (liftP (b64_decode L encoded)) (\<lambda>raw.
         liftP (key_from_slice raw)))
     | KeychainNotFound \<Rightarrow>
         bindP (fill_bytes 32) (\<lambda>raw.
         bindP (set_generic_password (CacheError ''failed to store cache key in macOS Keychain'') (str_bytes (b64url_encode L raw))) (\<lambda>_.
         retP (MasterKey raw)))
     | KeychainError \<Rightarrow> throwP (CacheError ''failed to read cache key from macOS Keychain''))"

section \<open>Windows: DPAPI\<close>

text \<open>\<open>windows_dpapi\<close> for the current user and the program's entropy tag.\<close>

record dpapi =
  encrypt_data :: "byte list \<Rightarrow> byte list option"
  decrypt_data :: "byte list \<Rightarrow> byte list option"

definition dpapi_ok :: "dpapi \<Rightarrow> bool" where
  "dpapi_ok W \<longleftrightarrow> (\<forall>b c. encrypt_data W b = Some c \<longrightarrow> decrypt_data W c = Some b)"

definition load_or_create_cache_key_windows :: "lib \<Rightarrow> dpapi \<Rightarrow> string \<Rightarrow> ('m client_scheme, client_error, master_key) proc" where
  "load_or_create_cache_key_windows L W dir =
     (let path = path_join dir ''cache-key.dpapi'' in
      bindP (getP (\<lambda>h. path_exists (cl_files h) path)) (\<lambda>present.
      if present then
        bindP (file_query (CacheError ''failed to read DPAPI cache key'') (read_file path)) (\<lambda>protected.
        bindP (okOrP (CacheError ''DPAPI decrypt failed'') (decrypt_data W protected)) (\<lambda>raw.
        liftP (key_from_slice raw)))
      else
        bindP random_key (\<lambda>raw.
        bindP (okOrP (CacheError ''DPAPI encrypt failed'') (encrypt_data W raw)) (\<lambda>protected.
        bindP (write_private_file L path protected) (\<lambda>_.
        retP (MasterKey raw))))))"

section \<open>Elsewhere: a plain file\<close>

definition load_or_create_cache_key_other :: "lib \<Rightarrow> string \<Rightarrow> ('m client_scheme, client_error, master_key) proc" where
  "load_or_create_cache_key_other L dir =
     (let path = path_join dir ''cache-key'' in
      bindP (getP (\<lambda>h. path_exists (cl_files h) path)) (\<lambda>present.
      if present then
        bindP (file_query (CacheError ''failed to read cache key'') (read_file path)) (\<lambda>raw. liftP (key_from_slice raw))
      else
        bindP random_key (\<lambda>raw.
        bindP (write_private_file L path raw) (\<lambda>_.
        retP (MasterKey raw)))))"

section \<open>The contract\<close>

text \<open>
  A place where a key is made when there is none and found afterwards: \<open>view\<close> is what the
  place holds, \<open>quiet\<close> that no operation will fail for an outside reason.
\<close>

locale key_store =
  fixes load :: "'s \<Rightarrow> ('e, master_key) outcome \<times> 's" and view :: "'s \<Rightarrow> 'v" and quiet :: "'s \<Rightarrow> bool"
  assumes long: "load s = (Val k, s') \<Longrightarrow> key_ok k"
    and kept: "load s = (Val k, s') \<Longrightarrow> view t = view s' \<Longrightarrow> quiet t \<Longrightarrow> \<exists>t'. load t = (Val k, t') \<and> view t' = view t"
begin

lemma found_again: "load s = (Val k, s') \<Longrightarrow> view t = view s' \<Longrightarrow> quiet t \<Longrightarrow> load t = (r, t') \<Longrightarrow> r = Val k \<and> view t' = view s'"
  using kept [of s k s' t] by auto

end

section \<open>The four places\<close>

lemma key_from_slice_Inr: "key_from_slice b = Inr k \<longleftrightarrow> length b = 32 \<and> k = MasterKey b"
  by (auto simp: key_from_slice_def)

lemma key_path_name: "plain_name n \<Longrightarrow> path_parent (path_join dir n) \<noteq> Some (path_join dir n)"
  using file_name_join parent_is_elsewhere by metis

text \<open>A key file that was just written.\<close>

lemma written_key:
  fixes h :: "'m client_scheme"
  assumes "b64_ok L" and "plain_name n" and "write_private_file L (path_join dir n) data h = (Val u, h')" and "cl_files t = cl_files h'"
  shows "cl_files t (path_join dir n) = Some (RegularFile 384 True data)"
    and "path_exists (cl_files t) (path_join dir n)" and "read_file (path_join dir n) (cl_files t) = Some data"
  using write_private_file_files [OF assms(1,3) key_path_name [OF assms(2)]] assms(4)
  by (auto simp: path_exists_def node_at_plain read_file_def)

lemma plain_key_names: "plain_name ''cache-key''" "plain_name ''cache-key.dpapi''"
  by (simp_all add: plain_name_def)

lemma read_private_Val: "open_private_for_read path h = (Val b, h') \<Longrightarrow>
    (\<exists>m. cl_files h path = Some (RegularFile m True b) \<and> m mod 64 = 0) \<and> cl_files h' = cl_files h"
proof -
  assume run: "open_private_for_read path h = (Val b, h')"
  then obtain f h1 where q: "file_query (CacheError ''failed to open'') (\<lambda>fs. fs path) h = (Val f, h1)"
    unfolding open_private_for_read_def bindP_Val_iff by blast
  from file_query_Val [OF q] run q show ?thesis
    by (cases f) (auto simp: open_private_for_read_def bindP_def split: if_splits)
qed

lemma read_private_ok: "cl_faults h = [] \<Longrightarrow> cl_files h path = Some (RegularFile m True b) \<Longrightarrow> m mod 64 = 0 \<Longrightarrow>
    open_private_for_read path h = (Val b, h)"
  by (simp add: open_private_for_read_def bindP_def file_query_ok [where x = "RegularFile m True b"] retP_def)

lemma random_key_Val: "random_key h = (Val raw, h') \<longleftrightarrow> 32 \<le> length (entropy h) \<and> raw = take 32 (entropy h) \<and> h' = h\<lparr>entropy := drop 32 (entropy h)\<rparr>"
  by (simp add: random_key_def fill_bytes_Val)

text \<open>What opening the key leaves behind: a private file that holds it.\<close>

lemma cache_key_Val:
  fixes h :: "'m client_scheme"
  assumes b64: "b64_ok L" and run: "load_or_create_cache_key L dir h = (Val k, h')"
  shows "\<exists>m raw. cl_files h' (path_join dir ''cache-key'') = Some (RegularFile m True raw) \<and> m mod 64 = 0 \<and> length raw = 32 \<and> k = MasterKey raw"
proof (cases "path_exists (cl_files h) (path_join dir ''cache-key'')")
  case True
  with run obtain raw h1 where "open_private_for_read (path_join dir ''cache-key'') h = (Val raw, h1)" "length raw = 32" "k = MasterKey raw" "h' = h1"
    by (auto simp: load_or_create_cache_key_def Let_def bindP_Val_iff key_from_slice_Inr)
  with read_private_Val show ?thesis by metis
next
  case False
  with run obtain raw h1 u where raw: "random_key h = (Val raw, h1)" and w: "write_private_file L (path_join dir ''cache-key'') raw h1 = (Val u, h')"
    and k: "k = MasterKey raw"
    by (auto simp: load_or_create_cache_key_def Let_def bindP_Val_iff)
  from written_key(1) [OF b64 plain_key_names(1) w refl] raw k show ?thesis by (auto simp: random_key_Val)
qed

lemma cache_key_again:
  assumes "cl_faults t = []" and "cl_files t (path_join dir ''cache-key'') = Some (RegularFile m True raw)" and "m mod 64 = 0" and "length raw = 32"
  shows "load_or_create_cache_key L dir t = (Val (MasterKey raw), t)"
  using assms read_private_ok [OF assms(1-3)]
  by (simp add: load_or_create_cache_key_def Let_def bindP_def path_exists_def node_at_plain key_from_slice_def)

interpretation linux_key: key_store
    "if b64_ok L then load_or_create_cache_key L dir else throwP (CacheError [])" cl_files "\<lambda>h. cl_faults h = []" for L dir
proof unfold_locales
  show "key_ok k" if "(if b64_ok L then load_or_create_cache_key L dir else throwP (CacheError [])) s = (Val k, s')"
    for k and s s' :: "'m client_scheme"
    using that cache_key_Val [of L dir s k s'] by (auto simp: key_ok_def KEY_LEN_def split: if_splits)
  show "\<exists>t'. (if b64_ok L then load_or_create_cache_key L dir else throwP (CacheError [])) t = (Val k, t') \<and> cl_files t' = cl_files t"
    if "(if b64_ok L then load_or_create_cache_key L dir else throwP (CacheError [])) s = (Val k, s')" "cl_files t = cl_files s'" "cl_faults t = []"
    for k and s s' t :: "'m client_scheme"
    using that cache_key_Val [of L dir s k s'] cache_key_again [of t dir] by (auto split: if_splits)
qed

lemma other_key_Val:
  fixes h :: "'m client_scheme"
  assumes b64: "b64_ok L" and run: "load_or_create_cache_key_other L dir h = (Val k, h')"
  shows "\<exists>raw. path_exists (cl_files h') (path_join dir ''cache-key'') \<and> read_file (path_join dir ''cache-key'') (cl_files h') = Some raw \<and>
    length raw = 32 \<and> k = MasterKey raw"
proof (cases "path_exists (cl_files h) (path_join dir ''cache-key'')")
  case True
  with run obtain raw h1 where q: "file_query (CacheError ''failed to read cache key'') (read_file (path_join dir ''cache-key'')) h = (Val raw, h1)"
    and k: "length raw = 32" "k = MasterKey raw" "h' = h1"
    by (auto simp: load_or_create_cache_key_other_def Let_def bindP_Val_iff key_from_slice_Inr)
  from file_query_Val [OF q] True k show ?thesis by auto
next
  case False
  with run obtain raw h1 u where raw: "random_key h = (Val raw, h1)" and w: "write_private_file L (path_join dir ''cache-key'') raw h1 = (Val u, h')"
    and k: "k = MasterKey raw"
    by (auto simp: load_or_create_cache_key_other_def Let_def bindP_Val_iff)
  from written_key(2,3) [OF b64 plain_key_names(1) w refl] raw k show ?thesis by (auto simp: random_key_Val)
qed

interpretation other_key: key_store
    "if b64_ok L then load_or_create_cache_key_other L dir else throwP (CacheError [])" cl_files "\<lambda>h. cl_faults h = []" for L dir
proof unfold_locales
  show "key_ok k" if "(if b64_ok L then load_or_create_cache_key_other L dir else throwP (CacheError [])) s = (Val k, s')"
    for k and s s' :: "'m client_scheme"
    using that other_key_Val [of L dir s k s'] by (auto simp: key_ok_def KEY_LEN_def split: if_splits)
  show "\<exists>t'. (if b64_ok L then load_or_create_cache_key_other L dir else throwP (CacheError [])) t = (Val k, t') \<and> cl_files t' = cl_files t"
    if "(if b64_ok L then load_or_create_cache_key_other L dir else throwP (CacheError [])) s = (Val k, s')" "cl_files t = cl_files s'" "cl_faults t = []"
    for k and s s' t :: "'m client_scheme"
  proof -
    from that(1) have b64: "b64_ok L" and run: "load_or_create_cache_key_other L dir s = (Val k, s')" by (auto split: if_splits)
    from other_key_Val [OF b64 run] that(2) obtain raw where "path_exists (cl_files t) (path_join dir ''cache-key'')"
      "read_file (path_join dir ''cache-key'') (cl_files t) = Some raw" "length raw = 32" "k = MasterKey raw" by auto
    with b64 that(3) show ?thesis
      by (simp add: load_or_create_cache_key_other_def Let_def bindP_def file_query_ok [where x = raw] key_from_slice_def)
  qed
qed

lemma windows_key_Val:
  fixes h :: "'m client_scheme"
  assumes b64: "b64_ok L" and W: "dpapi_ok W" and run: "load_or_create_cache_key_windows L W dir h = (Val k, h')"
  shows "\<exists>c raw. path_exists (cl_files h') (path_join dir ''cache-key.dpapi'') \<and>
    read_file (path_join dir ''cache-key.dpapi'') (cl_files h') = Some c \<and> decrypt_data W c = Some raw \<and> length raw = 32 \<and> k = MasterKey raw"
proof (cases "path_exists (cl_files h) (path_join dir ''cache-key.dpapi'')")
  case True
  with run obtain c raw h1 where q: "file_query (CacheError ''failed to read DPAPI cache key'') (read_file (path_join dir ''cache-key.dpapi'')) h = (Val c, h1)"
    and k: "decrypt_data W c = Some raw" "length raw = 32" "k = MasterKey raw" "h' = h1"
    by (auto simp: load_or_create_cache_key_windows_def Let_def bindP_Val_iff key_from_slice_Inr)
  from file_query_Val [OF q] True k show ?thesis by auto
next
  case False
  with run obtain raw h1 c u where raw: "random_key h = (Val raw, h1)" and c: "encrypt_data W raw = Some c"
    and w: "write_private_file L (path_join dir ''cache-key.dpapi'') c h1 = (Val u, h')" and k: "k = MasterKey raw"
    by (auto simp: load_or_create_cache_key_windows_def Let_def bindP_Val_iff)
  from written_key(2,3) [OF b64 plain_key_names(2) w refl] W raw c k show ?thesis by (auto simp: random_key_Val dpapi_ok_def)
qed

interpretation windows_key: key_store
    "if b64_ok L \<and> dpapi_ok W then load_or_create_cache_key_windows L W dir else throwP (CacheError [])" cl_files "\<lambda>h. cl_faults h = []" for L W dir
proof unfold_locales
  show "key_ok k" if "(if b64_ok L \<and> dpapi_ok W then load_or_create_cache_key_windows L W dir else throwP (CacheError [])) s = (Val k, s')"
    for k and s s' :: "'m client_scheme"
    using that windows_key_Val [of L W dir s k s'] by (auto simp: key_ok_def KEY_LEN_def split: if_splits)
  show "\<exists>t'. (if b64_ok L \<and> dpapi_ok W then load_or_create_cache_key_windows L W dir else throwP (CacheError [])) t = (Val k, t') \<and> cl_files t' = cl_files t"
    if "(if b64_ok L \<and> dpapi_ok W then load_or_create_cache_key_windows L W dir else throwP (CacheError [])) s = (Val k, s')" "cl_files t = cl_files s'" "cl_faults t = []"
    for k and s s' t :: "'m client_scheme"
  proof -
    from that(1) have ok: "b64_ok L" "dpapi_ok W" and run: "load_or_create_cache_key_windows L W dir s = (Val k, s')" by (auto split: if_splits)
    from windows_key_Val [OF ok run] that(2) obtain c raw where "path_exists (cl_files t) (path_join dir ''cache-key.dpapi'')"
      "read_file (path_join dir ''cache-key.dpapi'') (cl_files t) = Some c" "decrypt_data W c = Some raw" "length raw = 32" "k = MasterKey raw" by auto
    with ok that(3) show ?thesis
      by (simp add: load_or_create_cache_key_windows_def Let_def bindP_def file_query_ok [where x = c] key_from_slice_def)
  qed
qed

lemma macos_key_Val:
  fixes h :: "'m mac_client_scheme"
  assumes b64: "b64_ok L" and run: "load_or_create_cache_key_macos L h = (Val k, h')"
  shows "\<exists>b s raw. mc_item h' = Some b \<and> from_utf8 b = Some s \<and> b64url_decode L s = Some raw \<and> length raw = 32 \<and> k = MasterKey raw"
proof -
  let ?h1 = "h\<lparr>mc_faults := tl (mc_faults h)\<rparr>"
  from run have nf: "\<not> mac_fault h" by (auto simp: load_or_create_cache_key_macos_def bindP_def get_generic_password_def)
  show ?thesis
  proof (cases "mc_item h")
    case (Some b)
    with nf have "get_generic_password h = (Val (KeychainItem b) :: (client_error, keychain_answer) outcome, ?h1)" by (simp add: get_generic_password_def)
    with run Some show ?thesis
      by (auto simp: load_or_create_cache_key_macos_def bindP_def [of get_generic_password] bindP_Val_iff b64_decode_def key_from_slice_Inr split: option.splits)
  next
    case None
    with nf have "get_generic_password h = (Val KeychainNotFound :: (client_error, keychain_answer) outcome, ?h1)" by (simp add: get_generic_password_def)
    with run obtain raw h2 u where raw: "fill_bytes 32 ?h1 = (Val raw :: (client_error, byte list) outcome, h2)" and k: "k = MasterKey raw"
      and set: "set_generic_password (CacheError ''failed to store cache key in macOS Keychain'') (str_bytes (b64url_encode L raw)) h2 = (Val u, h')"
      by (auto simp: load_or_create_cache_key_macos_def bindP_def [of get_generic_password] bindP_Val_iff)
    from set have "mc_item h' = Some (str_bytes (b64url_encode L raw))" by (auto simp: set_generic_password_def split: if_splits)
    with b64 raw k b64_str [OF b64, of raw] show ?thesis by (auto simp: b64_ok_def fill_bytes_Val)
  qed
qed

interpretation macos_key: key_store
    "if b64_ok L then load_or_create_cache_key_macos L else throwP (CacheError [])" mc_item "\<lambda>h. \<not> mac_fault h" for L
proof unfold_locales
  show "key_ok k" if "(if b64_ok L then load_or_create_cache_key_macos L else throwP (CacheError [])) s = (Val k, s')"
    for k and s s' :: "'m mac_client_scheme"
    using that macos_key_Val [of L s k s'] by (auto simp: key_ok_def KEY_LEN_def split: if_splits)
  show "\<exists>t'. (if b64_ok L then load_or_create_cache_key_macos L else throwP (CacheError [])) t = (Val k, t') \<and> mc_item t' = mc_item t"
    if "(if b64_ok L then load_or_create_cache_key_macos L else throwP (CacheError [])) s = (Val k, s')" "mc_item t = mc_item s'" "\<not> mac_fault t"
    for k and s s' t :: "'m mac_client_scheme"
    using that macos_key_Val [of L s k s']
    by (auto simp: load_or_create_cache_key_macos_def bindP_def get_generic_password_def b64_decode_def key_from_slice_def split: if_splits)
qed

section \<open>Opening the cache again\<close>

lemma cache_dir_Val: "cache_dir h = (Val d, h') \<Longrightarrow> h' = h \<and>
    (\<forall>t. cl_env t = cl_env h \<longrightarrow> cl_cache_home t = cl_cache_home h \<longrightarrow> cache_dir t = (Val d, t))"
  by (auto simp: cache_dir_def cl_var_os_def bindP_def retP_def okOrP_def throwP_def split: option.splits)

text \<open>What holds of the files once a cache is open: its directory and its key are private.\<close>

definition cache_open :: "cache_store \<Rightarrow> files \<Rightarrow> bool" where
  "cache_open cs fs \<longleftrightarrow> (\<exists>m. node_at fs (cs_dir cs) = Some (Directory m) \<and> m mod 64 = 0) \<and>
     (\<exists>m raw. fs (path_join (cs_dir cs) ''cache-key'') = Some (RegularFile m True raw) \<and> m mod 64 = 0 \<and> length raw = 32 \<and>
        cs_key cs = MasterKey raw)"

lemma make_dirs_Directory: "make_dirs m d fs = Some fs' \<Longrightarrow> d \<noteq> [] \<Longrightarrow> \<exists>k. node_at fs' d = Some (Directory k)"
  by (auto simp: make_dirs_def node_at_plain split: option.splits node.splits if_splits)

lemma cache_key_keeps_dir:
  fixes h :: "'m client_scheme"
  assumes run: "load_or_create_cache_key L dir h = (Val k, h')" and d: "node_at (cl_files h) p = Some nd"
  shows "node_at (cl_files h') p = Some nd"
proof (cases "path_exists (cl_files h) (path_join dir ''cache-key'')")
  case True
  with run obtain raw h1 where "open_private_for_read (path_join dir ''cache-key'') h = (Val raw, h1)" "h' = h1"
    by (auto simp: load_or_create_cache_key_def Let_def bindP_Val_iff)
  with read_private_Val d show ?thesis by metis
next
  case False
  with run obtain raw h1 u where raw: "random_key h = (Val raw, h1)" and w: "write_private_file L (path_join dir ''cache-key'') raw h1 = (Val u, h')"
    by (auto simp: load_or_create_cache_key_def Let_def bindP_Val_iff)
  have same: "cl_files h1 = cl_files h" using raw by (simp add: random_key_Val)
  show ?thesis
  proof (rule node_at_kept [OF _ _ d, of "path_join dir ''cache-key''"])
    show "node_at (cl_files h) (path_join dir ''cache-key'') = None" using False by (simp add: path_exists_def)
    show "cl_files h' q = Some n" if "q \<noteq> path_join dir ''cache-key''" "cl_files h q = Some n" for q n
      using write_private_file_keeps [OF w] that same by (simp add: keeps_nodes_def)
  qed
qed

lemma open_cache_Val:
  fixes h :: "'m client_scheme"
  assumes b64: "b64_ok L" and run: "open_cache L cfg h = (Val cs, h')" and ne: "cs_dir cs \<noteq> []"
  shows "cache_open cs (cl_files h') \<and> cs_server_url cs = server_url cfg \<and> cs_token_hash cs = hash_token L (cfg_token cfg) \<and>
    (\<forall>t :: 'm client_scheme. cl_env t = cl_env h \<longrightarrow> cl_cache_home t = cl_cache_home h \<longrightarrow> cache_dir t = (Val (cs_dir cs), t))"
proof -
  from run [unfolded open_cache_def bindP_Val_iff] obtain d h0 dm hm v h1 meta h2 u h3 k h4 where dir: "cache_dir h = (Val d, h0)"
    and gm: "getP cl_dir_mode h0 = (Val dm :: (client_error, nat) outcome, hm)"
    and mk: "file_op (CacheError ''failed to create cache directory'') (make_dirs dm d) hm = (Val v, h1)"
    and st: "file_query (CacheError ''failed to stat'') (\<lambda>fs. node_at fs d) h1 = (Val meta, h2)"
    and ch: "(if (case meta of RegularFile m r b \<Rightarrow> m | SymbolicLink q \<Rightarrow> 0 | Directory m \<Rightarrow> m | SpecialFile m \<Rightarrow> m) mod 64 \<noteq> 0
      then file_op (CacheError ''failed to chmod'') (\<lambda>fs. Some (set_mode 448 d fs)) else retP ()) h2 = (Val u, h3)"
    and key: "load_or_create_cache_key L d h3 = (Val k, h4)"
    and ret: "retP \<lparr>cs_dir = d, cs_key = k, cs_server_url = server_url cfg, cs_token_hash = hash_token L (cfg_token cfg)\<rparr> h4 = (Val cs :: (client_error, cache_store) outcome, h')"
    by blast
  from ret have cs: "cs = \<lparr>cs_dir = d, cs_key = k, cs_server_url = server_url cfg, cs_token_hash = hash_token L (cfg_token cfg)\<rparr>" and "h4 = h'"
    by auto
  note key = key [unfolded \<open>h4 = h'\<close>]
  from cs ne have "d \<noteq> []" by simp
  from file_op_files [OF mk] make_dirs_Directory \<open>d \<noteq> []\<close> obtain m where m: "node_at (cl_files h1) d = Some (Directory m)" by blast
  from file_query_Val [OF st] m have meta: "meta = Directory m" and h2: "cl_files h2 = cl_files h1" by auto
  have "\<exists>m. node_at (cl_files h3) d = Some (Directory m) \<and> m mod 64 = 0"
  proof (cases "m mod 64 = 0")
    case True
    with ch meta h2 m show ?thesis by auto
  next
    case False
    with ch meta have "file_op (CacheError ''failed to chmod'') (\<lambda>fs. Some (set_mode 448 d fs)) h2 = (Val u, h3)" by simp
    from file_op_files [OF this] have "cl_files h3 = set_mode 448 d (cl_files h1)" using h2 by auto
    with node_at_set_mode [OF m, of 448] show ?thesis by simp
  qed
  then obtain m' where m': "node_at (cl_files h3) d = Some (Directory m')" "m' mod 64 = 0" by (elim exE conjE) (rule that)
  from cache_key_keeps_dir [OF key m'(1)] m'(2) have "\<exists>m. node_at (cl_files h') d = Some (Directory m) \<and> m mod 64 = 0" by simp
  with cache_key_Val [OF b64 key] cs cache_dir_Val [OF dir] show ?thesis by (auto simp: cache_open_def)
qed

lemma open_cache_again:
  fixes t :: "'m client_scheme"
  assumes o: "cache_open cs (cl_files t)" and ne: "cs_dir cs \<noteq> []" and q: "cl_faults t = []" and d: "cache_dir t = (Val (cs_dir cs), t)"
    and cs: "cs_server_url cs = server_url cfg" "cs_token_hash cs = hash_token L (cfg_token cfg)"
  shows "open_cache L cfg t = (Val cs, t)"
proof -
  from o obtain m km raw where m: "node_at (cl_files t) (cs_dir cs) = Some (Directory m)" "m mod 64 = 0"
    and key: "cl_files t (path_join (cs_dir cs) ''cache-key'') = Some (RegularFile km True raw)" "km mod 64 = 0" "length raw = 32" "cs_key cs = MasterKey raw"
    by (auto simp: cache_open_def)
  have "make_dirs (cl_dir_mode t) (cs_dir cs) (cl_files t) = Some (cl_files t)" using m(1) by (simp add: make_dirs_def)
  then have mk: "file_op e (make_dirs (cl_dir_mode t) (cs_dir cs)) t = (Val (), t)" for e :: client_error
    by (simp add: file_op_ok [OF q])
  have st: "file_query e (\<lambda>fs. node_at fs (cs_dir cs)) t = (Val (Directory m), t)" for e :: client_error
    by (rule file_query_ok) (use q m(1) in simp_all)
  from mk st m(2) d cache_key_again [OF q key(1-3), of L] key(4) cs show ?thesis
    by (simp add: open_cache_def bindP_def)
qed

end
