(* ===== verification/Dotenv.thy ===== *)
theory Dotenv
  imports ClientCommands
begin

text \<open>
  The dotenv text that \<open>export\<close> prints, against a reader of the format: lines end at a
  newline, the key at the first equals sign, and a value in double quotes has backslash
  escapes. The locale \<open>quoting\<close> is what the round trip needs of the escaping.
\<close>

section \<open>A reader\<close>

definition unescape_char :: "char \<Rightarrow> char" where
  "unescape_char c = (if c = CHR ''n'' then CHR 0x0A else if c = CHR ''r'' then CHR 0x0D else c)"

text \<open>After the opening quote.\<close>

fun unquote :: "string \<Rightarrow> string option" where
  "unquote [] = None"
| "unquote [c] = (if c = CHR 0x22 then Some [] else None)"
| "unquote (c # d # r) =
     (if c = CHR 0x22 then None
      else if c = CHR 0x5C then map_option ((#) (unescape_char d)) (unquote r)
      else map_option ((#) c) (unquote (d # r)))"

definition read_value :: "string \<Rightarrow> string option" where
  "read_value s = (case s of c # r \<Rightarrow> if c = CHR 0x22 then unquote r else Some s | [] \<Rightarrow> Some [])"

definition read_entry :: "string \<Rightarrow> (string \<times> string) option" where
  "read_entry l = (case dropWhile (\<lambda>c. c \<noteq> CHR ''='') l of
     [] \<Rightarrow> None | e # v \<Rightarrow> map_option (Pair (takeWhile (\<lambda>c. c \<noteq> CHR ''='') l)) (read_value v))"

fun text_lines :: "string \<Rightarrow> string list" where
  "text_lines [] = []"
| "text_lines (c # s) = (if c = CHR 0x0A then [] # text_lines s
     else case text_lines s of [] \<Rightarrow> [[c]] | l # ls \<Rightarrow> (c # l) # ls)"

definition read_dotenv :: "string \<Rightarrow> (string \<times> string) list option" where
  "read_dotenv s = those (map read_entry (text_lines s))"

section \<open>Escaping\<close>

text \<open>A code of characters by strings that a reader can take apart again from the left, ended by
  a terminator, and that keeps control characters out.\<close>

locale quoting =
  fixes code :: "'c \<Rightarrow> 'd list" and scan :: "'d list \<Rightarrow> 'c list option" and stop :: "'d list" and bad :: "'d set"
  assumes scan_code: "scan (code c @ code_rest) = map_option ((#) c) (scan code_rest)"
    and scan_stop: "scan stop = Some []"
    and code_clean: "set (code c) \<inter> bad = {}"
begin

lemma scan_codes: "scan (concat (map code s) @ stop) = Some s"
  by (induction s) (simp_all add: scan_stop scan_code)

lemma codes_clean: "set (concat (map code s)) \<inter> bad = {}"
  using code_clean by auto

lemma codes_inject: "concat (map code s) = concat (map code t) \<longleftrightarrow> s = t"
  by (metis option.inject scan_codes)

end

lemma unquote_nonempty: "r \<noteq> [] \<Longrightarrow> c \<noteq> CHR 0x22 \<Longrightarrow> c \<noteq> CHR 0x5C \<Longrightarrow> unquote (c # r) = map_option ((#) c) (unquote r)"
  by (cases r) simp_all

lemma unquote_single: "c \<noteq> CHR 0x22 \<Longrightarrow> c \<noteq> CHR 0x5C \<Longrightarrow> unquote (c # r) = map_option ((#) c) (unquote r)"
  by (cases r) simp_all

interpretation quoted_value: quoting escape_char unquote "[CHR 0x22]" "{CHR 0x0A, CHR 0x0D}"
proof unfold_locales
  show "unquote (escape_char c @ r) = map_option ((#) c) (unquote r)" for c r
  proof -
    consider "c = CHR 0x5C" | "c = CHR 0x22" | "c = CHR 0x0A" | "c = CHR 0x0D" | "c \<notin> {CHR 0x5C, CHR 0x22, CHR 0x0A, CHR 0x0D}" by blast
    then show ?thesis by cases (simp_all add: escape_char_def unescape_char_def unquote_single)
  qed
  show "set (escape_char c) \<inter> {CHR 0x0A, CHR 0x0D} = {}" for c by (simp add: escape_char_def)
qed simp

section \<open>Lines and entries\<close>

lemma text_lines_line: "CHR 0x0A \<notin> set l \<Longrightarrow> text_lines (l @ CHR 0x0A # s) = l # text_lines s"
  by (induction l) auto

lemma dotenv_safe_clean: "dotenv_safe c \<Longrightarrow> c \<noteq> CHR 0x0A \<and> c \<noteq> CHR 0x0D \<and> c \<noteq> CHR 0x22"
  by (auto simp: dotenv_safe_def is_ascii_alnum_def)

lemma dotenv_value_clean: "set (dotenv_value v) \<inter> {CHR 0x0A, CHR 0x0D} = {}"
proof (cases "v \<noteq> [] \<and> list_all dotenv_safe v")
  case True
  then show ?thesis using dotenv_safe_clean by (auto simp: dotenv_value_def list_all_iff)
next
  case False
  then have "dotenv_value v = [CHR 0x22] @ concat (map escape_char v) @ [CHR 0x22]" by (auto simp: dotenv_value_def)
  then show ?thesis using quoted_value.codes_clean [of v] by (simp add: Int_Un_distrib2)
qed

lemma read_dotenv_value: "read_value (dotenv_value v) = Some v"
proof (cases "v \<noteq> [] \<and> list_all dotenv_safe v")
  case True
  then obtain c r where "v = c # r" "c \<noteq> CHR 0x22" using dotenv_safe_clean by (cases v) auto
  with True show ?thesis by (simp add: dotenv_value_def read_value_def)
next
  case False
  then have "dotenv_value v = CHR 0x22 # concat (map escape_char v) @ [CHR 0x22]" by (auto simp: dotenv_value_def)
  then show ?thesis using quoted_value.scan_codes [of v] by (simp add: read_value_def)
qed

lemma valid_key_clean:
  assumes "valid_secret_key k"
  shows "CHR 0x0A \<notin> set k" and "CHR ''='' \<notin> set k"
  by (rule received_key.valid_avoids [OF assms]; simp add: is_ascii_alnum_def)+

lemma read_entry_line:
  assumes "valid_secret_key k"
  shows "read_entry (k @ ''='' @ dotenv_value v) = Some (k, v)"
proof -
  have "\<forall>c \<in> set k. c \<noteq> CHR ''=''" using valid_key_clean(2) [OF assms] by blast
  then have "dropWhile (\<lambda>c. c \<noteq> CHR ''='') (k @ ''='' @ dotenv_value v) = CHR ''='' # dotenv_value v"
    "takeWhile (\<lambda>c. c \<noteq> CHR ''='') (k @ ''='' @ dotenv_value v) = k"
    by (simp_all add: dropWhile_append takeWhile_append)
  then show ?thesis by (simp add: read_entry_def read_dotenv_value)
qed

lemma dotenv_lines:
  "\<forall>k \<in> fst ` set m. valid_secret_key k \<Longrightarrow> text_lines (dotenv_text m) = map (\<lambda>(k, v). k @ ''='' @ dotenv_value v) m"
proof (induction m)
  case (Cons kv m)
  obtain k v where kv: "kv = (k, v)" by (cases kv)
  have "CHR 0x0A \<notin> set (k @ ''='' @ dotenv_value v)"
    using Cons.prems kv valid_key_clean(1) [of k] dotenv_value_clean [of v] by auto
  from text_lines_line [OF this, of "dotenv_text m"] Cons kv show ?case by (simp add: dotenv_text_def)
qed (simp add: dotenv_text_def)

lemma read_dotenv_text:
  "\<forall>k \<in> fst ` set m. valid_secret_key k \<Longrightarrow> read_dotenv (dotenv_text m) = Some m"
proof -
  assume k: "\<forall>k \<in> fst ` set m. valid_secret_key k"
  have "those (map read_entry (map (\<lambda>(k, v). k @ ''='' @ dotenv_value v) m)) = Some m"
    using k
  proof (induction m)
    case (Cons kv m)
    obtain k v where "kv = (k, v)" by (cases kv)
    with Cons read_entry_line [of k v] show ?case by simp
  qed simp
  with k show ?thesis by (simp add: read_dotenv_def dotenv_lines)
qed

end
