(* ===== verification/ClientProperties.thy ===== *)
theory ClientProperties
  imports ClientSamples CacheKeys Dotenv
begin

text \<open>
  The properties of the client: what its cache offers and for how long, where a served map
  comes from, which server its requests reach, and what it hands to files, other programs and
  dotenv readers.
\<close>

section \<open>The offline cache\<close>

text \<open>C16: the cache keeps what it was given, for 24 hours. A map that was stored is loaded again,
  exactly, as long as the clock is at most two minutes behind and at most 24 hours after the
  time of storing; outside that window the entry is refused.\<close>
theorem stored_map_is_offered:
  fixes h :: client
  assumes "client_libs L D" and "storable m" and "clock_secs h < 2 ^ 63" and "store_cache L D cs p m h = (Val u, h1)"
    and "cl_files h2 = cl_files h1" and "clock_ok h2" and "cl_faults h2 = []"
  shows "if clock_secs h \<le> clock_secs h2 + 120 \<and> clock_secs h2 \<le> clock_secs h + 24 * 60 * 60
     then load_cache L D cs p h2 = (Val m, h2\<lparr>cl_tick := Suc (cl_tick h2)\<rparr>)
     else \<forall>m' h3. load_cache L D cs p h2 \<noteq> (Val m', h3)"
proof -
  from assms(1) have D: "serde_ok D" by (simp add: client_libs_def)
  have put: "(if client_libs L D then put_cached L D cs else (\<lambda>h p m. None)) h p m = Some h1"
    using assms(1,3,4) by (simp add: put_cached_def)
  have "cached L D cs (cl_files h2) (clock_secs h2) p = (if fresh_at (clock_secs h) (clock_secs h2) then Some m else None)"
    using offline.offers_put [OF assms(2) put] assms(5) by simp
  note offered = this
  show ?thesis
  proof (cases "fresh_at (clock_secs h) (clock_secs h2)")
    case True
    with offered have "load_cache L D cs p h2 = (Val m, h2\<lparr>cl_tick := Suc (cl_tick h2)\<rparr>)"
      by (intro load_cache_ok [OF D assms(6,7)]) simp
    with True show ?thesis by (simp add: fresh_at_def)
  next
    case False
    have "load_cache L D cs p h2 \<noteq> (Val m', h3)" for m' h3
    proof
      assume "load_cache L D cs p h2 = (Val m', h3)"
      from load_cache_Val [OF D assms(6) this] offered False show False by simp
    qed
    with False show ?thesis by (auto simp: fresh_at_def)
  qed
qed

theorem stored_map_is_offered_witness:
  "\<exists>h1. store_cache toy_lib toy_serde toy_cache ''app'' toy_map (toy_client []) = (Val (), h1) \<and>
     load_cache toy_lib toy_serde toy_cache ''app'' ((toy_client [])\<lparr>cl_files := cl_files h1\<rparr>) =
       (Val toy_map, (toy_client [])\<lparr>cl_files := cl_files h1, cl_tick := 1\<rparr>)"
proof -
  have small: "length (encode_map toy_serde toy_map) < 2 ^ 32"
    by (simp add: toy_serde_def enc_map_def enc_str_def toy_map_def)
  have st: "storable toy_map" using toy_map_ok by (auto simp: storable_def list_all_iff)
  obtain h1 where run: "store_cache toy_lib toy_serde toy_cache ''app'' toy_map (toy_client []) = (Val (), h1)"
    using store_cache_ok [OF toy_client_libs toy_cache_key toy_cache_writable _ small, of "[]" "''app''"] by auto
  let ?h2 = "(toy_client [])\<lparr>cl_files := cl_files h1\<rparr>"
  have "clock_secs ?h2 = 0" "clock_ok ?h2" "cl_faults ?h2 = []" "cl_tick ?h2 = 0"
    by (simp_all add: clock_secs_def clock_ok_def toy_client_def)
  with stored_map_is_offered [OF toy_client_libs st _ run, of ?h2] run show ?thesis by auto
qed

text \<open>C15: offline after online. When a fetch succeeds and the cache file can be replaced, the
  fetched map is returned and, with the server unreachable and the cache files as they are
  then, the same request returns the same map at every instant of the next 24 hours.\<close>
theorem offline_after_online:
  fixes h :: client
  assumes "client_libs L D" and "key_ok (cs_key cs)" and "cache_writable L cs p h" and "clock_ok h" and "api_cache a = Some cs"
    and "fetched D (answer h) = Inr m" and "length (encode_map D m) < 2 ^ 32"
  shows "\<exists>h1. get_secrets_client L D a p h = (Val m, h1) \<and>
    (\<forall>h2 :: client. cl_files h2 = cl_files h1 \<longrightarrow> cl_faults h2 = [] \<longrightarrow> clock_ok h2 \<longrightarrow> (\<exists>msg. answer h2 = UreqOther msg) \<longrightarrow>
      clock_secs h \<le> clock_secs h2 \<longrightarrow> clock_secs h2 \<le> clock_secs h + 24 * 60 * 60 \<longrightarrow>
      (\<exists>h3. get_secrets_client L D a p h2 = (Val m, h3)))"
proof -
  from assms(1) have D: "serde_ok D" by (simp add: client_libs_def)
  from online_then_offline [OF assms] obtain h1 where run: "get_secrets_client L D a p h = (Val m, h1)"
    and c: "\<And>now. cached L D cs (cl_files h1) now p = (if fresh_at (clock_secs h) now then Some m else None)" by blast
  have "\<exists>h3. get_secrets_client L D a p h2 = (Val m, h3)"
    if "cl_files h2 = cl_files h1" "cl_faults h2 = []" "clock_ok h2" "answer h2 = UreqOther msg"
      "clock_secs h \<le> clock_secs h2" "clock_secs h2 \<le> clock_secs h + 24 * 60 * 60" for h2 :: client and msg
    using get_secrets_offline [OF D that(3,2,4) assms(5), of L p m] c that(1,5,6) by (simp add: fresh_at_def)
  with run show ?thesis by blast
qed

theorem offline_after_online_witness:
  "\<exists>h1 h3. get_secrets_client toy_lib toy_serde toy_api ''app'' (toy_client [toy_answer]) = (Val toy_map, h1) \<and>
     get_secrets_client toy_lib toy_serde toy_api ''app'' ((toy_client [])\<lparr>cl_files := cl_files h1\<rparr>) = (Val toy_map, h3)"
proof -
  have small: "length (encode_map toy_serde toy_map) < 2 ^ 32"
    by (simp add: toy_serde_def enc_map_def enc_str_def toy_map_def)
  have f: "fetched toy_serde (answer (toy_client [toy_answer])) = Inr toy_map" using toy_fetched by simp
  from offline_after_online [OF toy_client_libs toy_cache_key toy_cache_writable _ toy_api_cache f small, of "''app''"]
  obtain h1 where "get_secrets_client toy_lib toy_serde toy_api ''app'' (toy_client [toy_answer]) = (Val toy_map, h1)"
    and off: "\<And>h2 :: client. cl_files h2 = cl_files h1 \<Longrightarrow> cl_faults h2 = [] \<Longrightarrow> clock_ok h2 \<Longrightarrow> \<exists>msg. answer h2 = UreqOther msg \<Longrightarrow>
      0 \<le> clock_secs h2 \<Longrightarrow> clock_secs h2 \<le> 24 * 60 * 60 \<Longrightarrow> \<exists>h3. get_secrets_client toy_lib toy_serde toy_api ''app'' h2 = (Val toy_map, h3)"
    by auto
  moreover have "\<exists>h3. get_secrets_client toy_lib toy_serde toy_api ''app'' ((toy_client [])\<lparr>cl_files := cl_files h1\<rparr>) = (Val toy_map, h3)"
    by (rule off) (simp_all add: clock_ok_def clock_secs_def toy_client_def answer_def)
  ultimately show ?thesis by blast
qed

text \<open>C17: a served map has a source. Secrets the client returns were either parsed from a
  successful response of at most 1 MiB, or, only when the server could not be reached, are
  what the cache offers for this server, token and project at this time. An HTTP status
  of refusal never leads to cached secrets.\<close>
theorem served_map_has_a_source:
  assumes "serde_ok D" and "clock_ok h" and "get_secrets_client L D a p h = (Val m, h')"
  shows "(\<exists>b. answer h = UreqOk (Some b) \<and> length b \<le> MAX_RESPONSE_BYTES \<and> decode_map D b = Some m) \<or>
     (\<exists>msg cs. answer h = UreqOther msg \<and> api_cache a = Some cs \<and> cached L D cs (cl_files h) (clock_secs h) p = Some m)"
  using get_secrets_Val [OF assms] by blast

theorem served_map_has_a_source_witness:
  "\<exists>h' b. get_secrets_client toy_lib toy_serde (toy_api\<lparr>api_cache := None\<rparr>) ''app'' (toy_client [toy_answer]) = (Val toy_map, h') \<and>
     toy_answer = UreqOk (Some b) \<and> decode_map toy_serde b = Some toy_map"
proof -
  have run: "get_secrets_client toy_lib toy_serde (toy_api\<lparr>api_cache := None\<rparr>) ''app'' (toy_client [toy_answer]) =
      (Val toy_map, asked (get_call (toy_api\<lparr>api_cache := None\<rparr>) ''app'') (toy_client [toy_answer]))"
    by (subst get_secrets_fetched_eq) (simp_all add: toy_fetched)
  from served_map_has_a_source [OF toy_serde_ok _ run] run show ?thesis by (auto simp: toy_answer_def)
qed

text \<open>C30: a returned map is well formed: strictly ordered keys, every key within the rule on
  keys (1 to 128 of letters, digits, dash, underscore, dot), every value a UTF-8 string.\<close>
theorem returned_maps_are_well_formed:
  assumes "serde_ok D" and "clock_ok h" and "get_secrets_client L D a p h = (Val m, h')"
  shows "bt_inv m \<and> (\<forall>(k, v) \<in> set m. valid_secret_key k \<and> is_str v)"
proof -
  from get_secrets_Val [OF assms] have keys: "\<forall>k \<in> fst ` set m. valid_secret_key k" and "bt_inv m"
    and src: "(\<exists>b. decode_map D b = Some m) \<or> (\<exists>cs. cached L D cs (cl_files h) (clock_secs h) p = Some m)" by auto
  from src obtain b where "decode_map D b = Some m"
    by (auto simp: cached_def open_envelope_Some split: option.splits if_splits)
  with assms(1) have "\<forall>(k, v) \<in> set m. is_str v" by (simp add: serde_ok_def)
  with keys \<open>bt_inv m\<close> show ?thesis by fastforce
qed

theorem returned_maps_are_well_formed_witness: "\<exists>h'. get_secrets_client toy_lib toy_serde (toy_api\<lparr>api_cache := None\<rparr>) ''app'' (toy_client [toy_answer]) = (Val toy_map, h') \<and>
    (\<forall>(k, v) \<in> set toy_map. valid_secret_key k \<and> is_str v)"
proof -
  have run: "get_secrets_client toy_lib toy_serde (toy_api\<lparr>api_cache := None\<rparr>) ''app'' (toy_client [toy_answer]) =
      (Val toy_map, asked (get_call (toy_api\<lparr>api_cache := None\<rparr>) ''app'') (toy_client [toy_answer]))"
    by (subst get_secrets_fetched_eq) (simp_all add: toy_fetched)
  from returned_maps_are_well_formed [OF toy_serde_ok _ run] run show ?thesis by simp
qed



text \<open>C29: the cache key stays. Once the cache was opened, its directory is closed to group and
  others, its key lies in a private regular file that is not a link, and every later opening,
  with the files as they were left and no failing call, gives the same cache and changes
  nothing.\<close>
theorem reopened_cache_is_the_same:
  fixes h t :: "'m client_scheme"
  assumes "b64_ok L" and "open_cache L cfg h = (Val cs, h1)" and "cs_dir cs \<noteq> []"
    and "cl_files t = cl_files h1" and "cl_env t = cl_env h" and "cl_cache_home t = cl_cache_home h" and "cl_faults t = []"
  shows "open_cache L cfg t = (Val cs, t) \<and> key_ok (cs_key cs) \<and>
    (\<exists>m. node_at (cl_files t) (cs_dir cs) = Some (Directory m) \<and> m mod 64 = 0) \<and>
    (\<exists>m b. cl_files t (path_join (cs_dir cs) ''cache-key'') = Some (RegularFile m True b) \<and> m mod 64 = 0 \<and> cs_key cs = MasterKey b)"
proof -
  from open_cache_Val [OF assms(1-3)] assms(4-6) have o: "cache_open cs (cl_files t)" and d: "cache_dir t = (Val (cs_dir cs), t)"
    and cs: "cs_server_url cs = server_url cfg" "cs_token_hash cs = hash_token L (cfg_token cfg)" by auto
  from open_cache_again [OF o assms(3,7) d cs] o show ?thesis by (auto simp: cache_open_def key_ok_def KEY_LEN_def)
qed

lemma toy_key_path: "split_path ''c/secrets/cache-key'' = [''cache-key'', ''secrets'', ''c'']"
  by (simp add: split_path_def)

lemma toy_opens: "\<exists>cs h1. open_cache toy_lib toy_cfg (toy_client []) = (Val cs, h1) \<and> cs_dir cs = ''c/secrets''"
proof -
  let ?h = "toy_client []" and ?d = "''c/secrets''" and ?p = "''c/secrets/cache-key''"
  let ?h1 = "?h\<lparr>cl_files := [''d'' \<mapsto> Directory 448, ?d \<mapsto> Directory 493]\<rparr>"
  let ?h2 = "?h\<lparr>cl_files := [''d'' \<mapsto> Directory 448, ?d \<mapsto> Directory 448]\<rparr>"
  have dir: "cache_dir ?h = (Val ?d, ?h)"
    by (simp add: cache_dir_def cl_var_os_def bindP_def okOrP_def retP_def toy_client_def path_join_def)
  have mk: "file_op e (make_dirs 493 ?d) ?h = (Val (), ?h1)" for e :: client_error
    by (subst file_op_ok) (simp_all add: make_dirs_def node_at_none)
  have st: "file_query e (\<lambda>fs. node_at fs ?d) ?h1 = (Val (Directory 493), ?h1)" for e :: client_error
    by (rule file_query_ok) (simp_all add: node_at_plain toy_client_def)
  have "set_mode 448 ?d [''d'' \<mapsto> Directory 448, ?d \<mapsto> Directory 493] = [''d'' \<mapsto> Directory 448, ?d \<mapsto> Directory 448]"
    by (simp add: set_mode_def follow.simps)
  then have ch: "file_op e (\<lambda>fs. Some (set_mode 448 ?d fs)) ?h1 = (Val (), ?h2)" for e :: client_error
    by (subst file_op_ok) (simp_all add: toy_client_def)
  have par: "parent_text ?p = ?d" by (simp add: parent_text_def toy_key_path)
  have name: "file_name ?p = Some ''cache-key''" by (simp add: file_name_def toy_key_path)
  have pp: "path_parent ?p = Some ?d" by (simp add: path_parent_def toy_key_path par)
  let ?h3 = "?h2\<lparr>entropy := drop 32 (entropy ?h2)\<rparr>"
  have "with_file_name ?p n \<noteq> ''d''" "with_file_name ?p n \<noteq> ?d" if "n \<noteq> []" for n
    using that by (simp_all add: with_file_name_def name par path_join_def)
  then have "\<exists>fs. write_private_file toy_lib ?p data ?h3 = (Val (), ?h3\<lparr>entropy := drop 16 (entropy ?h3), cl_files := fs\<rparr>) \<and>
      fs ?p = Some (RegularFile 384 True data) \<and> (\<forall>q. q \<noteq> ?p \<longrightarrow> fs q = cl_files ?h3 q)" for data
    by (intro write_private_file_ok [OF toy_b64_ok _ _ name pp]) (simp_all add: toy_client_def)
  then obtain h4 where w: "write_private_file toy_lib ?p (take 32 (entropy ?h2)) ?h3 = (Val (), h4)" by blast
  have "random_key ?h2 = (Val (take 32 (entropy ?h2)), ?h3)" by (simp add: random_key_Val)
  then have "load_or_create_cache_key toy_lib ?d ?h2 = (Val (MasterKey (take 32 (entropy ?h2))), h4)"
    using w by (simp add: load_or_create_cache_key_def Let_def path_join_def bindP_def path_exists_def node_at_none)
  moreover have "cl_dir_mode ?h = 493" by (simp add: toy_client_def)
  ultimately show ?thesis using dir mk st ch by (simp add: open_cache_def bindP_def)
qed

theorem reopened_cache_is_the_same_witness:
  "\<exists>cs h1. open_cache toy_lib toy_cfg (toy_client []) = (Val cs, h1) \<and>
     open_cache toy_lib toy_cfg ((toy_client [])\<lparr>cl_files := cl_files h1\<rparr>) = (Val cs, (toy_client [])\<lparr>cl_files := cl_files h1\<rparr>)"
proof -
  from toy_opens obtain cs h1 where run: "open_cache toy_lib toy_cfg (toy_client []) = (Val cs, h1)" and d: "cs_dir cs = ''c/secrets''" by blast
  let ?t = "(toy_client [])\<lparr>cl_files := cl_files h1\<rparr>"
  have "cl_env ?t = cl_env (toy_client [])" "cl_cache_home ?t = cl_cache_home (toy_client [])" "cl_faults ?t = []"
    by (simp_all add: toy_client_def)
  from reopened_cache_is_the_same [OF toy_b64_ok run _ _ this] d run show ?thesis by auto
qed

section \<open>Files, requests, programs, text\<close>

text \<open>C25: private files are all or nothing. Writing one, however it ends and wherever a system
  call fails, leaves at its path either the whole data in a regular file of mode 0600 that
  replaced whatever stood there, links included (and then the write succeeded), or exactly
  what was there before; besides its directory and one temporary name nothing else changes.\<close>
theorem private_files_are_atomic:
  fixes h :: "'m client_scheme"
  assumes "b64_ok L" and "write_private_file L path data h = (r, h')" and "path_parent path \<noteq> Some path"
  shows "(\<exists>tmp. \<forall>p. p \<notin> {path, tmp} \<union> set_option (path_parent path) \<longrightarrow> cl_files h' p = cl_files h p) \<and>
    (if r = Val () then cl_files h' path = Some (RegularFile 384 True data) else cl_files h' path = cl_files h path)"
  using write_private_file_files [OF assms] unfolding only_touches_def by blast

text \<open>A write that fails after 3 bytes.\<close>

theorem private_files_are_atomic_witness:
  "\<exists>r h'. write_private_file toy_lib ''d/f'' (replicate 9 7) ((toy_client [])\<lparr>cl_faults := [None, None, Some 3]\<rparr>) = (r, h') \<and>
     (if r = Val () then cl_files h' ''d/f'' = Some (RegularFile 384 True (replicate 9 7)) else cl_files h' ''d/f'' = None)"
proof -
  let ?h = "(toy_client [])\<lparr>cl_faults := [None, None, Some 3]\<rparr>"
  obtain r h' where run: "write_private_file toy_lib ''d/f'' (replicate 9 7) ?h = (r, h')"
    by (cases "write_private_file toy_lib ''d/f'' (replicate 9 7) ?h")
  have "file_name ''d/f'' = Some ''f''"
    using split_path_in_d [of "''f''"] by (simp add: file_name_def plain_name_def)
  from private_files_are_atomic [OF toy_b64_ok run parent_is_elsewhere [OF this]] run show ?thesis
    by (auto simp: toy_client_def)
qed

text \<open>C18: a command calls the HTTP library at most once, and only for the configured server. On the
  wire are, at most, the request of that call and the redirects the library follows from it
  (next_hops: the client sets no limit on them, so where they lead is up to the answers). The URL of
  the call is the configured one without trailing slashes and a path under /v1/, the
  configured URL is https or http to a loopback host, without user information, query or
  fragment, a non-empty SECRETS_SERVER_URL or SECRETS_TOKEN takes precedence over the file, and
  the call carries the configured token.\<close>
theorem requests_reach_configured_server:
  assumes "dispatch L P D ok c h = (r, h')"
  shows "cl_sent h' = cl_sent h \<or> (\<exists>call raw u tok path. cl_sent h' = cl_sent h @ call # next_hops h \<and>
     hc_url call = trim_end_slashes raw @ ''/v1/'' @ path \<and> hc_auth call = ''Bearer '' @ tok \<and>
     url_parse P raw = Some u \<and> (u_scheme u = ''https'' \<or> u_scheme u = ''http'' \<and> is_loopback_host u) \<and>
     u_username u = [] \<and> u_password u = None \<and> u_query u = None \<and> u_fragment u = None \<and>
     (\<forall>x. nonempty (cl_var h ''SECRETS_SERVER_URL'') = Some x \<longrightarrow> raw = x) \<and>
     (\<forall>x. nonempty (cl_var h ''SECRETS_TOKEN'') = Some x \<longrightarrow> tok = x))"
proof -
  obtain r1 h1 where cfg: "load_config P h = (r1, h1)" by (cases "load_config P h")
  show ?thesis
  proof (cases r1)
    case (Val cfg')
    with cfg have l: "load_config P h = (Val cfg', h1)" by simp
    from load_config_ValD [OF this] obtain raw where raw: "validate_server_url P raw = Inr ()" "server_url cfg' = trim_end_slashes raw"
      and env: "case nonempty (cl_var h ''SECRETS_SERVER_URL'') of Some u \<Rightarrow> raw = u | None \<Rightarrow> True"
        "case nonempty (cl_var h ''SECRETS_TOKEN'') of Some t \<Rightarrow> cfg_token cfg' = t | None \<Rightarrow> True" by blast
    show ?thesis
    proof (cases "cl_sent h' = cl_sent h")
      case False
      with sends_dispatch [OF l assms] obtain call path where "cl_sent h' = cl_sent h @ call # next_hops h"
          "hc_url call = trim_end_slashes raw @ ''/v1/'' @ path" "hc_auth call = ''Bearer '' @ cfg_token cfg'"
        by (auto simp: to_server_def raw(2))
      moreover from raw(1) [unfolded validate_ok] obtain u where "url_parse P raw = Some u"
        "u_scheme u = ''https'' \<or> u_scheme u = ''http'' \<and> is_loopback_host u"
        "u_username u = [] \<and> u_password u = None \<and> u_query u = None \<and> u_fragment u = None" by blast
      moreover from env have "\<forall>x. nonempty (cl_var h ''SECRETS_SERVER_URL'') = Some x \<longrightarrow> raw = x"
        "\<forall>x. nonempty (cl_var h ''SECRETS_TOKEN'') = Some x \<longrightarrow> cfg_token cfg' = x" by (auto split: option.splits)
      ultimately show ?thesis by blast
    qed simp
  qed (use sends_nothing [OF cfg _ assms] in auto)
qed

definition toy_parsers :: parsers where
  "toy_parsers = \<lparr>toml_parse = (\<lambda>s. None),
     url_parse = (\<lambda>s. Some \<lparr>u_scheme = ''https'', u_username = [], u_password = None, u_host = Some (Domain ''s''),
       u_query = None, u_fragment = None\<rparr>)\<rparr>"

text \<open>The first call meets a redirect.\<close>

definition toy_hop :: http_call where
  "toy_hop = \<lparr>hc_method = ''GET'', hc_url = ''https://t/v1'', hc_auth = [], hc_body = None\<rparr>"

definition toy_home :: "ureq_result list \<Rightarrow> client" where
  "toy_home net = (toy_client net)\<lparr>cl_env := [''SECRETS_SERVER_URL'' \<mapsto> str_bytes ''https://s/'', ''SECRETS_TOKEN'' \<mapsto> str_bytes ''r''], cl_hops := [[toy_hop]]\<rparr>"

lemma toy_env: "nonempty (cl_var (toy_home n) ''SECRETS_SERVER_URL'') = Some ''https://s/''"
  "nonempty (cl_var (toy_home n) ''SECRETS_TOKEN'') = Some ''r''"
proof -
  have "is_str ''https://s/''" "is_str ''r''" by (rule ascii_is_str, simp add: ascii_str_def)+
  then show "nonempty (cl_var (toy_home n) ''SECRETS_SERVER_URL'') = Some ''https://s/''"
    "nonempty (cl_var (toy_home n) ''SECRETS_TOKEN'') = Some ''r''"
    by (simp_all add: cl_var_def toy_home_def nonempty_def)
qed

lemma toy_config_loads: "load_config toy_parsers (toy_home n) = (Val toy_cfg, toy_home n)"
proof -
  have "path_exists (cl_files (toy_home n)) (''h/.config/secrets/config.toml'') = False"
    by (simp add: toy_home_def path_exists_def node_at_none)
  moreover have "config_path (toy_home n) = (Val ''h/.config/secrets/config.toml'', toy_home n)"
    by (simp add: config_path_def cl_var_os_def bindP_def toy_home_def toy_client_def path_join_def okOrP_def retP_def)
  moreover have "trim_end_slashes ''https://s/'' = ''https://s''" by (simp add: trim_end_slashes_def)
  ultimately show ?thesis
    by (simp add: load_config_def bindP_def load_file_def getP_def retP_def okOrP_def toy_env or_else_def toy_cfg_def)
      (simp add: validate_server_url_def toy_parsers_def liftP_def toy_env retP_def)
qed

lemma toy_list_command_runs: "\<exists>h'. dispatch toy_lib toy_parsers toy_serde (\<lambda>_. True) (CList ''app'' True) (toy_home [toy_answer]) = (Val (Exit 0), h') \<and> cl_sent h' \<noteq> []"
proof -
  let ?a = "\<lparr>api_base = ''https://s'', api_token = ''r'', api_cache = None\<rparr>" and ?h = "toy_home [toy_answer]"
  have "answer ?h = toy_answer" by (simp add: toy_home_def toy_client_def answer_def)
  then have get: "get_secrets_client toy_lib toy_serde ?a ''app'' ?h = (Val toy_map, asked (get_call ?a ''app'') ?h)"
    by (subst get_secrets_fetched_eq) (simp_all add: toy_fetched)
  obtain h' where out: "print_lines (map fst toy_map) (asked (get_call ?a ''app'') ?h) = (Val () :: (command_error, unit) outcome, h')"
    by (simp add: toy_map_def print_line_def print_out_def bindP_def retP_def)
  have "cl_sent h' = cl_sent (asked (get_call ?a ''app'') ?h)" by (rule keepsD' [OF keeps_print_lines out]) simp
  then have "cl_sent h' \<noteq> []" by (simp add: asked_def)
  moreover have "dispatch toy_lib toy_parsers toy_serde (\<lambda>_. True) (CList ''app'' True) ?h = (Val (Exit 0), h')"
    by (simp add: dispatch_def bindP_def mapErrP_def toy_config_loads new_no_cache_def with_cache_def toy_cfg_def perform_def
        list_client_def get out retP_def)
  ultimately show ?thesis by blast
qed

theorem requests_reach_configured_server_witness:
  "\<exists>h' call path. dispatch toy_lib toy_parsers toy_serde (\<lambda>_. True) (CList ''app'' True) (toy_home [toy_answer]) = (Val (Exit 0), h') \<and>
     cl_sent h' = [call, toy_hop] \<and> hc_auth call = ''Bearer r'' \<and> hc_url call = ''https://s/v1/'' @ path"
proof -
  from toy_list_command_runs obtain h' where run: "dispatch toy_lib toy_parsers toy_serde (\<lambda>_. True) (CList ''app'' True) (toy_home [toy_answer]) = (Val (Exit 0), h')"
    and sent: "cl_sent h' \<noteq> []" by blast
  have "cl_sent (toy_home [toy_answer]) = []" "next_hops (toy_home [toy_answer]) = [toy_hop]" by (simp_all add: toy_home_def next_hops_def)
  moreover have "trim_end_slashes ''https://s/'' = ''https://s''" by (simp add: trim_end_slashes_def)
  ultimately show ?thesis using requests_reach_configured_server [OF run] run sent toy_env by fastforce
qed

text \<open>C27: run starts the command it was given, and nothing else, with the parent's environment
  overridden by the project's secrets: the loop that sets the variables one by one is map
  override, so every secret is visible, wins over an inherited variable of its name, and no
  other variable changes.\<close>
theorem child_environment_is_override:
  assumes "serde_ok D" and "clock_ok h" and "run_client L D exec_ok a p cmd h = (Val r, h')"
  shows "\<exists>prog args m. cmd = prog # args \<and> get_secrets_client L D a p h = (Val m, h') \<and>
    r = Replaced \<lparr>ch_program = prog, ch_args = args, ch_env = cl_env h' ++ (\<lambda>k. map_option str_bytes (map_of m k))\<rparr>"
proof -
  from run_client_Val [OF assms(3)] obtain prog args m where cmd: "cmd = prog # args"
    and get: "get_secrets_client L D a p h = (Val m, h')" and r: "r = Replaced (build_command cmd m (cl_env h'))" by blast
  have "bt_inv m" using get_secrets_Val [OF assms(1,2) get] by blast
  with cmd get r show ?thesis by (auto simp: build_command_def fold_env)
qed

theorem child_environment_is_override_witness:
  "\<exists>h'. run_client toy_lib toy_serde (\<lambda>_. True) (toy_api\<lparr>api_cache := None\<rparr>) ''app'' [''env'', ''-0''] (toy_client [toy_answer]) =
     (Val (Replaced \<lparr>ch_program = ''env'', ch_args = [''-0''],
        ch_env = Map.empty ++ (\<lambda>k. map_option str_bytes (map_of toy_map k))\<rparr>), h')"
proof -
  let ?a = "toy_api\<lparr>api_cache := None\<rparr>" and ?h = "toy_client [toy_answer]"
  have get: "get_secrets_client toy_lib toy_serde ?a ''app'' ?h = (Val toy_map, asked (get_call ?a ''app'') ?h)"
    by (subst get_secrets_fetched_eq) (simp_all add: toy_fetched)
  have "\<exists>r. run_client toy_lib toy_serde (\<lambda>_. True) ?a ''app'' [''env'', ''-0''] ?h = (Val r, asked (get_call ?a ''app'') ?h)"
    by (simp add: run_client_def bindP_def mapErrP_def get getP_def Let_def has_nul_def toy_map_def retP_def)
  then obtain r where run: "run_client toy_lib toy_serde (\<lambda>_. True) ?a ''app'' [''env'', ''-0''] ?h = (Val r, asked (get_call ?a ''app'') ?h)" by blast
  from child_environment_is_override [OF toy_serde_ok _ run] run get show ?thesis by auto
qed

text \<open>C26: the dotenv export loses nothing and can be split at its newlines. For every map the
  client returns, the text has one line per secret and a reader that splits at newlines and
  at the first equals sign and undoes the quoting gets back the same map in the same order,
  whatever the values contain.\<close>
theorem dotenv_reads_back:
  assumes "\<forall>k \<in> fst ` set m. valid_secret_key k"
  shows "read_dotenv (dotenv_text m) = Some m \<and> length (text_lines (dotenv_text m)) = length m"
  using read_dotenv_text [OF assms] dotenv_lines [OF assms] by simp

theorem dotenv_reads_back_witness:
  "read_dotenv (dotenv_text [(''K'', [CHR 0x0A, CHR 0x22, CHR 0x5C] @ '' c'')]) = Some [(''K'', [CHR 0x0A, CHR 0x22, CHR 0x5C] @ '' c'')]"
  using dotenv_reads_back [of "[(''K'', [CHR 0x0A, CHR 0x22, CHR 0x5C] @ '' c'')]"]
  by (simp add: valid_secret_key_def is_ascii_alnum_def)

section \<open>Behaviour worth knowing\<close>

text \<open>The cache file, unlike the key file, is opened through links and whatever its mode.\<close>

lemma cache_reads_follow_links:
  assumes "q \<noteq> cache_path L cs p"
  shows "cached L D cs (fs(cache_path L cs p \<mapsto> SymbolicLink q, q \<mapsto> RegularFile m True b)) now p =
    cached L D cs (fs(cache_path L cs p \<mapsto> RegularFile 384 True b)) now p"
proof -
  have "follow (Suc n) (fs(r \<mapsto> SymbolicLink q, q \<mapsto> RegularFile m True b)) r = Some q" if "q \<noteq> r" for n r
    using that by (simp add: follow.simps)
  from this [of _ 39] assms have "node_at (fs(cache_path L cs p \<mapsto> SymbolicLink q, q \<mapsto> RegularFile m True b)) (cache_path L cs p) =
      Some (RegularFile m True b)" by (simp add: node_at_def)
  then show ?thesis by (simp add: cached_def read_file_def node_at_plain)
qed

text \<open>A child that crashes on Windows ends with a code below 0, which the client reports as
  success, and a code above 255 as 255.\<close>

lemma child_codes_are_clamped:
  assumes "run_client_wait L D child_status a p cmd h = (Val (Exit c), h')"
  shows "main_client (Val (Exit c)) = (if c < 0 then Status 0 else if 255 < c then Status 255 else Status (nat c)) \<and>
    (\<exists>child. child_status child = Some (Some c) \<or> child_status child = Some None \<and> c = 1)"
proof -
  from assms obtain child s where "(case child_status child of None \<Rightarrow> throwP (CommandMessage ''failed to run'')
      | Some code \<Rightarrow> retP (Exit (case code of Some c \<Rightarrow> c | None \<Rightarrow> 1))) s = (Val (Exit c), h')"
    by (auto simp: run_client_wait_def bindP_Val_iff Let_def split: if_splits)
  then have "child_status child = Some (Some c) \<or> child_status child = Some None \<and> c = 1"
    by (cases "child_status child") (auto simp: retP_def split: option.splits)
  then show ?thesis by (auto simp: main_client_def clamp_def)
qed

end
