(* ===== verification/Spec2Isabelle.thy ===== *)
theory Spec2Isabelle
  imports ServerProperties ApiProperties TwinProperties AuditProperties ConcurrentProperties CommandProperties ClientProperties
begin

text \<open>
  A verification development for the secrets manager: a server that keeps encrypted secrets in
  SQLite and serves them over HTTP (\<open>crates/secrets-server\<close>), its crypto crate
  (\<open>crates/secrets-crypto\<close>), and a client CLI with an encrypted offline cache
  (\<open>crates/secrets-client\<close>).

  \<^bold>\<open>How code becomes definitions.\<close> A function with effects is a \<open>proc\<close>: a function from a
  state to an outcome, \<open>Val\<close> (returned), \<open>Fail\<close> (an \<open>Err\<close>) or \<open>Panic\<close>, and the next state;
  \<open>bindP\<close> is \<open>?\<close> and sequencing, \<open>mapErrP\<close> is \<open>map_err\<close> (\<open>Prelude\<close>). States are records that
  extend each other: \<open>rng\<close> (the operating system's random bytes as a list) is extended by \<open>world\<close>
  (database, clock, and which statements will fail), that by \<open>server\<close> (mutex poison flag, audit
  log) and by \<open>host\<close> (environment, files, terminal, locks of a server command); \<open>client\<close> is
  the process of the client. Rust strings are byte strings with \<open>is_str\<close> for valid UTF-8;
  \<open>u8\<close>, \<open>u32\<close> and \<open>u64\<close> are words; a \<open>BTreeMap\<close> is an ordered association list (\<open>bt_inv\<close>).
  Third-party code is a parameter: \<open>lib\<close> (AEAD, Argon2, SHA-256, base64, time), \<open>web\<close> (axum and
  JSON of requests), \<open>serde\<close> (JSON of the client), \<open>parsers\<close> (TOML and URLs). What the code relies
  on of it are the predicates \<open>aead_ok\<close>, \<open>argon2_ok\<close>, \<open>ct_ok\<close>, \<open>sha_ok\<close>,
  \<open>b64_ok\<close>, \<open>time_ok\<close>, \<open>web_ok\<close>, \<open>serde_ok\<close> and \<open>wire_ok\<close>, all satisfied by the toy functions of
  \<open>Samples\<close> and \<open>ClientSamples\<close>, on which the witnesses run.

  \<^bold>\<open>Shared theories.\<close> \<open>Prelude\<close>: procedures, the collections \<open>frame\<close> (what a procedure leaves
  alone) and \<open>pres\<close>, ordered maps. \<open>Bytes\<close>: little-endian integers, length prefixes, UTF-8,
  and the rule on names. \<open>Paths\<close>, \<open>Files\<close>, \<open>TextFormat\<close>: \<open>std::path\<close>, a file system with links and
  special files, formatting. \<open>Lockstep\<close>: pairs of runs that stay related, with a rule for each
  combinator (collection \<open>lock\<close>).

  \<^bold>\<open>Crypto\<close>: \<open>Crypto\<close> models \<open>secrets-crypto/src/lib.rs\<close>; the locale \<open>sealing\<close> is the contract
  of \<open>encrypt\<close> and \<open>decrypt\<close>.

  \<^bold>\<open>Server data.\<close> \<open>Database\<close> (\<open>db.rs\<close>: tables as lists of rows, statements, transactions with
  rollback, migration), \<open>Repo\<close> (\<open>repo.rs\<close>), \<open>CryptoState\<close> (\<open>crypto_state.rs\<close>: first
  initialisation, verification, rekey). Abstraction: \<open>vault L K d\<close> in \<open>Vault\<close>, a map from projects to
  maps from keys to values, which is what the rows mean under the key; \<open>api_change\<close> lists the
  changes a request may make, and every one keeps \<open>db_wf\<close> and \<open>readable\<close>. \<open>Rekey\<close> and \<open>RekeyVault\<close>
  prove the rekey loop against it.

  \<^bold>\<open>Server requests.\<close> \<open>Server\<close> (\<open>error.rs\<close>, shared state), \<open>Auth\<close> (\<open>auth.rs\<close>), \<open>AuditLog\<close> and
  \<open>AuditFile\<close> (\<open>audit.rs\<close>), \<open>Handlers\<close> (\<open>handlers.rs\<close>), \<open>App\<close> (\<open>app.rs\<close>: routes and one request
  end to end, as one step). \<open>Effects\<close> and \<open>Answers\<close> say what each handler changes and answers,
  \<open>RequestEffects\<close> what a request leaves alone; \<open>ApiProperties\<close> and \<open>ServerProperties\<close> hold the
  properties. \<open>AuditText\<close> models the log as the file holds it: one line of JSON per record,
  and what a write that fails half way leaves; the JSON renderer is a parameter of which
  \<open>render_ok\<close> is relied on (no line end inside a record, different records differ), satisfied by the
  toy renderer of \<open>AuditProperties\<close>.

  \<^bold>\<open>Confidentiality.\<close> \<open>Twins\<close>: the relation \<open>alike\<close> (over \<open>Lockstep\<close>), databases that agree on the tokens and one project, up
  to row ids. \<open>TwinServers\<close>: statements, handlers, authentication, router and audit layer are in
  lockstep for callers confined to the project. \<open>TwinProperties\<close> concludes that their answers and
  audit records do not depend on the rest of the vault.

  \<^bold>\<open>Requests interleaved.\<close> The server answers requests on several threads over one database
  mutex. \<open>Concurrent\<close> cuts a request where the code releases the mutex: name the token for the
  log, accept the token, run the handler (minting a token comes before its lock), write the
  record. A request is a \<open>stage\<close>, \<open>advance\<close> runs its next section, \<open>schedule\<close> runs a list of
  turns over a pool of requests and \<open>events\<close> is what happened; the phases are a \<open>linorder\<close>, and
  every section goes up in it. The cut is made by hand, from reading where the code locks: that
  a handler runs in one section is part of the model, not a result, and a lock held too long or
  taken twice is not expressible. \<open>ConcurrentRuns\<close> checks the cut against \<open>App\<close>: uninterrupted
  sections are the request as one step (\<open>completes_handle\<close>).
  \<open>ConcurrentFacts\<close>: what the stage of a request says about the past (\<open>explained\<close>, \<open>served\<close>) and
  which changes are authorised. \<open>ConcurrentEffects\<close>: one change per request, and the audit
  records as a multiset. \<open>ConcurrentVersions\<close>: versions only grow. \<open>ConcurrentTokens\<close>: revoked rows stay
  revoked. \<open>ConcurrentReads\<close>: an answered PUT stays visible, or is
  superseded by a higher version, as long as nothing is deleted. \<open>ConcurrentProperties\<close> holds the
  properties, with witnesses on the schedules of \<open>ConcurrentSamples\<close>.

  \<^bold>\<open>Server processes.\<close> \<open>ServerConfig\<close> (\<open>config.rs\<close>), \<open>Lock\<close> (\<open>lock.rs\<close>), \<open>ServerCommands\<close>
  (\<open>commands.rs\<close>). \<open>System\<close> is the state machine of an installation: a database, the held locks
  and the running servers with the requests each is serving, with a step for a start, a stop
  (requests may be running), an arriving request, the next section of a request and each
  command; its invariant is that at most one server runs and that its key opens every stored
  secret. Nothing of the AEAD's commitment to its key is assumed for it: a run is one of
  \<open>clear_step\<close>s, in which no two of the passphrases entered to the commands of the run open the
  verifier stored at that moment with different keys (\<open>unambiguous\<close>; of one passphrase it is
  proved, \<open>unambiguous_single\<close>). \<open>CommandEffects\<close> and \<open>CommandResults\<close> bound and evaluate the commands;
  \<open>CommandProperties\<close> holds the properties.

  \<^bold>\<open>Client.\<close> \<open>ClientHost\<close> (process state and \<open>error.rs\<close>), \<open>ClientConfig\<close> (\<open>config.rs\<close>),
  \<open>PrivateFile\<close>, \<open>ClientCache\<close> and \<open>CacheKeys\<close> (\<open>cache.rs\<close>), \<open>ClientWire\<close> and \<open>ClientApi\<close>
  (\<open>api.rs\<close>), \<open>ClientCommands\<close> (\<open>commands.rs\<close>, \<open>cli.rs\<close>, \<open>main.rs\<close>). \<open>CacheResults\<close>: the map a
  file system offers at an instant (\<open>cached\<close>), the contract \<open>expiring_cache\<close> and that the code
  implements it; the time checks on \<open>u64\<close> are the checks on integers. \<open>ClientResults\<close> and
  \<open>ClientEffects\<close>: what the operations return and touch. \<open>Dotenv\<close>: a reader of the export.
  \<open>ClientProperties\<close> holds the properties, and \<open>Journey\<close> joins client and server: the request
  of the one is the request of the other, so that this theory can state what a client sets
  and gets in terms of the vault.

  \<^bold>\<open>Bounds.\<close> Symbolic links are followed 40 times, the limit of Linux, after which an operation
  fails as the kernel's does. Clock readings of the client are below \<open>2 ^ 63\<close> seconds, which
  \<open>SystemTime\<close> guarantees. Nothing else is bounded: loops are structural
  recursion, and the one \<open>while\<close> loop of the code is proved to end (\<open>truncation_loop_ends\<close>).

  \<^bold>\<open>Not modelled.\<close> The async runtime and its scheduler: requests of one server interleave at
  the sections between which the code takes and releases its mutexes, a section is atomic
  because it holds one, and any order of sections is a schedule; waiting for a mutex is not
  represented. A request dropped half way
  because its connection closed is one that gets no more turns. Sockets and TLS, clap, the
  text of anyhow errors beyond fixed messages, stderr, zeroization and \<open>Debug\<close> of third-party
  types, and tests: the integration tests and the \<open>#[cfg(test)]\<close> modules that close most
  source files, which are nearly all the lines no definition covers. Of the platform-dependent functions the commands use the Unix variants; the
  ones off Unix are definitions (\<open>.._other\<close>) with lemmas that say where they differ. How ureq follows
  redirects is its own: the requests it makes for a call are a list that comes from outside
  (\<open>next_hops\<close>), recorded after the call, and the answer is the last one. What axum answers to
  a path that does not decode is a parameter (\<open>path_rejection\<close>), chosen by the route parameter.
  A poisoned mutex is modelled as unwinding leaves it; in the release profile a panic aborts
  the process. Timing
  of comparisons is outside the model: \<open>ct_slices\<close> has only its result.
\<close>

section \<open>Samples\<close>

definition toy_render :: "json \<Rightarrow> byte list" where
  "toy_render j = (case j of JObj kvs \<Rightarrow> enc_map (map (\<lambda>(k, v). (k, case v of JStr s \<Rightarrow> s | _ \<Rightarrow> [])) kvs) | _ \<Rightarrow> [])"

lemma toy_wire: "wire_ok toy_web toy_serde toy_render"
proof -
  have "map (\<lambda>(k, v). (k, case v of JStr s \<Rightarrow> s | _ \<Rightarrow> [])) (map (\<lambda>(k, v). (k, JStr v)) l) = l" for l
    by (induction l) auto
  then have "decode_map toy_serde (toy_render (secrets_json l)) = Some l" if "bt_inv l" "\<forall>(k, v) \<in> set l. is_str v" for l
    using that by (auto simp: toy_render_def secrets_json_def toy_serde_def dec_enc_map list_all_iff)
  then show ?thesis by (simp add: wire_ok_def toy_web_def toy_serde_def)
qed

definition toy_user :: api where
  "toy_user = \<lparr>api_base = ''https://s'', api_token = ''c'', api_cache = None\<rparr>"

lemma toy_bearers:
  "extract_bearer toy_web (rq_auth (wire_request b (get_call toy_user p))) = Some ''c''"
  "extract_bearer toy_web (rq_auth (wire_request b (put_call D toy_user p k v))) = Some ''c''"
  using toy_bearer [of "CHR ''c''" GET "[]" "[]"]
  by (simp_all add: wire_request_def get_call_def put_call_def auth_header_def toy_user_def toy_request_def)

definition toy_ci :: authed_token where
  "toy_ci = \<lparr>at_name = ''ci'', at_scope = Some ''app''\<rparr>"

lemma toy_admitted: "db_tokens d = db_tokens toy_db \<Longrightarrow> who toy_lib now (hash_token toy_lib ''c'') (db_tokens d) = Some toy_ci"
  using toy_who by (simp add: toy_ci_def)

text \<open>The toy server, its clock stopped, on given tables.\<close>

definition toy_on :: "database \<Rightarrow> server" where
  "toy_on d = toy_server\<lparr>wdb := d\<rparr>"

lemma toy_on_simps [simp]: "wdb (toy_on d) = d" "healthy (toy_on d)" "wclock (toy_on d) = (\<lambda>_. 0)" "wtick (toy_on d) = 0"
  by (simp_all add: toy_on_def healthy_def toy_server_def)

lemma toy_get_handled:
  assumes "db_wf d" and "readable toy_lib toy_key d" and "vault toy_lib toy_key d ''app'' \<noteq> None" and "db_tokens d = db_tokens toy_db"
  shows "\<exists>l w'. handle toy_lib toy_web toy_key (wire_request ''https://s'' (get_call toy_user ''app'')) (toy_on d) =
    (Val (respond 200 (secrets_json l)), w') \<and> bt_inv l \<and> vault toy_lib toy_key d ''app'' = Some (map_of l)"
proof -
  let ?req = "wire_request (api_base toy_user) (get_call toy_user ''app'')"
  let ?t = toy_ci and ?w = "(toy_on d)\<lparr>wtick := Suc (Suc 0)\<rparr>"
  have "healthy ?w" "wdb ?w = d" by (simp_all add: healthy_def toy_on_def)
  with get_secrets_answer [of ?w toy_lib toy_key "''app''" ?t] assms(1-3) obtain l where l: "bt_inv l" "vault toy_lib toy_key d ''app'' = Some (map_of l)"
    "get_secrets toy_lib toy_key ?t ''app'' ?w = (Val (respond 200 (secrets_json l)), ?w)"
    by (auto simp: scope_allows_def toy_ci_def split: option.splits)
  have meth: "rq_method ?req = GET" by (simp add: wire_request_def get_call_def wire_method_def)
  have "\<exists>w'. handle toy_lib toy_web toy_key ?req (toy_on d) = (Val (respond 200 (secrets_json l)), w') \<and> wdb w' = wdb ?w"
  proof (rule handle_serves [OF toy_ct _ toy_bearers(1) _ get_route])
    show "endpoint toy_lib toy_web toy_key ?req (RSecrets ''app'') (rq_method ?req) =
        Some (\<lambda>t. with_path toy_web [(''name'', ''app'')] (\<lambda>q. get_secrets toy_lib toy_key t (q ! 0)))" by (simp add: meth)
    show "with_path toy_web [(''name'', ''app'')] (\<lambda>q. get_secrets toy_lib toy_key ?t (q ! 0)) ((toy_on d)\<lparr>wtick := Suc (Suc (wtick (toy_on d)))\<rparr>) =
        (Val (respond 200 (secrets_json l)), ?w)" using l(3) by (simp add: with_path_def toy_web_def)
    show "rfc3339_format toy_lib (wclock ?w (wtick ?w)) = Some (bytes_str (le_bytes 10 0))"
      by (simp add: toy_on_def toy_server_def toy_format0)
  qed (use assms(4) toy_admitted [OF refl] meth in simp_all)
  with l(1,2) show ?thesis by (auto simp: toy_user_def)
qed

lemma toy_put_handled:
  "\<exists>rsp w'. handle toy_lib toy_web toy_key (wire_request ''https://s'' (put_call toy_serde toy_user ''app'' ''N'' ''v'')) (toy_on toy_db) =
    (Val rsp, w') \<and> rs_status rsp < 400 \<and> db_wf (wdb w') \<and> readable toy_lib toy_key (wdb w') \<and> db_tokens (wdb w') = db_tokens toy_db"
proof -
  let ?req = "wire_request (api_base toy_user) (put_call toy_serde toy_user ''app'' ''N'' ''v'')"
  let ?w = "(toy_on toy_db)\<lparr>wtick := Suc (Suc 0)\<rparr>"
  have h: "healthy ?w" and e: "24 \<le> length (entropy ?w)" and pid: "find_project (wdb ?w) ''app'' = Some 1"
    by (simp_all add: healthy_def toy_on_def toy_find)
  have time: "rfc3339_format toy_lib (wclock ?w (wtick ?w)) = Some (bytes_str (le_bytes 10 0))" by (simp add: toy_format0)
  have body: "json_body toy_web (parse_set_secret toy_web) ?req = Inr ''v''"
    using toy_strs(3) by (simp add: json_body_def toy_web_def wire_request_def put_call_def toy_serde_def BODY_LIMIT_def)
  have names: "valid_project ''app''" "valid_key ''N''" "scope_allows (at_scope toy_ci) ''app''"
    by (simp_all add: valid_project_def valid_key_def is_ascii_alnum_def scope_allows_def toy_ci_def)
  obtain rsp w' where put: "put_secret toy_lib toy_web toy_key toy_ci ''app'' ''N'' ?req ?w = (Val rsp, w')"
    using put_secret_answer [OF h toy_aead toy_key_ok e time names body _ pid] by auto
  from put_secret_ValD [OF toy_aead toy_web_ok _ put] toy_db_wf have st: "rs_status rsp = 200" by (auto simp: respond_def)
  have ch: "api_change toy_lib toy_key (Some ''app'') toy_db (wdb w')"
    using put_secret_change [OF toy_aead toy_web_ok, of toy_key toy_ci "''app''" "''N''" ?req ?w] put
    by (simp add: changes_def toy_ci_def)
  have clk: "wclock w' = (\<lambda>_. 0)"
    using keepsD' [OF keeps_handlers(4) put, of wclock] by (simp add: outside_db_def)
  have meth: "rq_method ?req = PUT" by (simp add: wire_request_def put_call_def wire_method_def)
  have "\<exists>w''. handle toy_lib toy_web toy_key ?req (toy_on toy_db) = (Val rsp, w'') \<and> wdb w'' = wdb w'"
  proof (rule handle_serves [OF toy_ct _ toy_bearers(2) _ put_route])
    show "endpoint toy_lib toy_web toy_key ?req (RSecret ''app'' ''N'') (rq_method ?req) =
        Some (\<lambda>t. with_path toy_web [(''name'', ''app''), (''key'', ''N'')] (\<lambda>q. put_secret toy_lib toy_web toy_key t (q ! 0) (q ! 1) ?req))" by (simp add: meth)
    show "with_path toy_web [(''name'', ''app''), (''key'', ''N'')] (\<lambda>q. put_secret toy_lib toy_web toy_key toy_ci (q ! 0) (q ! 1) ?req)
        ((toy_on toy_db)\<lparr>wtick := Suc (Suc (wtick (toy_on toy_db)))\<rparr>) = (Val rsp, w')" using put by (simp add: with_path_def toy_web_def)
    show "rfc3339_format toy_lib (wclock w' (wtick w')) = Some (bytes_str (le_bytes 10 0))" by (simp add: clk toy_format0)
  qed (use toy_admitted [OF refl] meth names in simp_all)
  with st api_change_tokens [OF ch] api_change_wf [OF ch] api_change_readable [OF ch] toy_db_wf toy_readable show ?thesis
    by (auto simp: toy_user_def)
qed

lemma toy_vault: "vault toy_lib toy_key toy_db ''app'' = Some [''K'' \<mapsto> ''v'']"
  by (simp add: vault_def toy_find)
    (auto simp: find_secret_def toy_db_def opened_def toy_cipher_opens toy_v row_at_def fun_eq_iff)

lemma toy_user_gets:
  assumes "bt_inv l" and "\<forall>k \<in> fst ` set l. valid_secret_key k" and "list_all (\<lambda>(k, v). is_str v) l"
    and "length (enc_map l) \<le> MAX_RESPONSE_BYTES"
  shows "\<exists>h'. get_secrets_client toy_lib toy_serde toy_user p (toy_client [wire_answer toy_render (respond 200 (secrets_json l))]) = (Val l, h')"
proof -
  have "decode_map toy_serde (toy_render (secrets_json l)) = Some l"
    using toy_wire assms(1,3) by (auto simp: wire_ok_def list_all_iff)
  moreover have "toy_render (secrets_json l) = enc_map l"
  proof -
    have "map (\<lambda>(k, v). (k, case v of JStr s \<Rightarrow> s | _ \<Rightarrow> [])) (map (\<lambda>(k, v). (k, JStr v)) l) = l" by (induction l) auto
    then show ?thesis by (simp add: toy_render_def secrets_json_def)
  qed
  ultimately have "fetched toy_serde (wire_answer toy_render (respond 200 (secrets_json l))) = Inr l"
    unfolding fetched_Inr [OF toy_serde_ok] using assms by (simp add: wire_answer_def respond_def body_bytes_def)
  then show ?thesis by (subst get_secrets_fetched_eq) (simp_all add: toy_user_def)
qed

lemma toy_app: "valid_project ''app''" "valid_key ''N''" "valid_secret_key ''K''" "valid_secret_key ''N''"
  by (simp_all add: valid_project_def valid_key_def valid_secret_key_def is_ascii_alnum_def)

section \<open>Client and server together\<close>

text \<open>C4: what a client reads is the vault. When the server's response to the request of the
  client's get is what the client receives, and the client returns a map, then that map is
  exactly the decrypted project in the server's database, the database is unchanged, and the
  client's token was accepted with a scope that allows the project.\<close>
theorem client_reads_the_vault:
  assumes "ct_ok L" and "db_wf (wdb w)" and "wire_ok W D render" and "serde_ok D" and "valid_project p"
    and "handle L W K (wire_request (api_base a) (get_call a p)) w = (Val rsp, w')"
    and "answer h = wire_answer render rsp" and "get_secrets_client L D a p h = (Val m, h')"
  shows "vault L K (wdb w) p = Some (map_of m) \<and> wdb w' = wdb w \<and>
    (\<exists>t. accepted L W (wire_request (api_base a) (get_call a p)) (wclock w) (wdb w) t \<and> scope_allows (at_scope t) p)"
  by (rule client_get_vault [OF assms])

theorem client_reads_the_vault_witness:
  "\<exists>rsp m h'. get_secrets_client toy_lib toy_serde toy_user ''app'' (toy_client [wire_answer toy_render rsp]) = (Val m, h') \<and>
     vault toy_lib toy_key toy_db ''app'' = Some (map_of m)"
proof -
  from toy_get_handled [OF toy_db_wf toy_readable _ refl] obtain l w' where
    run: "handle toy_lib toy_web toy_key (wire_request (api_base toy_user) (get_call toy_user ''app'')) (toy_on toy_db) =
      (Val (respond 200 (secrets_json l)), w')" and l: "bt_inv l" "map_of l = [''K'' \<mapsto> ''v'']"
    by (auto simp: toy_user_def toy_vault)
  then have eq: "l = [(''K'', ''v'')]" by (intro bt_inv_unique) (simp_all add: bt_inv_def)
  obtain h' where get: "get_secrets_client toy_lib toy_serde toy_user ''app'' (toy_client [wire_answer toy_render (respond 200 (secrets_json l))]) = (Val l, h')"
    using toy_user_gets [of l "''app''"] l(1) toy_app toy_v by (auto simp: eq enc_map_def enc_str_def MAX_RESPONSE_BYTES_def)
  from client_reads_the_vault [OF toy_ct _ toy_wire toy_serde_ok toy_app(1) run _ get] toy_db_wf get show ?thesis by auto
qed

text \<open>C3: what one client sets, another gets. After a set that succeeded, a get of the same
  project by any client, with whatever token the server accepts, that succeeds before the
  next change of the database returns the value set under that key and every other key as
  before: through both HTTP layers, encryption at rest and back.\<close>
theorem set_is_seen_by_get:
  assumes "aead_ok L" and "ct_ok L" and "web_ok W" and "wire_ok W D render" and "serde_ok D" and "db_wf (wdb w)"
    and "valid_project p" and "valid_key k" and "is_str v"
    and "handle L W K (wire_request (api_base a) (put_call D a p k v)) w = (Val r1, w1)"
    and "answer h = wire_answer render r1" and "set_secret L D a p k v h = (Val u, h')"
    and "wdb w2 = wdb w1"
    and "handle L W K (wire_request (api_base b) (get_call b p)) w2 = (Val r2, w3)"
    and "answer g = wire_answer render r2" and "get_secrets_client L D b p g = (Val m, g')"
  shows "map_of m k = Some v \<and> (\<forall>k'. k' \<noteq> k \<longrightarrow> map_of m k' = the (vault L K (wdb w) p) k')"
proof -
  from client_set_vault [OF assms(1-3,6,4,7-12)] obtain m0 where set: "vault L K (wdb w) p = Some m0"
    "vault L K (wdb w1) = (vault L K (wdb w))(p \<mapsto> m0(k \<mapsto> v))" "db_wf (wdb w1)" by blast
  have "db_wf (wdb w2)" using set(3) assms(13) by simp
  from client_get_vault [OF assms(2) this assms(4,5,7,14-16)] set assms(13) have "map_of m = m0(k \<mapsto> v)" by auto
  with set(1) show ?thesis by simp
qed

theorem set_is_seen_by_get_witness:
  "\<exists>r1 w1 h' r2 w3 m g'.
     handle toy_lib toy_web toy_key (wire_request ''https://s'' (put_call toy_serde toy_user ''app'' ''N'' ''v'')) (toy_on toy_db) = (Val r1, w1) \<and>
     set_secret toy_lib toy_serde toy_user ''app'' ''N'' ''v'' (toy_client [wire_answer toy_render r1]) = (Val (), h') \<and>
     handle toy_lib toy_web toy_key (wire_request ''https://s'' (get_call toy_user ''app'')) (toy_on (wdb w1)) = (Val r2, w3) \<and>
     get_secrets_client toy_lib toy_serde toy_user ''app'' (toy_client [wire_answer toy_render r2]) = (Val m, g') \<and>
     map_of m ''N'' = Some ''v''"
proof -
  let ?put = "wire_request (api_base toy_user) (put_call toy_serde toy_user ''app'' ''N'' ''v'')"
  let ?get = "wire_request (api_base toy_user) (get_call toy_user ''app'')"
  have wf: "db_wf (wdb (toy_on toy_db))" using toy_db_wf by simp
  from toy_put_handled obtain r1 w1 where put: "handle toy_lib toy_web toy_key ?put (toy_on toy_db) = (Val r1, w1)"
    and st: "rs_status r1 < 400" and w1: "db_wf (wdb w1)" "readable toy_lib toy_key (wdb w1)" "db_tokens (wdb w1) = db_tokens toy_db"
    by (auto simp: toy_user_def)
  from st have "\<exists>b. answer (toy_client [wire_answer toy_render r1]) = UreqOk b" by (simp add: wire_answer_def)
  then obtain h' where set: "set_secret toy_lib toy_serde toy_user ''app'' ''N'' ''v'' (toy_client [wire_answer toy_render r1]) = (Val (), h')"
    using set_secret_ok by blast
  from client_set_vault [OF toy_aead toy_ct toy_web_ok wf toy_wire toy_app(1,2) toy_v put _ set]
  have v: "vault toy_lib toy_key (wdb w1) ''app'' = Some [''K'' \<mapsto> ''v'', ''N'' \<mapsto> ''v'']" by (auto simp: toy_vault)
  then obtain l w3 where get: "handle toy_lib toy_web toy_key ?get (toy_on (wdb w1)) = (Val (respond 200 (secrets_json l)), w3)"
    and l: "bt_inv l" "map_of l = [''K'' \<mapsto> ''v'', ''N'' \<mapsto> ''v'']"
    using toy_get_handled [OF w1(1,2) _ w1(3)] by (auto simp: toy_user_def)
  then have eq: "l = [(''K'', ''v''), (''N'', ''v'')]" by (intro bt_inv_unique) (auto simp: bt_inv_def fun_eq_iff)
  obtain g' where read: "get_secrets_client toy_lib toy_serde toy_user ''app'' (toy_client [wire_answer toy_render (respond 200 (secrets_json l))]) = (Val l, g')"
    using toy_user_gets [of l "''app''"] l(1) toy_app toy_v by (auto simp: eq enc_map_def enc_str_def MAX_RESPONSE_BYTES_def)
  from set_is_seen_by_get [OF toy_aead toy_ct toy_web_ok toy_wire toy_serde_ok wf toy_app(1,2) toy_v put _ set _ get _ read]
  have "map_of l ''N'' = Some ''v''" by simp
  with put set get read show ?thesis by (auto simp: toy_user_def)
qed

end
